(* ===== verification/Prelude.thy ===== *)
theory Prelude
  imports Main "HOL-Library.Word" "HOL-Library.Signed_Division"
begin

unbundle bit_operations_syntax

text \<open>
  Shared vocabulary of the development: bytes, the Go integer types that the code
  computes with, the error values, and the generic list lemmas.

  Go's \<open>int\<close>, \<open>int64\<close>, \<open>uint64\<close>, \<open>uint32\<close> and \<open>uint16\<close> values are HOL integers; every
  operation of the source that can leave the range of its type is followed by the wrap of
  that type (\<open>i64\<close>, \<open>u64\<close>, \<open>u32\<close>, \<open>u16\<close>), as the Go specification prescribes (\<open>int\<close> is
  64 bits wide on the six architectures the README names). Division and remainder of the
  source truncate towards zero; they are \<open>sdiv\<close> and \<open>smod\<close> of the library.
\<close>

section \<open>Collections of simplification rules\<close>

named_theorems codec_simps
  \<open>reading back what was stored in a byte buffer\<close>
named_theorems image_simps
  \<open>reading back what was written to an image\<close>

section \<open>Bytes and machine integers\<close>

type_synonym byte = "8 word"
type_synonym bytes = "8 word list"

definition i64 :: "int \<Rightarrow> int" where
  "i64 x = (x + 2 ^ 63) mod 2 ^ 64 - 2 ^ 63"

definition u64 :: "int \<Rightarrow> int" where
  "u64 x = x mod 2 ^ 64"

definition u32 :: "int \<Rightarrow> int" where
  "u32 x = x mod 2 ^ 32"

lemma i64_id [simp]: "- (2 ^ 63) \<le> x \<Longrightarrow> x < 2 ^ 63 \<Longrightarrow> i64 x = x"
  by (simp add: i64_def)

lemma i64_range: "- (2 ^ 63) \<le> i64 x \<and> i64 x < 2 ^ 63"
proof -
  have "0 \<le> (x + 2 ^ 63) mod 2 ^ 64" and "(x + 2 ^ 63) mod 2 ^ 64 < 2 ^ 64"
    by simp_all
  then show ?thesis by (simp add: i64_def)
qed

lemma u64_id [simp]: "0 \<le> x \<Longrightarrow> x < 2 ^ 64 \<Longrightarrow> u64 x = x"
  by (simp add: u64_def)

lemma u32_id [simp]: "0 \<le> x \<Longrightarrow> x < 2 ^ 32 \<Longrightarrow> u32 x = x"
  by (simp add: u32_def)

lemma u64_range: "0 \<le> u64 x \<and> u64 x < 2 ^ 64"
  by (simp add: u64_def)

lemma u32_range: "0 \<le> u32 x \<and> u32 x < 2 ^ 32"
  by (simp add: u32_def)

lemma i64_u64 [simp]: "i64 (u64 x) = i64 x"
proof -
  have "(x mod 2 ^ 64 + 2 ^ 63) mod 2 ^ 64 = (x + 2 ^ 63) mod (2 ^ 64 :: int)"
    by (rule mod_add_left_eq)
  then show ?thesis by (simp only: i64_def u64_def)
qed

lemma sdiv_pos: "0 \<le> x \<Longrightarrow> 0 < y \<Longrightarrow> x sdiv y = x div y" for x y :: int
  by (cases "x = 0") (simp_all add: signed_divide_int_def)

lemma smod_pos: "0 \<le> x \<Longrightarrow> 0 < y \<Longrightarrow> x smod y = x mod y" for x y :: int
  by (cases "x = 0") (simp_all add: signed_modulo_int_def sdiv_pos minus_div_mult_eq_mod)

section \<open>Errors\<close>

text \<open>
  An error value of the source: end of file, a failed system call (by the call's name), an
  error that comes out of a library outside this repository, a message of this repository,
  and \<open>fmt.Errorf("...: %w", err)\<close>, which wraps an error under a message. Messages
  keep the source's fixed text; the values the source formats into them are left out.
\<close>

datatype error =
    EOF
  | Sys string
  | Lib string
  | Msg string
  | Wrap string error

text \<open>\<open>errors.Is\<close> with a sentinel that is itself an \<open>error\<close> of the model.\<close>

fun error_is :: "error \<Rightarrow> error \<Rightarrow> bool" where
  "error_is (Wrap m e) t = (Wrap m e = t \<or> error_is e t)"
| "error_is e t = (e = t)"

section \<open>Lists\<close>

text \<open>
  \<open>chunk off n xs\<close> is the source's \<open>xs[off:off+n]\<close> for bounds that lie inside; a
  \<open>put off ys xs\<close> is \<open>copy(xs[off:], ys)\<close> and the \<open>PutUint\<close> family, which store a run
  of bytes over a part of a buffer.
\<close>

definition chunk :: "nat \<Rightarrow> nat \<Rightarrow> 'a list \<Rightarrow> 'a list" where
  "chunk off n xs = take n (drop off xs)"

definition put :: "nat \<Rightarrow> 'a list \<Rightarrow> 'a list \<Rightarrow> 'a list" where
  "put off ys xs = take off xs @ ys @ drop (off + length ys) xs"

lemma length_chunk [simp]: "length (chunk off n xs) = min n (length xs - off)"
  by (simp add: chunk_def min.commute)

lemma length_put [simp]: "off + length ys \<le> length xs \<Longrightarrow> length (put off ys xs) = length xs"
  by (simp add: put_def)

lemma chunk_put_same [codec_simps]:
  "length ys = n \<Longrightarrow> off + n \<le> length xs \<Longrightarrow> chunk off n (put off ys xs) = ys"
  by (simp add: chunk_def put_def)

lemma chunk_put_below [codec_simps]:
  "off + n \<le> off' \<Longrightarrow> off' + length ys \<le> length xs \<Longrightarrow>
   chunk off n (put off' ys xs) = chunk off n xs"
  by (rule nth_equalityI) (auto simp: chunk_def put_def nth_append)

lemma chunk_put_above [codec_simps]:
  "off' + length ys \<le> off \<Longrightarrow> off' + length ys \<le> length xs \<Longrightarrow>
   chunk off n (put off' ys xs) = chunk off n xs"
  by (rule nth_equalityI) (auto simp: chunk_def put_def nth_append min_def)

lemma chunk_chunk [codec_simps]:
  "i + m \<le> n \<Longrightarrow> chunk i m (chunk off n xs) = chunk (off + i) m xs"
  by (simp add: chunk_def take_drop min_absorb1 add.commute)

lemma chunk_0_all [codec_simps]: "length xs \<le> n \<Longrightarrow> chunk 0 n xs = xs"
  by (simp add: chunk_def)

lemma chunk_replicate [codec_simps]:
  "off + n \<le> k \<Longrightarrow> chunk off n (replicate k x) = replicate n x"
  by (simp add: chunk_def)

lemma nth_chunk: "i < n \<Longrightarrow> off + i < length xs \<Longrightarrow> chunk off n xs ! i = xs ! (off + i)"
  by (simp add: chunk_def)

lemma nth_put:
  "off + length ys \<le> length xs \<Longrightarrow> i < length xs \<Longrightarrow>
   put off ys xs ! i = (if off \<le> i \<and> i < off + length ys then ys ! (i - off) else xs ! i)"
  by (auto simp: put_def nth_append min_def)

lemma put_put_same: "length ys = length zs \<Longrightarrow> off + length ys \<le> length xs \<Longrightarrow>
    put off zs (put off ys xs) = put off zs xs"
  by (rule nth_equalityI) (auto simp: nth_put)

lemma put_chunk_id: "off + n \<le> length xs \<Longrightarrow> put off (chunk off n xs) xs = xs"
  by (rule nth_equalityI) (auto simp: nth_put nth_chunk)

lemma chunk_0_put: "off + length ys \<le> n \<Longrightarrow> n \<le> length xs \<Longrightarrow>
    chunk 0 n (put off ys xs) = put off ys (chunk 0 n xs)"
  by (rule nth_equalityI) (auto simp: nth_put nth_chunk)

text \<open>Splitting the first index off a bounded search.\<close>

lemma ex_ge_split: "(\<exists>j\<ge>k. Q j) \<longleftrightarrow> Q k \<or> (\<exists>j\<ge>Suc k. Q j)"
  by (auto simp: Suc_le_eq order.strict_iff_order)

end
