(* ===== verification/Byte_Codec.thy ===== *)
theory Byte_Codec
  imports Prelude
begin

text \<open>
  The byte encodings of the Go standard library that the source uses:
  \<open>binary.LittleEndian\<close> and \<open>binary.BigEndian\<close>, strings as byte runs, and
  \<open>hash/crc32\<close> with the IEEE polynomial. Lemmas: each encoder is inverted by its decoder
  up to the width, and the check value of the CRC.
\<close>

section \<open>Fixed-width unsigned integers\<close>

text \<open>
  \<open>le_bytes 4 v\<close> is what \<open>binary.LittleEndian.PutUint32\<close> stores and \<open>le_bytes 8 v\<close> what
  \<open>PutUint64\<close> stores; \<open>le_val\<close> is \<open>binary.LittleEndian.Uint16/32/64\<close> of the bytes it is
  given, and \<open>be_bytes\<close>, \<open>be_val\<close> are the big-endian ones.
\<close>

fun le_bytes :: "nat \<Rightarrow> int \<Rightarrow> bytes" where
  "le_bytes 0 v = []"
| "le_bytes (Suc n) v = word_of_int v # le_bytes n (v div 256)"

fun le_val :: "bytes \<Rightarrow> int" where
  "le_val [] = 0"
| "le_val (b # bs) = uint b + 256 * le_val bs"

definition be_bytes :: "nat \<Rightarrow> int \<Rightarrow> bytes" where
  "be_bytes n v = rev (le_bytes n v)"

definition be_val :: "bytes \<Rightarrow> int" where
  "be_val bs = le_val (rev bs)"

lemma le_bytes_numeral:
  "le_bytes (numeral k) v = word_of_int v # le_bytes (pred_numeral k) (v div 256)"
  by (simp add: numeral_eq_Suc)

lemma length_le_bytes [simp]: "length (le_bytes n v) = n"
  by (induction n arbitrary: v) auto

lemma length_be_bytes [simp]: "length (be_bytes n v) = n"
  by (simp add: be_bytes_def)

lemma le_val_le_bytes: "le_val (le_bytes n v) = v mod 256 ^ n"
proof (induction n arbitrary: v)
  case 0
  then show ?case by simp
next
  case (Suc n)
  have "uint (word_of_int v :: byte) = v mod 256"
    by (simp add: uint_word_of_int)
  moreover have "v mod (256 * 256 ^ n) = 256 * (v div 256 mod 256 ^ n) + v mod 256"
    by (rule zmod_zmult2_eq) simp
  ultimately show ?case using Suc.IH by simp
qed

lemma be_val_be_bytes: "be_val (be_bytes n v) = v mod 256 ^ n"
  by (simp add: be_val_def be_bytes_def le_val_le_bytes)

lemma le_val_nonneg [simp]: "0 \<le> le_val bs"
  by (induction bs) auto

lemma le_val_bound: "le_val bs < 256 ^ length bs"
proof (induction bs)
  case Nil
  then show ?case by simp
next
  case (Cons b bs)
  have "uint b < 256" using uint_lt2p [of b] by simp
  moreover have "256 * le_val bs + 256 \<le> 256 * 256 ^ length bs"
    using Cons.IH by simp
  ultimately show ?case by simp
qed

lemma be_val_range: "0 \<le> be_val bs \<and> be_val bs < 256 ^ length bs"
  using le_val_bound [of "rev bs"] by (simp add: be_val_def)

lemma le_bytes_le_val: "length bs = n \<Longrightarrow> le_bytes n (le_val bs) = bs"
proof (induction bs arbitrary: n)
  case Nil
  then show ?case by simp
next
  case (Cons b bs)
  have ub: "0 \<le> uint b" "uint b < 256" using uint_lt2p [of b] by simp_all
  have "(uint b + 256 * le_val bs) div 256 = le_val bs"
    using ub by simp
  moreover have "word_of_int (uint b + 256 * le_val bs) = b"
  proof -
    have "uint (word_of_int (uint b + 256 * le_val bs) :: byte) = uint b"
      unfolding uint_word_of_int using ub by simp
    then show ?thesis by (simp only: word_uint_eq_iff)
  qed
  ultimately show ?case using Cons by auto
qed

lemma le_val_u32 [simp]: "le_val (le_bytes 4 v) = u32 v"
  by (simp add: le_val_le_bytes u32_def)

lemma le_val_u64 [simp]: "le_val (le_bytes 8 v) = u64 v"
  by (simp add: le_val_le_bytes u64_def)

lemma le_val_replicate_0 [simp]: "le_val (replicate n 0) = 0"
  by (induction n) auto

section \<open>Strings as bytes\<close>

text \<open>A Go string is a run of bytes; a HOL \<open>char\<close> is one byte.\<close>

definition byte_of :: "char \<Rightarrow> byte" where
  "byte_of c = word_of_nat (of_char c)"

definition str_bytes :: "string \<Rightarrow> bytes" where
  "str_bytes s = map byte_of s"

definition bytes_str :: "bytes \<Rightarrow> string" where
  "bytes_str bs = map (\<lambda>b. char_of (unat b)) bs"

lemma length_str_bytes [simp]: "length (str_bytes s) = length s"
  by (simp add: str_bytes_def)

lemma length_bytes_str [simp]: "length (bytes_str bs) = length bs"
  by (simp add: bytes_str_def)

lemma unat_byte_of [simp]: "unat (byte_of c) = of_char c"
proof -
  have "(of_char c :: nat) < 256" by simp
  then show ?thesis by (simp add: byte_of_def unat_of_nat)
qed

lemma bytes_str_str_bytes [simp]: "bytes_str (str_bytes s) = s"
  by (induction s) (simp_all add: bytes_str_def str_bytes_def)

lemma str_bytes_inj: "str_bytes s = str_bytes t \<longleftrightarrow> s = t"
  by (metis bytes_str_str_bytes)

lemma str_bytes_bytes_str [simp]: "str_bytes (bytes_str bs) = bs"
proof -
  have "byte_of (char_of (unat b)) = b" for b :: byte
  proof -
    have "unat b < 256" using unsigned_less [of b] by simp
    then have "unat (byte_of (char_of (unat b))) = unat b" by simp
    then show ?thesis by (simp only: word_unat_eq_iff)
  qed
  then show ?thesis by (simp add: str_bytes_def bytes_str_def o_def)
qed

lemma bytes_str_eq_iff: "bytes_str bs = s \<longleftrightarrow> bs = str_bytes s"
  by auto

section \<open>CRC-32\<close>

text \<open>
  \<open>crc32.ChecksumIEEE\<close>: reflected polynomial \<open>0xEDB88320\<close>, initial value and final xor
  all ones. One bit at a time, which is what the library's tables tabulate.
\<close>

definition crc_bit :: "32 word \<Rightarrow> 32 word" where
  "crc_bit c = (if bit c 0 then drop_bit 1 c XOR 0xEDB88320 else drop_bit 1 c)"

definition crc_byte :: "32 word \<Rightarrow> byte \<Rightarrow> 32 word" where
  "crc_byte c b = (crc_bit ^^ 8) (c XOR ucast b)"

definition crc32 :: "bytes \<Rightarrow> 32 word" where
  "crc32 bs = NOT (foldl crc_byte (NOT 0) bs)"

definition checksum_ieee :: "bytes \<Rightarrow> int" where
  "checksum_ieee bs = uint (crc32 bs)"

lemma checksum_ieee_range: "0 \<le> checksum_ieee bs \<and> checksum_ieee bs < 2 ^ 32"
  using uint_lt2p [of "crc32 bs"] by (simp add: checksum_ieee_def)

lemma u32_checksum_ieee [simp]: "u32 (checksum_ieee bs) = checksum_ieee bs"
  using checksum_ieee_range by simp

lemma crc_byte_eval:
  "crc_byte c b =
   crc_bit (crc_bit (crc_bit (crc_bit (crc_bit (crc_bit (crc_bit (crc_bit (c XOR ucast b))))))))"
  by (simp add: crc_byte_def eval_nat_numeral)

lemma crc32_check_value: "checksum_ieee (str_bytes ''123456789'') = 0xCBF43926"
  by (simp add: checksum_ieee_def crc32_def crc_byte_eval crc_bit_def str_bytes_def byte_of_def)

end
