(* ===== verification/Host_Files.thy ===== *)
theory Host_Files
  imports Byte_Codec
begin

text \<open>
  The host that the program runs on, as far as the source uses it: files with random
  access (package \<open>os\<close>), the random source of \<open>crypto/rand\<close>, and standard output.

  A file is a size and a byte for every offset, zero past the end (\<open>wf_image\<close>), so that a
  sparse image of many gigabytes is a value like any other. The world holds the files by
  path and a fault plan: \<open>fault op path x\<close> is \<open>None\<close> when the system call \<open>op\<close> on \<open>path\<close>
  succeeds, and \<open>Some k\<close> when it fails, for a write after \<open>k\<close> bytes; \<open>x\<close> is the
  offset of a read or write and the new size of a truncate. So every error branch of the
  source is reachable, one system call at a time.
\<close>

section \<open>Images\<close>

record image =
  isize :: nat
  icont :: "nat \<Rightarrow> byte"

definition wf_image :: "image \<Rightarrow> bool" where
  "wf_image img \<longleftrightarrow> (\<forall>i. isize img \<le> i \<longrightarrow> icont img i = 0)"

definition empty_image :: image where
  "empty_image = \<lparr>isize = 0, icont = (\<lambda>_. 0)\<rparr>"

definition img_bytes :: "image \<Rightarrow> nat \<Rightarrow> nat \<Rightarrow> bytes" where
  "img_bytes img off n = map (icont img) [off..<off + n]"

text \<open>A write past the end leaves a hole of zero bytes; an empty write changes nothing.\<close>

definition img_write :: "nat \<Rightarrow> bytes \<Rightarrow> image \<Rightarrow> image" where
  "img_write off bs img =
     (if bs = [] then img
      else \<lparr>isize = max (isize img) (off + length bs),
            icont = (\<lambda>i. if off \<le> i \<and> i < off + length bs then bs ! (i - off)
                         else icont img i)\<rparr>)"

definition img_truncate :: "nat \<Rightarrow> image \<Rightarrow> image" where
  "img_truncate n img =
     \<lparr>isize = n, icont = (\<lambda>i. if i < n then icont img i else 0)\<rparr>"

lemma isize_img_write [simp]:
  "isize (img_write off bs img) =
   (if bs = [] then isize img else max (isize img) (off + length bs))"
  by (simp add: img_write_def)

lemma icont_img_write:
  "icont (img_write off bs img) i =
   (if off \<le> i \<and> i < off + length bs then bs ! (i - off) else icont img i)"
  by (auto simp: img_write_def)

lemma isize_img_truncate [simp]: "isize (img_truncate n img) = n"
  by (simp add: img_truncate_def)

lemma wf_empty_image [simp]: "wf_image empty_image"
  by (simp add: wf_image_def empty_image_def)

lemma wf_img_write [intro]: "wf_image img \<Longrightarrow> wf_image (img_write off bs img)"
  by (auto simp: wf_image_def icont_img_write)

lemma wf_img_truncate [intro]: "wf_image (img_truncate n img)"
  by (auto simp: wf_image_def img_truncate_def)

lemma length_img_bytes [simp]: "length (img_bytes img off n) = n"
  by (simp add: img_bytes_def)

lemma img_bytes_eq_iff:
  "img_bytes img off n = bs \<longleftrightarrow>
   length bs = n \<and> (\<forall>i < n. icont img (off + i) = bs ! i)"
  by (auto simp: img_bytes_def list_eq_iff_nth_eq)

lemma img_bytes_write_same [image_simps]:
  "length bs = n \<Longrightarrow> img_bytes (img_write off bs img) off n = bs"
  by (auto simp: img_bytes_eq_iff icont_img_write)

lemma img_bytes_write_below [image_simps]:
  "off + n \<le> off' \<Longrightarrow> img_bytes (img_write off' bs img) off n = img_bytes img off n"
  by (auto simp: img_bytes_def icont_img_write)

lemma img_bytes_write_above [image_simps]:
  "off' + length bs \<le> off \<Longrightarrow> img_bytes (img_write off' bs img) off n = img_bytes img off n"
  by (auto simp: img_bytes_def icont_img_write)

lemma chunk_img_bytes [image_simps]:
  "i + m \<le> n \<Longrightarrow> chunk i m (img_bytes img off n) = img_bytes img (off + i) m"
  by (rule nth_equalityI) (auto simp: nth_chunk img_bytes_def ac_simps)

lemma take_img_bytes: "m \<le> n \<Longrightarrow> take m (img_bytes img off n) = img_bytes img off m"
  by (rule nth_equalityI) (auto simp: img_bytes_def)

lemma nth_img_bytes [simp]: "i < n \<Longrightarrow> img_bytes img off n ! i = icont img (off + i)"
  by (simp add: img_bytes_def)

section \<open>Random-access readers\<close>

text \<open>
  The interface \<open>readerAt\<close> of detect.go, \<open>ReadAt(p, off)\<close>: given the offset and the
  length of the buffer it returns the bytes it stored at the buffer's start and an error
  when there are fewer than asked for. \<open>img_read\<close> is \<open>(*os.File).ReadAt\<close>: a negative
  offset is an error, a read that runs past the end returns what is there and \<open>EOF\<close>, and
  a read of no bytes succeeds.
\<close>

type_synonym reader = "int \<Rightarrow> nat \<Rightarrow> bytes \<times> error option"

definition img_read :: "image \<Rightarrow> reader" where
  "img_read img off n =
     (if off < 0 then ([], Some (Sys ''negative offset''))
      else let m = min n (isize img - nat off)
           in (img_bytes img (nat off) m, if m < n then Some EOF else None))"

text \<open>
  The contract the parsers of this repository rely on: a reader is a view of a run of
  \<open>vlen\<close> bytes. Everything proved in this locale holds of every reader that keeps it.
\<close>

locale reader_at =
  fixes rd :: reader and view :: "nat \<Rightarrow> byte" and vlen :: nat
  assumes rd_inside:
      "0 \<le> off \<Longrightarrow> 0 < n \<Longrightarrow> nat off + n \<le> vlen \<Longrightarrow>
       rd off n = (map view [nat off..<nat off + n], None)"
    and rd_outside:
      "0 < n \<Longrightarrow> off < 0 \<or> vlen < nat off + n \<Longrightarrow> snd (rd off n) \<noteq> None"
begin

lemma rd_ok_iff:
  "0 < n \<Longrightarrow> snd (rd off n) = None \<longleftrightarrow> 0 \<le> off \<and> nat off + n \<le> vlen"
  using rd_inside rd_outside by (metis linorder_not_le snd_conv)

lemma rd_bytes:
  "0 < n \<Longrightarrow> rd off n = (bs, None) \<Longrightarrow> bs = map view [nat off..<nat off + n]"
  using rd_inside rd_ok_iff by (metis prod.inject snd_conv)

lemma rd_at_nat:
  "0 < n \<Longrightarrow> off + n \<le> vlen \<Longrightarrow> rd (int off) n = (map view [off..<off + n], None)"
  using rd_inside [of "int off" n] by simp

end

interpretation img: reader_at "img_read img" "icont img" "isize img" for img
  by unfold_locales (auto simp: img_read_def img_bytes_def Let_def min_def)

text \<open>\<open>offsetReaderAt\<close> of detect.go, which adds a base to every offset.\<close>

definition offset_read :: "reader \<Rightarrow> int \<Rightarrow> reader" where
  "offset_read r base off n = r (i64 (base + off)) n"

section \<open>The world\<close>

datatype syscall =
    S_open | S_create | S_truncate | S_read | S_write | S_rename | S_remove | S_temp
  | S_stat | S_sync | S_close

record world =
  files :: "string \<Rightarrow> image option"
  fault :: "syscall \<Rightarrow> string \<Rightarrow> int \<Rightarrow> nat option"
  temp_names :: "string list"
  entropy :: "nat \<Rightarrow> byte"
  drawn :: nat
  stdout :: "string list"

text \<open>
  Every system call takes the world and returns its result with the new world. A handle
  of an open file is its path: no file of the source is renamed or removed while open.
\<close>

definition sys_open :: "string \<Rightarrow> world \<Rightarrow> error option" where
  "sys_open path w =
     (if fault w S_open path 0 \<noteq> None \<or> files w path = None then Some (Sys ''open'') else None)"

definition sys_create :: "string \<Rightarrow> world \<Rightarrow> error option \<times> world" where
  "sys_create path w =
     (if fault w S_create path 0 \<noteq> None then (Some (Sys ''open''), w)
      else (None, w\<lparr>files := (files w)(path \<mapsto> empty_image)\<rparr>))"

definition sys_truncate :: "string \<Rightarrow> int \<Rightarrow> world \<Rightarrow> error option \<times> world" where
  "sys_truncate path n w =
     (case files w path of
        None \<Rightarrow> (Some (Sys ''truncate''), w)
      | Some img \<Rightarrow>
          if n < 0 \<or> fault w S_truncate path n \<noteq> None then (Some (Sys ''truncate''), w)
          else (None, w\<lparr>files := (files w)(path \<mapsto> img_truncate (nat n) img)\<rparr>))"

text \<open>
  \<open>(*os.File).WriteAt\<close>: the number of bytes written and the error. No file grows past
  the largest offset an \<open>int64\<close> holds.
\<close>

definition sys_write_at :: "string \<Rightarrow> bytes \<Rightarrow> int \<Rightarrow> world \<Rightarrow> (nat \<times> error option) \<times> world" where
  "sys_write_at path bs off w =
     (case files w path of
        None \<Rightarrow> ((0, Some (Sys ''write'')), w)
      | Some img \<Rightarrow>
          if off < 0 \<or> 2 ^ 63 \<le> off + int (length bs) then ((0, Some (Sys ''write'')), w)
          else (case fault w S_write path off of
                  None \<Rightarrow> ((length bs, None),
                    w\<lparr>files := (files w)(path \<mapsto> img_write (nat off) bs img)\<rparr>)
                | Some k \<Rightarrow>
                    ((min k (length bs), Some (Sys ''write'')),
                     w\<lparr>files := (files w)(path \<mapsto> img_write (nat off) (take k bs) img)\<rparr>)))"

definition sys_read_at :: "string \<Rightarrow> world \<Rightarrow> reader" where
  "sys_read_at path w off n =
     (case files w path of
        None \<Rightarrow> ([], Some (Sys ''read''))
      | Some img \<Rightarrow>
          (case fault w S_read path off of
             None \<Rightarrow> img_read img off n
           | Some k \<Rightarrow> (take k (fst (img_read img off n)), Some (Sys ''read''))))"

definition sys_remove :: "string \<Rightarrow> world \<Rightarrow> error option \<times> world" where
  "sys_remove path w =
     (if fault w S_remove path 0 \<noteq> None \<or> files w path = None then (Some (Sys ''remove''), w)
      else (None, w\<lparr>files := (files w)(path := None)\<rparr>))"

definition sys_rename :: "string \<Rightarrow> string \<Rightarrow> world \<Rightarrow> error option \<times> world" where
  "sys_rename old new w =
     (case files w old of
        None \<Rightarrow> (Some (Sys ''rename''), w)
      | Some img \<Rightarrow>
          if fault w S_rename old 0 \<noteq> None then (Some (Sys ''rename''), w)
          else (None, w\<lparr>files := ((files w)(old := None))(new \<mapsto> img)\<rparr>))"

definition sys_stat_size :: "string \<Rightarrow> world \<Rightarrow> error + int" where
  "sys_stat_size path w =
     (case files w path of
        None \<Rightarrow> Inl (Sys ''stat'')
      | Some img \<Rightarrow>
          if fault w S_stat path 0 \<noteq> None then Inl (Sys ''stat'') else Inr (int (isize img)))"

text \<open>
  \<open>os.CreateTemp\<close> draws names until one is not taken and creates an empty file of that
  name; the names it draws are part of the world.
\<close>

fun pick_temp :: "(string \<Rightarrow> image option) \<Rightarrow> string list \<Rightarrow> (string \<times> string list) option" where
  "pick_temp fs [] = None"
| "pick_temp fs (n # ns) = (if fs n = None then Some (n, ns) else pick_temp fs ns)"

definition sys_create_temp :: "world \<Rightarrow> (error + string) \<times> world" where
  "sys_create_temp w =
     (case pick_temp (files w) (temp_names w) of
        None \<Rightarrow> (Inl (Sys ''createtemp''), w)
      | Some (n, ns) \<Rightarrow>
          if fault w S_temp n 0 \<noteq> None then (Inl (Sys ''createtemp''), w\<lparr>temp_names := ns\<rparr>)
          else (Inr n, w\<lparr>files := (files w)(n \<mapsto> empty_image), temp_names := ns\<rparr>))"

text \<open>\<open>os.WriteFile\<close>: create or truncate, then write the data.\<close>

definition sys_write_file :: "string \<Rightarrow> bytes \<Rightarrow> world \<Rightarrow> error option \<times> world" where
  "sys_write_file path bs w =
     (case sys_create path w of
        (Some e, w1) \<Rightarrow> (Some e, w1)
      | (None, w1) \<Rightarrow> (case sys_write_at path bs 0 w1 of ((n, e), w2) \<Rightarrow> (e, w2)))"

text \<open>\<open>rand.Read(b)\<close> for a buffer of \<open>n\<close> bytes.\<close>

definition rand_read :: "nat \<Rightarrow> world \<Rightarrow> bytes \<times> world" where
  "rand_read n w = (map (entropy w) [drawn w..<drawn w + n], w\<lparr>drawn := drawn w + n\<rparr>)"

definition print_line :: "string \<Rightarrow> world \<Rightarrow> world" where
  "print_line s w = w\<lparr>stdout := stdout w @ [s]\<rparr>"

section \<open>Frame lemmas\<close>

lemma pick_temp_fresh:
  "pick_temp fs ns = Some (n, ns') \<Longrightarrow> fs n = None"
  by (induction ns) (auto split: if_splits)

lemma sys_create_other: "sys_create p w = (e, w') \<Longrightarrow> q \<noteq> p \<Longrightarrow> files w' q = files w q"
  by (auto simp: sys_create_def split: if_splits)

lemma sys_truncate_other: "sys_truncate p n w = (e, w') \<Longrightarrow> q \<noteq> p \<Longrightarrow> files w' q = files w q"
  by (auto simp: sys_truncate_def split: option.splits if_splits)

lemma sys_write_at_other:
  "sys_write_at p bs off w = (r, w') \<Longrightarrow> q \<noteq> p \<Longrightarrow> files w' q = files w q"
  by (auto simp: sys_write_at_def split: option.splits if_splits)

lemma sys_remove_other: "sys_remove p w = (e, w') \<Longrightarrow> q \<noteq> p \<Longrightarrow> files w' q = files w q"
  by (auto simp: sys_remove_def split: if_splits)

lemma sys_fault_frame:
  "sys_create p w = (e, w') \<Longrightarrow> fault w' = fault w"
  "sys_truncate p n w = (e, w') \<Longrightarrow> fault w' = fault w"
  "sys_write_at p bs off w = (r, w') \<Longrightarrow> fault w' = fault w"
  "sys_remove p w = (e, w') \<Longrightarrow> fault w' = fault w"
  "sys_rename p q w = (e, w') \<Longrightarrow> fault w' = fault w"
  by (auto simp: sys_create_def sys_truncate_def sys_write_at_def sys_remove_def sys_rename_def
      split: if_splits option.splits)

lemma sys_write_at_ok:
  "files w p = Some img \<Longrightarrow> 0 \<le> off \<Longrightarrow> off + int (length bs) < 2 ^ 63 \<Longrightarrow>
   fault w S_write p off = None \<Longrightarrow>
   sys_write_at p bs off w =
     ((length bs, None), w\<lparr>files := (files w)(p \<mapsto> img_write (nat off) bs img)\<rparr>)"
  by (simp add: sys_write_at_def)

lemma sys_write_at_success:
  "sys_write_at p bs off w = ((n, None), w') \<Longrightarrow>
   \<exists>img. files w p = Some img \<and> n = length bs \<and> 0 \<le> off \<and> off + int (length bs) < 2 ^ 63 \<and>
     w' = w\<lparr>files := (files w)(p \<mapsto> img_write (nat off) bs img)\<rparr>"
  by (auto simp: sys_write_at_def split: option.splits if_splits)

lemma sys_read_at_img:
  "files w p = Some img \<Longrightarrow> (\<And>off. fault w S_read p off = None) \<Longrightarrow>
   sys_read_at p w = img_read img"
  by (rule ext, rule ext) (simp add: sys_read_at_def)

end
