(* ===== verification/Image_Types.thy ===== *)
theory Image_Types
  imports Host_Files
begin

text \<open>
  The types and option records of create.go, and the interfaces of the libraries outside
  this repository: \<open>dmg\<close> (UDIF images), \<open>qcow2\<close>, \<open>fde\<close> and the file-system drivers. A library
  is a record of functions over the world, an argument of the definitions that call it;
  nothing is assumed about it except by the named hypotheses of a property.
\<close>

section \<open>Formats, partition schemes, file systems\<close>

text \<open>The source's string types; any string can reach the code, so they stay strings.\<close>

type_synonym ImageFormat = string
type_synonym PartitionScheme = string
type_synonym FilesystemType = string

abbreviation FormatRaw :: ImageFormat where "FormatRaw \<equiv> ''raw''"
abbreviation FormatDmg :: ImageFormat where "FormatDmg \<equiv> ''dmg''"

abbreviation PartNone :: PartitionScheme where "PartNone \<equiv> ''none''"
abbreviation PartMBR :: PartitionScheme where "PartMBR \<equiv> ''mbr''"
abbreviation PartGPT :: PartitionScheme where "PartGPT \<equiv> ''gpt''"

abbreviation FSNone :: FilesystemType where "FSNone \<equiv> ''none''"
abbreviation FSExt4 :: FilesystemType where "FSExt4 \<equiv> ''ext4''"
abbreviation FSFat32 :: FilesystemType where "FSFat32 \<equiv> ''fat32''"
abbreviation FSBtrfs :: FilesystemType where "FSBtrfs \<equiv> ''btrfs''"
abbreviation FSXfs :: FilesystemType where "FSXfs \<equiv> ''xfs''"
abbreviation FSZfs :: FilesystemType where "FSZfs \<equiv> ''zfs''"
abbreviation FSExFAT :: FilesystemType where "FSExFAT \<equiv> ''exfat''"
abbreviation FSNTFS :: FilesystemType where "FSNTFS \<equiv> ''ntfs''"
abbreviation FSApfs :: FilesystemType where "FSApfs \<equiv> ''apfs''"
abbreviation FSHfsPlus :: FilesystemType where "FSHfsPlus \<equiv> ''hfsplus''"

definition DmgSupportedFilesystems :: "string list" where
  "DmgSupportedFilesystems = [''none'', ''apfs'', ''hfsplus'', ''fat32'', ''exfat'']"

fun is_member_loop :: "string \<Rightarrow> string list \<Rightarrow> bool" where
  "is_member_loop fs [] = False"
| "is_member_loop fs (ok # oks) = (if fs = ok then True else is_member_loop fs oks)"

definition IsDmgSupportedFilesystem :: "FilesystemType \<Rightarrow> bool" where
  "IsDmgSupportedFilesystem fs = is_member_loop fs DmgSupportedFilesystems"

lemma is_member_loop_iff: "is_member_loop fs xs \<longleftrightarrow> fs \<in> set xs"
  by (induction xs) auto

section \<open>Options\<close>

record CreateOptions =
  co_Path :: string
  co_SizeBytes :: int
  co_Format :: ImageFormat
  co_Partition :: PartitionScheme
  co_Filesystem :: FilesystemType
  co_Label :: string
  co_DmgUDIFFormat :: string
  co_DmgPassphrase :: bytes

record FileOptions =
  fo_Path :: string
  fo_Filesystem :: FilesystemType
  fo_PartIndex :: int
  fo_FilePath :: string
  fo_UnlockKeys :: "string list"

section \<open>Libraries outside the repository\<close>

text \<open>Package \<open>github.com/go-diskimages/dmg\<close>, by the functions the source calls.\<close>

record dmg_lib =
  isUDIF :: "string \<Rightarrow> world \<Rightarrow> bool"
  unpackToTemp :: "string \<Rightarrow> world \<Rightarrow> (error + string) \<times> world"
  packFromTemp :: "string \<Rightarrow> string \<Rightarrow> world \<Rightarrow> error option \<times> world"
  wrapRaw :: "string \<Rightarrow> world \<Rightarrow> error option \<times> world"
  convertUDIF :: "string \<Rightarrow> string \<Rightarrow> string \<Rightarrow> world \<Rightarrow> error option \<times> world"
  resizeUDRW :: "string \<Rightarrow> int \<Rightarrow> world \<Rightarrow> error option \<times> world"
  inPlaceWritable :: "string \<Rightarrow> world \<Rightarrow> error + bool"
  refreshChecksums :: "string \<Rightarrow> world \<Rightarrow> error option \<times> world"

text \<open>
  The formatters of the file-system drivers (\<open>filesystem_ext4.Format\<close> and so on) by file
  system, path, size and label, the closing of the handle one of them returns, and the
  APFS encryption of \<open>go-fde/apfs\<close>, whose device is closed by the second function.
\<close>

record format_lib =
  formatFS :: "FilesystemType \<Rightarrow> string \<Rightarrow> int \<Rightarrow> string \<Rightarrow> world \<Rightarrow> error option \<times> world"
  closeFormatted :: "string \<Rightarrow> world \<Rightarrow> error option \<times> world"
  fdeFormat :: "string \<Rightarrow> bytes \<Rightarrow> world \<Rightarrow> error option \<times> world"
  fdeClose :: "string \<Rightarrow> world \<Rightarrow> error option \<times> world"

end
