(* ===== verification/Partitions.thy ===== *)
theory Partitions
  imports Host_Files
begin

text \<open>
  partitions.go: the MBR and GPT writers and the random GUIDs, and the specification of a
  valid GUID partition table (\<open>gpt_valid\<close>, after the UEFI specification's checks) that
  the writer is proved to meet.
\<close>

section \<open>Constants\<close>

definition sectorSize :: int where [simp]: "sectorSize = 512"
definition gptHeaderSize :: nat where [simp]: "gptHeaderSize = 92"
definition gptEntrySize :: nat where [simp]: "gptEntrySize = 128"
definition gptMaxEntries :: nat where [simp]: "gptMaxEntries = 128"

section \<open>MBR\<close>

text \<open>
  The boot sector that \<open>writeMBR\<close> builds: one primary entry at offset 446, LBA start 2048,
  the sector count in 32 bits, and the boot signature. The sector total is converted to
  \<open>uint32\<close> before it is compared.
\<close>

definition mbr_sector :: "int \<Rightarrow> byte \<Rightarrow> error + bytes" where
  "mbr_sector imageSize partType =
     (let firstSector = 2048;
          totalSectors = u32 (imageSize sdiv sectorSize)
      in if totalSectors < firstSector + 1 then Inl (Msg ''diskimage: MBR: image too small'')
         else
           (let partSectors = u32 (totalSectors - firstSector);
                mbr = replicate 512 0;
                mbr = put 446 [0x00, 0x00, 0x02, 0x00, partType, 0xFE, 0xFF, 0xFF] mbr;
                mbr = put (446 + 8) (le_bytes 4 firstSector) mbr;
                mbr = put (446 + 12) (le_bytes 4 partSectors) mbr
            in Inr (put 510 [0x55, 0xAA] mbr)))"

definition writeMBR :: "string \<Rightarrow> int \<Rightarrow> byte \<Rightarrow> world \<Rightarrow> error option \<times> world" where
  "writeMBR path imageSize partType w =
     (case mbr_sector imageSize partType of
        Inl e \<Rightarrow> (Some e, w)
      | Inr mbr \<Rightarrow>
          (case sys_open path w of
             Some e \<Rightarrow> (Some (Wrap ''diskimage: writeMBR'' e), w)
           | None \<Rightarrow>
               (case sys_write_at path mbr 0 w of
                  ((n, Some e), w1) \<Rightarrow> (Some (Wrap ''diskimage: writeMBR: write'' e), w1)
                | ((n, None), w1) \<Rightarrow> (None, w1))))"

section \<open>Random GUIDs\<close>

definition swap_at :: "nat \<Rightarrow> nat \<Rightarrow> 'a list \<Rightarrow> 'a list" where
  "swap_at i j b = b[i := b ! j, j := b ! i]"

definition guid_wire :: "bytes \<Rightarrow> bytes" where
  "guid_wire b =
     (let b = b[6 := (b ! 6 AND 0x0F) OR 0x40];
          b = b[8 := (b ! 8 AND 0x3F) OR 0x80];
          b = swap_at 0 3 b;
          b = swap_at 1 2 b;
          b = swap_at 4 5 b
      in swap_at 6 7 b)"

definition randomGUID :: "world \<Rightarrow> bytes \<times> world" where
  "randomGUID w = (let (b, w1) = rand_read 16 w in (guid_wire b, w1))"

section \<open>GPT\<close>

definition partName :: string where "partName = ''disk image''"

text \<open>The loop that stores the name as UTF-16LE, two bytes a character.\<close>

fun put_part_name :: "nat \<Rightarrow> string \<Rightarrow> bytes \<Rightarrow> bytes" where
  "put_part_name i [] p = p"
| "put_part_name i (r # rs) p =
     (let off = 56 + i * 2
      in if off + 2 > 128 then p
         else put_part_name (Suc i) rs (put off [byte_of r, word_of_nat (of_char r div 256)] p))"

definition gpt_entries :: "bytes \<Rightarrow> bytes \<Rightarrow> int \<Rightarrow> int \<Rightarrow> bytes" where
  "gpt_entries partTypeGUID partGUID partStart partEnd =
     (let p = replicate (gptMaxEntries * gptEntrySize) 0;
          p = put 0 partTypeGUID p;
          p = put 16 partGUID p;
          p = put 32 (le_bytes 8 (u64 partStart)) p;
          p = put 40 (le_bytes 8 (u64 partEnd)) p
      in put_part_name 0 partName p)"

text \<open>
  The closure \<open>buildHeader\<close>: the header sector with a zero CRC field, then the CRC of its
  first 92 bytes stored into that field.
\<close>

definition header_without_crc ::
    "bytes \<Rightarrow> int \<Rightarrow> int \<Rightarrow> int \<Rightarrow> int \<Rightarrow> int \<Rightarrow> int \<Rightarrow> bytes" where
  "header_without_crc diskGUID firstUsable lastUsable entriesCRC currentLBA backupLBA entryStartLBA =
     (let h = replicate 512 0;
          h = put 0 (str_bytes ''EFI PART'') h;
          h = put 8 (le_bytes 4 0x00010000) h;
          h = put 12 (le_bytes 4 (int gptHeaderSize)) h;
          h = put 24 (le_bytes 8 (u64 currentLBA)) h;
          h = put 32 (le_bytes 8 (u64 backupLBA)) h;
          h = put 40 (le_bytes 8 (u64 firstUsable)) h;
          h = put 48 (le_bytes 8 (u64 lastUsable)) h;
          h = put 56 diskGUID h;
          h = put 72 (le_bytes 8 (u64 entryStartLBA)) h;
          h = put 80 (le_bytes 4 (int gptMaxEntries)) h;
          h = put 84 (le_bytes 4 (int gptEntrySize)) h
      in put 88 (le_bytes 4 entriesCRC) h)"

definition buildHeader ::
    "bytes \<Rightarrow> int \<Rightarrow> int \<Rightarrow> int \<Rightarrow> int \<Rightarrow> int \<Rightarrow> int \<Rightarrow> bytes" where
  "buildHeader diskGUID firstUsable lastUsable entriesCRC currentLBA backupLBA entryStartLBA =
     (let h = header_without_crc diskGUID firstUsable lastUsable entriesCRC
                currentLBA backupLBA entryStartLBA;
          headerCRC = checksum_ieee (chunk 0 gptHeaderSize h)
      in put 16 (le_bytes 4 headerCRC) h)"

text \<open>
  The protective MBR. The source clamps the sector count to \<open>0xFFFFFFFF\<close> after it has
  converted it to \<open>uint32\<close>; the comparison is kept as it is written.
\<close>

definition protective_mbr :: "int \<Rightarrow> bytes" where
  "protective_mbr totalSectors =
     (let pmbr = replicate 512 0;
          pmbr = put 446 [0x00] pmbr;
          pmbr = put (446 + 4) [0xEE, 0xFF, 0xFF, 0xFF] pmbr;
          pmbr = put (446 + 8) (le_bytes 4 1) pmbr;
          sz = u32 (totalSectors - 1);
          sz = (if sz > 0xFFFFFFFF then 0xFFFFFFFF else sz);
          pmbr = put (446 + 12) (le_bytes 4 sz) pmbr
      in put 510 [0x55, 0xAA] pmbr)"

text \<open>The five regions \<open>writeGPT\<close> writes, in its order, each with its offset.\<close>

definition gpt_regions :: "int \<Rightarrow> bytes \<Rightarrow> bytes \<Rightarrow> bytes \<Rightarrow> (int \<times> bytes) list" where
  "gpt_regions imageSize partTypeGUID diskGUID partGUID =
     (let firstUsable = 2048;
          partStart = 2048;
          entryLBA = 2;
          entriesSize = int gptMaxEntries * int gptEntrySize;
          totalSectors = imageSize sdiv sectorSize;
          backupHeaderLBA = totalSectors - 1;
          backupEntriesLBA = backupHeaderLBA - entriesSize sdiv sectorSize;
          lastUsable = backupEntriesLBA - 1;
          partEnd = lastUsable;
          entries = gpt_entries partTypeGUID partGUID partStart partEnd;
          entriesCRC = checksum_ieee entries;
          primaryHeader = buildHeader diskGUID firstUsable lastUsable entriesCRC
                            1 backupHeaderLBA entryLBA;
          backupHeader = buildHeader diskGUID firstUsable lastUsable entriesCRC
                            backupHeaderLBA 1 backupEntriesLBA
      in [(0, protective_mbr totalSectors),
          (1 * sectorSize, primaryHeader),
          (entryLBA * sectorSize, entries),
          (backupEntriesLBA * sectorSize, entries),
          (backupHeaderLBA * sectorSize, backupHeader)])"

fun write_regions :: "string \<Rightarrow> (int \<times> bytes) list \<Rightarrow> world \<Rightarrow> error option \<times> world" where
  "write_regions path [] w = (None, w)"
| "write_regions path ((off, data) # rs) w =
     (case sys_write_at path data off w of
        ((n, Some e), w1) \<Rightarrow> (Some (Wrap ''diskimage: writeGPT: write'' e), w1)
      | ((n, None), w1) \<Rightarrow> write_regions path rs w1)"

definition writeGPT :: "string \<Rightarrow> int \<Rightarrow> bytes \<Rightarrow> world \<Rightarrow> error option \<times> world" where
  "writeGPT path imageSize partTypeGUID w =
     (let (diskGUID, w1) = randomGUID w;
          (partGUID, w2) = randomGUID w1
      in case sys_open path w2 of
           Some e \<Rightarrow> (Some (Wrap ''diskimage: writeGPT'' e), w2)
         | None \<Rightarrow> write_regions path (gpt_regions imageSize partTypeGUID diskGUID partGUID) w2)"

section \<open>What the MBR sector holds\<close>

lemma mbr_sector_Inr:
  assumes "mbr_sector sz pt = Inr mbr"
  shows "2049 \<le> u32 (sz sdiv 512)"
    and "length mbr = 512"
    and "chunk 446 8 mbr = [0x00, 0x00, 0x02, 0x00, pt, 0xFE, 0xFF, 0xFF]"
    and "chunk 454 4 mbr = le_bytes 4 2048"
    and "chunk 458 4 mbr = le_bytes 4 (u32 (sz sdiv 512) - 2048)"
    and "chunk 462 48 mbr = replicate 48 0"
    and "chunk 510 2 mbr = [0x55, 0xAA]"
  using assms u32_range [of "sz sdiv 512"]
  by (auto simp: mbr_sector_def Let_def codec_simps split: if_splits)

lemma mbr_sector_Inl_iff:
  "(\<exists>e. mbr_sector sz pt = Inl e) \<longleftrightarrow> u32 (sz sdiv 512) \<le> 2048"
  by (auto simp: mbr_sector_def Let_def)

lemma writeMBR_ok:
  assumes "writeMBR path sz pt w = (None, w')"
  shows "\<exists>mbr img. mbr_sector sz pt = Inr mbr \<and> files w path = Some img \<and>
    w' = w\<lparr>files := (files w)(path \<mapsto> img_write 0 mbr img)\<rparr>"
  using assms
  by (auto simp: writeMBR_def dest!: sys_write_at_success
      split: sum.splits option.splits prod.splits)

lemma writeMBR_error_frame:
  assumes "writeMBR path sz pt w = (r, w')" and "q \<noteq> path"
  shows "files w' q = files w q"
  using assms
  by (auto simp: writeMBR_def dest: sys_write_at_other split: sum.splits option.splits prod.splits)

section \<open>What the GPT regions hold\<close>

lemma length_put_part_name [simp]:
  "length p = n \<Longrightarrow> 128 \<le> n \<Longrightarrow> length (put_part_name i rs p) = n"
  by (induction i rs p rule: put_part_name.induct) (auto simp: Let_def)

lemma chunk_put_part_name_below:
  "off + n \<le> 56 \<Longrightarrow> 128 \<le> length p \<Longrightarrow> chunk off n (put_part_name i rs p) = chunk off n p"
  by (induction i rs p rule: put_part_name.induct) (auto simp: Let_def codec_simps)

lemma chunk_put_part_name_above:
  "128 \<le> off \<Longrightarrow> 128 \<le> length p \<Longrightarrow> chunk off n (put_part_name i rs p) = chunk off n p"
  by (induction i rs p rule: put_part_name.induct) (auto simp: Let_def codec_simps)

lemma length_gpt_entries [simp]:
  "length t = 16 \<Longrightarrow> length g = 16 \<Longrightarrow> length (gpt_entries t g s e) = 16384"
  by (simp add: gpt_entries_def Let_def)

lemma gpt_entries_first:
  assumes "length t = 16" and "length g = 16"
  shows "chunk 0 16 (gpt_entries t g s e) = t"
    and "chunk 16 16 (gpt_entries t g s e) = g"
    and "chunk 32 8 (gpt_entries t g s e) = le_bytes 8 (u64 s)"
    and "chunk 40 8 (gpt_entries t g s e) = le_bytes 8 (u64 e)"
  using assms
  by (simp_all add: gpt_entries_def Let_def chunk_put_part_name_below codec_simps)

lemma gpt_entries_rest:
  assumes "length t = 16" and "length g = 16" and "128 \<le> off" and "off + n \<le> 16384"
  shows "chunk off n (gpt_entries t g s e) = replicate n 0"
  using assms
  by (simp add: gpt_entries_def Let_def chunk_put_part_name_above codec_simps)

lemma length_header_without_crc [simp]:
  "length g = 16 \<Longrightarrow> length (header_without_crc g fu lu ec c b es) = 512"
  by (simp add: header_without_crc_def Let_def)

lemma length_buildHeader [simp]:
  "length g = 16 \<Longrightarrow> length (buildHeader g fu lu ec c b es) = 512"
  by (simp add: buildHeader_def Let_def)

lemma header_without_crc_fields:
  fixes fu lu ec c b es :: int
  assumes "length g = 16"
  defines "h \<equiv> header_without_crc g fu lu ec c b es"
  shows "chunk 0 8 h = str_bytes ''EFI PART''"
    and "chunk 8 4 h = le_bytes 4 0x00010000"
    and "chunk 12 4 h = le_bytes 4 92"
    and "chunk 16 4 h = replicate 4 0"
    and "chunk 24 8 h = le_bytes 8 (u64 c)"
    and "chunk 32 8 h = le_bytes 8 (u64 b)"
    and "chunk 40 8 h = le_bytes 8 (u64 fu)"
    and "chunk 48 8 h = le_bytes 8 (u64 lu)"
    and "chunk 56 16 h = g"
    and "chunk 72 8 h = le_bytes 8 (u64 es)"
    and "chunk 80 4 h = le_bytes 4 128"
    and "chunk 84 4 h = le_bytes 4 128"
    and "chunk 88 4 h = le_bytes 4 ec"
  using assms(1) unfolding h_def
  by (simp_all add: header_without_crc_def Let_def codec_simps)

lemma buildHeader_fields:
  fixes fu lu ec c b es :: int
  assumes "length g = 16"
  defines "h \<equiv> buildHeader g fu lu ec c b es"
  shows "chunk 0 8 h = str_bytes ''EFI PART''"
    and "chunk 8 4 h = le_bytes 4 0x00010000"
    and "chunk 12 4 h = le_bytes 4 92"
    and "chunk 24 8 h = le_bytes 8 (u64 c)"
    and "chunk 32 8 h = le_bytes 8 (u64 b)"
    and "chunk 40 8 h = le_bytes 8 (u64 fu)"
    and "chunk 48 8 h = le_bytes 8 (u64 lu)"
    and "chunk 56 16 h = g"
    and "chunk 72 8 h = le_bytes 8 (u64 es)"
    and "chunk 80 4 h = le_bytes 4 128"
    and "chunk 84 4 h = le_bytes 4 128"
    and "chunk 88 4 h = le_bytes 4 ec"
  using assms(1) unfolding h_def
  by (simp_all add: buildHeader_def Let_def header_without_crc_fields codec_simps)

text \<open>The stored CRC is that of the header's 92 bytes with the CRC field zeroed.\<close>

lemma buildHeader_crc:
  fixes fu lu ec c b es :: int
  assumes "length g = 16"
  defines "h \<equiv> buildHeader g fu lu ec c b es"
  shows "le_val (chunk 16 4 h) = checksum_ieee (put 16 (replicate 4 0) (chunk 0 92 h))"
proof -
  let ?h0 = "header_without_crc g fu lu ec c b es"
  let ?crc = "le_bytes 4 (checksum_ieee (chunk 0 92 ?h0))"
  have h: "h = put 16 ?crc ?h0"
    by (simp add: h_def buildHeader_def Let_def)
  have zero: "replicate 4 0 = chunk 16 4 (chunk 0 92 ?h0)"
    using assms(1) by (simp add: chunk_chunk header_without_crc_fields)
  have "put 16 (replicate 4 0) (chunk 0 92 h) = put 16 (replicate 4 0) (put 16 ?crc (chunk 0 92 ?h0))"
    using assms(1) by (simp add: h chunk_0_put)
  also have "\<dots> = put 16 (replicate 4 0) (chunk 0 92 ?h0)"
    using assms(1) by (simp add: put_put_same)
  also have "\<dots> = chunk 0 92 ?h0"
    unfolding zero using assms(1) by (intro put_chunk_id) simp
  finally show ?thesis
    using assms(1) by (simp add: h codec_simps)
qed

lemma length_protective_mbr [simp]: "length (protective_mbr t) = 512"
  by (simp add: protective_mbr_def Let_def)

lemma protective_mbr_fields:
  "chunk 510 2 (protective_mbr t) = [0x55, 0xAA]"
  "chunk 454 4 (protective_mbr t) = le_bytes 4 1"
  "chunk 458 4 (protective_mbr t) = le_bytes 4 (u32 (t - 1))"
  using u32_range [of "t - 1"]
  by (simp_all add: protective_mbr_def Let_def codec_simps)

section \<open>GUIDs\<close>

lemma length_guid_wire [simp]: "length (guid_wire b) = length b"
  by (simp add: guid_wire_def swap_at_def Let_def)

lemma length_randomGUID: "length (fst (randomGUID w)) = 16"
  by (simp add: randomGUID_def rand_read_def Let_def)

lemma files_randomGUID: "files (snd (randomGUID w)) = files w"
  and fault_randomGUID: "fault (snd (randomGUID w)) = fault w"
  by (simp_all add: randomGUID_def rand_read_def Let_def)

section \<open>A valid GUID partition table\<close>

text \<open>
  The checks the UEFI specification asks of a GPT header at \<open>lba\<close>: signature, revision,
  size, the header's own CRC taken with its field zeroed, its own address, and the CRC of
  the entry array it points to. A table is valid when the primary header in block 1 and the
  backup header in the last block pass, point at each other, agree on the usable blocks and
  the disk GUID, have equal entry arrays, and the usable blocks lie between the arrays.
\<close>

definition gpt_header_valid :: "image \<Rightarrow> nat \<Rightarrow> bool" where
  "gpt_header_valid img lba =
     (let h = img_bytes img (lba * 512) 92;
          entryLBA = nat (le_val (chunk 72 8 h));
          tableSize = nat (le_val (chunk 80 4 h) * le_val (chunk 84 4 h))
      in chunk 0 8 h = str_bytes ''EFI PART'' \<and>
         le_val (chunk 8 4 h) = 0x00010000 \<and>
         le_val (chunk 12 4 h) = 92 \<and>
         le_val (chunk 16 4 h) = checksum_ieee (put 16 (replicate 4 0) h) \<and>
         le_val (chunk 24 8 h) = int lba \<and>
         le_val (chunk 88 4 h) = checksum_ieee (img_bytes img (entryLBA * 512) tableSize))"

definition gpt_valid :: "image \<Rightarrow> bool" where
  "gpt_valid img =
     (let t = isize img div 512;
          p = img_bytes img 512 92;
          b = img_bytes img ((t - 1) * 512) 92;
          first = le_val (chunk 40 8 p);
          last = le_val (chunk 48 8 p);
          pe = le_val (chunk 72 8 p);
          be = le_val (chunk 72 8 b)
      in gpt_header_valid img 1 \<and> gpt_header_valid img (t - 1) \<and>
         le_val (chunk 32 8 p) = int t - 1 \<and> le_val (chunk 32 8 b) = 1 \<and>
         chunk 40 32 p = chunk 40 32 b \<and>
         img_bytes img (nat pe * 512) 16384 = img_bytes img (nat be * 512) 16384 \<and>
         pe + 32 \<le> first \<and> first \<le> last \<and> last < be \<and> be + 32 = int t - 1)"

section \<open>The image after writeGPT\<close>

definition write_all :: "(int \<times> bytes) list \<Rightarrow> image \<Rightarrow> image" where
  "write_all rs img = foldl (\<lambda>im (off, bs). img_write (nat off) bs im) img rs"

lemma write_regions_ok:
  assumes "write_regions path rs w = (None, w')" and "files w path = Some img"
  shows "files w' = (files w)(path \<mapsto> write_all rs img) \<and> fault w' = fault w"
  using assms
proof (induction path rs w arbitrary: img rule: write_regions.induct)
  case (1 path w)
  then show ?case by (simp add: write_all_def map_upd_triv)
next
  case (2 path off data rs w)
  from "2.prems" obtain n w1 where step: "sys_write_at path data off w = ((n, None), w1)"
      and rest: "write_regions path rs w1 = (None, w')"
    by (auto split: prod.splits option.splits)
  from sys_write_at_success [OF step] "2.prems"(2)
  have w1: "w1 = w\<lparr>files := (files w)(path \<mapsto> img_write (nat off) data img)\<rparr>" by auto
  then have f1: "files w1 path = Some (img_write (nat off) data img)" by simp
  from "2.IH" [OF step [symmetric] refl refl rest f1] w1
  show ?case by (simp add: write_all_def fun_eq_iff)
qed

lemma write_regions_other:
  "write_regions path rs w = (r, w') \<Longrightarrow> q \<noteq> path \<Longrightarrow> files w' q = files w q"
proof (induction path rs w rule: write_regions.induct)
  case (1 path w)
  then show ?case by simp
next
  case (2 path off data rs w)
  obtain n e w1 where step: "sys_write_at path data off w = ((n, e), w1)"
    by (metis surj_pair)
  show ?case
  proof (cases e)
    case None
    with "2.IH" [OF step [symmetric] refl] step "2.prems" show ?thesis
      by (auto dest: sys_write_at_other)
  next
    case (Some err)
    with step "2.prems" show ?thesis by (auto dest: sys_write_at_other)
  qed
qed

lemma writeGPT_ok:
  assumes "writeGPT path sz t w = (None, w')" and "files w path = Some img"
  shows "\<exists>d g. length d = 16 \<and> length g = 16 \<and>
    files w' = (files w)(path \<mapsto> write_all (gpt_regions sz t d g) img) \<and> fault w' = fault w"
proof -
  obtain d w1 where d: "randomGUID w = (d, w1)" by (metis surj_pair)
  obtain g w2 where g: "randomGUID w1 = (g, w2)" by (metis surj_pair)
  have len: "length d = 16" "length g = 16"
    using length_randomGUID [of w] length_randomGUID [of w1] d g by simp_all
  have same: "files w2 = files w" "fault w2 = fault w"
    using files_randomGUID [of w] files_randomGUID [of w1]
      fault_randomGUID [of w] fault_randomGUID [of w1] d g by simp_all
  have "write_regions path (gpt_regions sz t d g) w2 = (None, w')"
    using assms(1) d g by (auto simp: writeGPT_def Let_def split: option.splits)
  from write_regions_ok [OF this] assms(2) same len show ?thesis by auto
qed

lemma writeGPT_other:
  assumes "writeGPT path sz t w = (r, w')" and "q \<noteq> path"
  shows "files w' q = files w q"
proof -
  obtain d w1 where d: "randomGUID w = (d, w1)" by (metis surj_pair)
  obtain g w2 where g: "randomGUID w1 = (g, w2)" by (metis surj_pair)
  have same: "files w2 = files w"
    using files_randomGUID [of w] files_randomGUID [of w1] d g by simp
  show ?thesis
    using assms d g same
    by (auto simp: writeGPT_def Let_def dest: write_regions_other split: option.splits)
qed

text \<open>
  The image with its five regions, for an image of \<open>n\<close> whole sectors: each region reads
  back as it was written, and the bytes between the two tables are untouched.
\<close>

lemma gpt_image_regions:
  fixes sz :: int and n :: nat and img :: image
  assumes n: "n = nat sz div 512" and big: "67 \<le> n" and sz: "0 \<le> sz" "sz < 2 ^ 63"
    and len: "length t = 16" "length d = 16" "length g = 16"
  defines "im \<equiv> write_all (gpt_regions sz t d g) img"
    and "e \<equiv> gpt_entries t g 2048 (int n - 34)"
  defines "hdr \<equiv> buildHeader d 2048 (int n - 34) (checksum_ieee e)"
  shows "img_bytes im 0 512 = protective_mbr (int n)"
    and "img_bytes im 512 512 = hdr 1 (int n - 1) 2"
    and "img_bytes im 1024 16384 = e"
    and "img_bytes im ((n - 33) * 512) 16384 = e"
    and "img_bytes im ((n - 1) * 512) 512 = hdr (int n - 1) 1 (int n - 33)"
    and "17408 \<le> off \<Longrightarrow> off + k \<le> (n - 33) * 512 \<Longrightarrow> img_bytes im off k = img_bytes img off k"
    and "isize im = max (isize img) (n * 512)"
proof -
  have q: "sz sdiv 512 = int n"
    using sz(1) n by (simp add: sdiv_pos zdiv_int)
  have offs: "nat ((int n - 33) * 512) = (n - 33) * 512" "nat ((int n - 1) * 512) = (n - 1) * 512"
    using big by (simp_all add: nat_mult_distrib of_nat_diff [symmetric])
  have im: "im = img_write ((n - 1) * 512) (hdr (int n - 1) 1 (int n - 33))
      (img_write ((n - 33) * 512) e (img_write 1024 e
        (img_write 512 (hdr 1 (int n - 1) 2) (img_write 0 (protective_mbr (int n)) img))))"
    unfolding im_def write_all_def gpt_regions_def Let_def e_def hdr_def
    using offs by (simp add: q)
  have lens: "length e = 16384" "length (hdr a b c) = 512" for a b c
    using len by (simp_all add: e_def hdr_def)
  have ne: "e \<noteq> []" "hdr a b c \<noteq> []" "protective_mbr (int n) \<noteq> []" for a b c
    using lens length_protective_mbr [of "int n"] by (metis list.size(3) zero_neq_numeral)+
  have sep: "17408 \<le> (n - 33) * 512" "(n - 33) * 512 + 16384 = (n - 1) * 512"
    "(n - 1) * 512 + 512 = n * 512"
    using big by (simp_all add: diff_mult_distrib)
  show "img_bytes im 0 512 = protective_mbr (int n)"
    and "img_bytes im 512 512 = hdr 1 (int n - 1) 2"
    and "img_bytes im 1024 16384 = e"
    and "img_bytes im ((n - 33) * 512) 16384 = e"
    and "img_bytes im ((n - 1) * 512) 512 = hdr (int n - 1) 1 (int n - 33)"
    and "17408 \<le> off \<Longrightarrow> off + k \<le> (n - 33) * 512 \<Longrightarrow> img_bytes im off k = img_bytes img off k"
    using sep lens unfolding im by (simp_all add: image_simps)
  show "isize im = max (isize img) (n * 512)"
    using sep lens ne big unfolding im by (simp add: max_def)
qed

lemma header_on_disk:
  "img_bytes im off 512 = h \<Longrightarrow> img_bytes im off 92 = chunk 0 92 h"
  using chunk_img_bytes [of 0 92 512 im off] by auto

lemma buildHeader_valid:
  assumes "img_bytes im (lba * 512) 512 = buildHeader d fu lu (checksum_ieee e) (int lba) b es"
    and "length d = 16" and "int lba < 2 ^ 64" and "0 \<le> es" and "es < 2 ^ 64"
    and "img_bytes im (nat es * 512) 16384 = e"
  shows "gpt_header_valid im lba"
  using assms buildHeader_crc [OF assms(2)] header_on_disk [OF assms(1)]
  by (simp add: gpt_header_valid_def Let_def chunk_chunk buildHeader_fields)

text \<open>
  An image of \<open>n\<close> whole sectors that carries the five regions; it stays so under any write
  between the two tables.
\<close>

definition gpt_laid_out :: "nat \<Rightarrow> bytes \<Rightarrow> bytes \<Rightarrow> bytes \<Rightarrow> image \<Rightarrow> bool" where
  "gpt_laid_out n t d g im \<longleftrightarrow>
     (let e = gpt_entries t g 2048 (int n - 34);
          hdr = buildHeader d 2048 (int n - 34) (checksum_ieee e)
      in length t = 16 \<and> length d = 16 \<and> length g = 16 \<and>
         n * 512 \<le> isize im \<and> isize im div 512 = n \<and>
         img_bytes im 0 512 = protective_mbr (int n) \<and>
         img_bytes im 512 512 = hdr 1 (int n - 1) 2 \<and>
         img_bytes im 1024 16384 = e \<and>
         img_bytes im ((n - 33) * 512) 16384 = e \<and>
         img_bytes im ((n - 1) * 512) 512 = hdr (int n - 1) 1 (int n - 33))"

lemma gpt_laid_out_write_all:
  fixes sz :: int and n :: nat and img :: image
  assumes n: "n = nat sz div 512" and big: "67 \<le> n" and sz: "0 \<le> sz" "sz < 2 ^ 63"
    and len: "length t = 16" "length d = 16" "length g = 16"
    and size: "int (isize img) = sz"
  shows "gpt_laid_out n t d g (write_all (gpt_regions sz t d g) img)"
proof -
  note R = gpt_image_regions [OF n big sz len, where img = img]
  have "n * 512 \<le> isize img" "isize img div 512 = n" using n size by auto
  then show ?thesis using R(1-5,7) len by (simp add: gpt_laid_out_def Let_def max_def)
qed

lemma gpt_laid_out_write:
  assumes "gpt_laid_out n t d g im" and "17408 \<le> off" and "off + length bs \<le> (n - 33) * 512"
  shows "gpt_laid_out n t d g (img_write off bs im)"
proof -
  have "(n - 33) * 512 \<le> (n - 1) * 512" "(n - 33) * 512 \<le> n * 512" by simp_all
  with assms have "off + length bs \<le> (n - 1) * 512" "off + length bs \<le> isize im"
    by (auto simp: gpt_laid_out_def Let_def)
  with assms show ?thesis
    by (auto simp: gpt_laid_out_def Let_def image_simps max_def)
qed

lemma gpt_laid_out_valid:
  assumes lay: "gpt_laid_out n t d g im" and big: "2082 \<le> n" and small: "int n < 2 ^ 63"
  shows "gpt_valid im"
proof -
  let ?e = "gpt_entries t g 2048 (int n - 34)"
  let ?hdr = "buildHeader d 2048 (int n - 34) (checksum_ieee ?e)"
  have len: "length t = 16" "length d = 16" "length g = 16" and isz: "isize im div 512 = n"
    and R: "img_bytes im 512 512 = ?hdr 1 (int n - 1) 2" "img_bytes im 1024 16384 = ?e"
      "img_bytes im ((n - 33) * 512) 16384 = ?e"
      "img_bytes im ((n - 1) * 512) 512 = ?hdr (int n - 1) 1 (int n - 33)"
    using lay by (simp_all add: gpt_laid_out_def Let_def)
  have eo: "nat (int n - 33) * 512 = (n - 33) * 512" using big by (simp add: of_nat_diff [symmetric])
  have v1: "gpt_header_valid im 1"
    by (rule buildHeader_valid [where d = d and fu = 2048 and lu = "int n - 34" and b = "int n - 1"
          and es = 2 and e = ?e]) (use R(1,2) len(2) in simp_all)
  have v2: "gpt_header_valid im (n - 1)"
    by (rule buildHeader_valid [where d = d and fu = 2048 and lu = "int n - 34" and b = 1
          and es = "int n - 33" and e = ?e])
      (use R(3,4) len(2) small big eo in \<open>simp_all add: of_nat_diff\<close>)
  note hp = header_on_disk [OF R(1)] and hb = header_on_disk [OF R(4)]
  have same: "chunk 40 32 (img_bytes im 512 92) = chunk 40 32 (img_bytes im ((n - 1) * 512) 92)"
  proof -
    have split: "chunk 40 32 xs = chunk 40 8 xs @ chunk 48 8 xs @ chunk 56 16 xs" for xs :: bytes
    proof -
      have "take 32 ys = take 8 ys @ take 8 (drop 8 ys) @ take 16 (drop 16 ys)" for ys :: bytes
        using take_add [of 8 24 ys] take_add [of 8 16 "drop 8 ys"] by simp
      from this [of "drop 40 xs"] show ?thesis by (simp add: chunk_def)
    qed
    show ?thesis
      unfolding hp hb split using len(2) by (simp add: chunk_chunk buildHeader_fields)
  qed
  show ?thesis
    unfolding gpt_valid_def Let_def isz hp hb
    using v1 v2 same [unfolded hp hb] len(2) small big R(2,3) eo
    by (simp add: chunk_chunk buildHeader_fields)
qed

end
