(* ===== verification/Detect.thy ===== *)
theory Detect
  imports Image_Types Partitions
begin

text \<open>
  detect.go: which file system an image holds, and where a partition starts. The parsers
  run on any reader; the lemmas about them are proved once for every reader that keeps the
  \<open>reader_at\<close> contract.
\<close>

section \<open>Probing for a file system\<close>

text \<open>\<open>if _, err := r.ReadAt(buf[:], off); err == nil\<close> and a test of the buffer.\<close>

definition read_is :: "reader \<Rightarrow> int \<Rightarrow> nat \<Rightarrow> (bytes \<Rightarrow> bool) \<Rightarrow> bool" where
  "read_is r off n test =
     (case r off n of (bs, None) \<Rightarrow> test bs | (bs, Some e) \<Rightarrow> False)"

definition zfsUberblockRingOffset :: int where [simp]: "zfsUberblockRingOffset = 128 * 1024"
definition zfsUberblockRingSize :: int where [simp]: "zfsUberblockRingSize = 128 * 1024"
definition zfsUberblockSlotSize :: int where [simp]: "zfsUberblockSlotSize = 4096"
definition zfsUberblockMagic :: int where [simp]: "zfsUberblockMagic = 0x00bab10c"

text \<open>The loop over the slots of the uberblock ring, which ends at the first failing read.\<close>

function zfs_scan :: "reader \<Rightarrow> int \<Rightarrow> int \<Rightarrow> bool" where
  "zfs_scan r fsOff off =
     (if off < zfsUberblockRingSize then
        (case r (i64 (fsOff + zfsUberblockRingOffset + off)) 8 of
           (slot, Some e) \<Rightarrow> False
         | (slot, None) \<Rightarrow>
             if le_val slot = zfsUberblockMagic \<or> be_val slot = zfsUberblockMagic then True
             else zfs_scan r fsOff (off + zfsUberblockSlotSize))
      else False)"
  by pat_completeness auto
termination
  by (relation "measure (\<lambda>(r, fsOff, off). nat (zfsUberblockRingSize - off))") auto

declare zfs_scan.simps [simp del]

definition detectZFSUberblock :: "reader \<Rightarrow> int \<Rightarrow> bool" where
  "detectZFSUberblock r fsOff = zfs_scan r fsOff 0"

definition probeFilesystem :: "reader \<Rightarrow> int \<Rightarrow> error + FilesystemType" where
  "probeFilesystem r fsOff =
     (if read_is r fsOff 8 (\<lambda>b. bytes_str b = ''NTFSIMG1'') then Inr FSNTFS
      else if read_is r (i64 (fsOff + 32)) 4 (\<lambda>b. bytes_str b = ''NXSB'') then Inr FSApfs
      else if read_is r (i64 (fsOff + 3)) 8 (\<lambda>b. bytes_str b = ''EXFAT   '') then Inr FSExFAT
      else if read_is r fsOff 4 (\<lambda>b. be_val b = 0x58465342) then Inr FSXfs
      else if read_is r (i64 (fsOff + 1080)) 2 (\<lambda>b. le_val b = 0xEF53) then Inr FSExt4
      else if read_is r (i64 (fsOff + 510)) 2 (\<lambda>b. b ! 0 = 0x55 \<and> b ! 1 = 0xAA) \<and>
              read_is r (i64 (fsOff + 82)) 8 (\<lambda>b. bytes_str b = ''FAT32   '') then Inr FSFat32
      else if read_is r (i64 (fsOff + 0x10040)) 8 (\<lambda>b. le_val b = 0x4D5F53665248425F)
           then Inr FSBtrfs
      else if detectZFSUberblock r fsOff then Inr FSZfs
      else Inl (Msg ''unknown filesystem''))"

section \<open>Locating a partition\<close>

definition detectSectorSize :: int where [simp]: "detectSectorSize = 512"

function gpt_search ::
    "reader \<Rightarrow> int \<Rightarrow> int \<Rightarrow> int \<Rightarrow> int \<Rightarrow> int \<Rightarrow> error + int" where
  "gpt_search r partIndex tableOff entrySize numParts i =
     (if i < numParts then
        (case r (i64 (tableOff + i64 (i * entrySize))) (nat entrySize) of
           (buf, Some e) \<Rightarrow> Inl (Msg ''GPT partition index not found'')
         | (buf, None) \<Rightarrow>
             if chunk 0 16 buf = replicate 16 0 then
               gpt_search r partIndex tableOff entrySize numParts (i + 1)
             else if i = partIndex then
               Inr (i64 (i64 (le_val (chunk 32 8 buf)) * detectSectorSize))
             else gpt_search r partIndex tableOff entrySize numParts (i + 1))
      else Inl (Msg ''GPT partition index not found''))"
  by pat_completeness auto
termination
  by (relation "measure (\<lambda>(r, p, t, e, n, i). nat (n - i))") auto

declare gpt_search.simps [simp del]

definition detectGPTOffset :: "reader \<Rightarrow> int \<Rightarrow> error + int" where
  "detectGPTOffset r partIndex =
     (case r 512 92 of
        (hdr, Some e) \<Rightarrow> Inl (Wrap ''read GPT header'' e)
      | (hdr, None) \<Rightarrow>
          (let partEntryLBA = le_val (chunk 72 8 hdr);
               numParts = le_val (chunk 80 4 hdr);
               entrySize = le_val (chunk 84 4 hdr)
           in if entrySize < 128 then Inl (Msg ''unexpected GPT entry size'')
              else gpt_search r partIndex (i64 (i64 partEntryLBA * detectSectorSize))
                     entrySize numParts 0))"

function mbr_search :: "bytes \<Rightarrow> int \<Rightarrow> nat \<Rightarrow> error + int" where
  "mbr_search table partIndex i =
     (if i < 4 then
        (let startLBA = le_val (chunk (i * 16 + 8) 4 table)
         in if startLBA = 0 then mbr_search table partIndex (i + 1)
            else if int i = partIndex then Inr (startLBA * detectSectorSize)
            else mbr_search table partIndex (i + 1))
      else Inl (Msg ''MBR partition index not found''))"
  by pat_completeness auto
termination
  by (relation "measure (\<lambda>(t, p, i). 4 - i)") auto

declare mbr_search.simps [simp del]

definition detectMBROffset :: "reader \<Rightarrow> int \<Rightarrow> error + int" where
  "detectMBROffset r partIndex =
     (case r 446 64 of
        (table, Some e) \<Rightarrow> Inl (Wrap ''read MBR table'' e)
      | (table, None) \<Rightarrow> mbr_search table partIndex 0)"

definition detectPartOffset :: "reader \<Rightarrow> int \<Rightarrow> error + int" where
  "detectPartOffset r partIndex =
     (if read_is r 512 8 (\<lambda>b. bytes_str b = ''EFI PART'') then detectGPTOffset r partIndex
      else if read_is r 510 2 (\<lambda>b. b ! 0 = 0x55 \<and> b ! 1 = 0xAA) then
        (case detectMBROffset r partIndex of
           Inr off \<Rightarrow> if off > 0 then Inr off else Inr 0
         | Inl e \<Rightarrow> Inr 0)
      else Inr 0)"

section \<open>DetectFilesystem\<close>

definition detect_on_open_file :: "string \<Rightarrow> int \<Rightarrow> world \<Rightarrow> error + FilesystemType" where
  "detect_on_open_file path partIndex w =
     (let f = sys_read_at path w
      in case detectPartOffset f partIndex of
           Inl e \<Rightarrow> Inl (Wrap ''detect filesystem'' e)
         | Inr fsOff \<Rightarrow> probeFilesystem f fsOff)"

definition detectFilesystemInUDIF ::
    "dmg_lib \<Rightarrow> string \<Rightarrow> int \<Rightarrow> world \<Rightarrow> (error + FilesystemType) \<times> world" where
  "detectFilesystemInUDIF dmg imagePath partIndex w =
     (case unpackToTemp dmg imagePath w of
        (Inl e, w1) \<Rightarrow> (Inl (Wrap ''detect filesystem: unpack udif'' e), w1)
      | (Inr tmp, w1) \<Rightarrow>
          (case sys_open tmp w1 of
             Some e \<Rightarrow> (Inl (Wrap ''detect filesystem: open udif payload'' e),
                        snd (sys_remove tmp w1))
           | None \<Rightarrow> (detect_on_open_file tmp partIndex w1, snd (sys_remove tmp w1))))"

definition DetectFilesystem ::
    "dmg_lib \<Rightarrow> string \<Rightarrow> int \<Rightarrow> world \<Rightarrow> (error + FilesystemType) \<times> world" where
  "DetectFilesystem dmg imagePath partIndex w =
     (if isUDIF dmg imagePath w then detectFilesystemInUDIF dmg imagePath partIndex w
      else case sys_open imagePath w of
             Some e \<Rightarrow> (Inl (Wrap ''detect filesystem'' e), w)
           | None \<Rightarrow> (detect_on_open_file imagePath partIndex w, w))"

section \<open>Magic numbers as bytes\<close>

text \<open>
  The specification of the probe: where each file system keeps its magic, as bytes of the
  image, in the order of precedence. A magic counts only when all of it lies in the image.
\<close>

definition bytes_at :: "image \<Rightarrow> nat \<Rightarrow> bytes \<Rightarrow> bool" where
  "bytes_at img off bs \<longleftrightarrow> off + length bs \<le> isize img \<and> img_bytes img off (length bs) = bs"

definition zfs_slot :: "image \<Rightarrow> nat \<Rightarrow> nat \<Rightarrow> bool" where
  "zfs_slot img off k \<longleftrightarrow>
     bytes_at img (off + 131072 + 4096 * k) [0x0c, 0xb1, 0xba, 0, 0, 0, 0, 0] \<or>
     bytes_at img (off + 131072 + 4096 * k) [0, 0, 0, 0, 0, 0xba, 0xb1, 0x0c]"

definition fs_magics :: "image \<Rightarrow> nat \<Rightarrow> (FilesystemType \<times> bool) list" where
  "fs_magics img off =
     [(FSNTFS, bytes_at img off (str_bytes ''NTFSIMG1'')),
      (FSApfs, bytes_at img (off + 32) (str_bytes ''NXSB'')),
      (FSExFAT, bytes_at img (off + 3) (str_bytes ''EXFAT   '')),
      (FSXfs, bytes_at img off (str_bytes ''XFSB'')),
      (FSExt4, bytes_at img (off + 1080) [0x53, 0xEF]),
      (FSFat32, bytes_at img (off + 510) [0x55, 0xAA] \<and>
                bytes_at img (off + 82) (str_bytes ''FAT32   '')),
      (FSBtrfs, bytes_at img (off + 65600) (str_bytes ''_BHRfS_M'')),
      (FSZfs, list_ex (zfs_slot img off) [0..<32])]"

definition find_magic :: "image \<Rightarrow> nat \<Rightarrow> FilesystemType option" where
  "find_magic img off = map_option fst (find snd (fs_magics img off))"

lemma bytes_at_iff:
  "length bs = n \<Longrightarrow> bytes_at img off bs \<longleftrightarrow> off + n \<le> isize img \<and> img_bytes img off n = bs"
  by (auto simp: bytes_at_def)

lemma le_val_eq_iff:
  assumes "length b = n" and "0 \<le> v" and "v < 256 ^ n"
  shows "le_val b = v \<longleftrightarrow> b = le_bytes n v"
  using le_bytes_le_val [OF assms(1)] le_val_le_bytes [of n v] assms(2,3) by auto

lemma be_val_eq_iff:
  assumes "length b = n" and "0 \<le> v" and "v < 256 ^ n"
  shows "be_val b = v \<longleftrightarrow> b = be_bytes n v"
  using le_val_eq_iff [of "rev b" n v] assms by (simp add: be_val_def be_bytes_def rev_swap)

lemma magic_constants:
  "be_bytes 4 0x58465342 = str_bytes ''XFSB''"
  "le_bytes 2 0xEF53 = [0x53, 0xEF]"
  "le_bytes 8 0x4D5F53665248425F = str_bytes ''_BHRfS_M''"
  "le_bytes 8 0x00bab10c = [0x0c, 0xb1, 0xba, 0, 0, 0, 0, 0]"
  "be_bytes 8 0x00bab10c = [0, 0, 0, 0, 0, 0xba, 0xb1, 0x0c]"
  by (simp_all add: be_bytes_def le_bytes_numeral str_bytes_def byte_of_def)

lemma find_magic_cong:
  assumes "off + 262144 \<le> isize img" and "off' + 262144 \<le> isize img'"
    and "\<And>i. i < 262144 \<Longrightarrow> icont img (off + i) = icont img' (off' + i)"
  shows "find_magic img off = find_magic img' off'"
proof -
  have at: "bytes_at img (off + k) bs = bytes_at img' (off' + k) bs"
    if "k + length bs \<le> 262144" for k bs
  proof -
    have "icont img (off + k + i) = icont img' (off' + k + i)" if "i < length bs" for i
      using assms(3) [of "k + i"] that \<open>k + length bs \<le> 262144\<close> by (simp add: add.assoc)
    then have "img_bytes img (off + k) (length bs) = img_bytes img' (off' + k) (length bs)"
      by (intro nth_equalityI) simp_all
    then show ?thesis using assms(1,2) that by (simp add: bytes_at_def)
  qed
  have "zfs_slot img off k = zfs_slot img' off' k" if "k < 32" for k
    using at [of "131072 + 4096 * k"] that by (simp add: zfs_slot_def add.assoc)
  then have z: "list_ex (zfs_slot img off) [0..<32] = list_ex (zfs_slot img' off') [0..<32]"
    by (auto simp: list_ex_iff)
  have "fs_magics img off = fs_magics img' off'"
    using at [of 0] by (simp add: fs_magics_def at z)
  then show ?thesis by (simp add: find_magic_def)
qed

section \<open>The probe on a reader is the search for a magic on its bytes\<close>

context reader_at begin

lemma read_is_iff:
  "0 < n \<Longrightarrow> read_is rd off n P \<longleftrightarrow>
     0 \<le> off \<and> nat off + n \<le> vlen \<and> P (img_bytes \<lparr>isize = vlen, icont = view\<rparr> (nat off) n)"
  using rd_ok_iff [of n off] rd_inside [of off n]
  by (auto simp: read_is_def img_bytes_def split: prod.splits option.splits)

lemma read_is_bytes:
  assumes "length bs = n" and "0 < n" and "\<And>b. length b = n \<Longrightarrow> P b \<longleftrightarrow> b = bs"
  shows "read_is rd (int off) n P \<longleftrightarrow> bytes_at \<lparr>isize = vlen, icont = view\<rparr> off bs"
  using assms by (auto simp: read_is_iff bytes_at_def)

lemma zfs_scan_iff:
  assumes "off < 2 ^ 62"
  shows "zfs_scan rd (int off) (4096 * int k) \<longleftrightarrow>
    (\<exists>j. k \<le> j \<and> j < 32 \<and> zfs_slot \<lparr>isize = vlen, icont = view\<rparr> off j)"
proof (induction "32 - k" arbitrary: k)
  case 0
  then show ?case by (simp add: zfs_scan.simps)
next
  case (Suc d)
  let ?img = "\<lparr>isize = vlen, icont = view\<rparr>"
  let ?a = "off + 131072 + 4096 * k"
  have k: "k < 32" using Suc(2) by simp
  have a: "i64 (int off + zfsUberblockRingOffset + 4096 * int k) = int ?a"
    using assms k by simp
  have IH: "zfs_scan rd (int off) (4096 * int k + 4096) \<longleftrightarrow>
      (\<exists>j. Suc k \<le> j \<and> j < 32 \<and> zfs_slot ?img off j)"
    using Suc(1) [of "Suc k"] Suc(2) by (simp add: algebra_simps)
  show ?case
  proof (cases "?a + 8 \<le> vlen")
    case True
    have r: "rd (i64 (int off + zfsUberblockRingOffset + 4096 * int k)) 8 = (img_bytes ?img ?a 8, None)"
      unfolding a using rd_at_nat [OF _ True] by (simp add: img_bytes_def)
    have m: "le_val (img_bytes ?img ?a 8) = 0x00bab10c \<or> be_val (img_bytes ?img ?a 8) = 0x00bab10c
        \<longleftrightarrow> zfs_slot ?img off k"
      using True by (simp add: le_val_eq_iff [where n = 8] be_val_eq_iff [where n = 8]
          magic_constants zfs_slot_def bytes_at_iff [where n = 8])
    have step: "zfs_scan rd (int off) (4096 * int k) \<longleftrightarrow>
        zfs_slot ?img off k \<or> zfs_scan rd (int off) (4096 * int k + 4096)"
      unfolding zfs_scan.simps [of rd "int off" "4096 * int k"] r prod.case option.case
      using k m by simp
    show ?thesis
      unfolding step IH ex_ge_split [of k "\<lambda>j. j < 32 \<and> zfs_slot ?img off j"] using k by simp
  next
    case False
    have "snd (rd (i64 (int off + zfsUberblockRingOffset + 4096 * int k)) 8) \<noteq> None"
      unfolding a using False by (intro rd_outside) auto
    then have no: "\<not> zfs_scan rd (int off) (4096 * int k)"
      unfolding zfs_scan.simps [of rd "int off" "4096 * int k"]
      by (auto split: prod.splits option.splits)
    have "\<not> zfs_slot ?img off j" if "k \<le> j" for j
    proof -
      have "4096 * k \<le> 4096 * j" using that by simp
      then show ?thesis using False by (simp add: zfs_slot_def bytes_at_def)
    qed
    with no show ?thesis by auto
  qed
qed

lemma probe_eq_find_magic:
  assumes "off < 2 ^ 62"
  shows "probeFilesystem rd (int off) =
    (case find_magic \<lparr>isize = vlen, icont = view\<rparr> off of
       Some fs \<Rightarrow> Inr fs | None \<Rightarrow> Inl (Msg ''unknown filesystem''))"
proof -
  let ?img = "\<lparr>isize = vlen, icont = view\<rparr>"
  have w: "i64 (int off + 32) = int (off + 32)" "i64 (int off + 3) = int (off + 3)"
    "i64 (int off + 1080) = int (off + 1080)" "i64 (int off + 510) = int (off + 510)"
    "i64 (int off + 82) = int (off + 82)" "i64 (int off + 0x10040) = int (off + 65600)"
    using assms by simp_all
  have str: "read_is rd (int o') n (\<lambda>b. bytes_str b = s) \<longleftrightarrow> bytes_at ?img o' (str_bytes s)"
    if "n = length s" "0 < length s" for o' n s
    using read_is_bytes [of "str_bytes s" n "\<lambda>b. bytes_str b = s" o'] that
    by (simp add: bytes_str_eq_iff)
  have xfs: "read_is rd (int off) 4 (\<lambda>b. be_val b = 0x58465342) \<longleftrightarrow>
      bytes_at ?img off (str_bytes ''XFSB'')"
    using read_is_bytes [of "str_bytes ''XFSB''" 4 "\<lambda>b. be_val b = 0x58465342" off]
    by (simp add: be_val_eq_iff [where n = 4] magic_constants)
  have ext4: "read_is rd (int o') 2 (\<lambda>b. le_val b = 0xEF53) \<longleftrightarrow> bytes_at ?img o' [0x53, 0xEF]"
    for o'
    using read_is_bytes [of "[0x53, 0xEF]" 2 "\<lambda>b. le_val b = 0xEF53" o']
    by (simp add: le_val_eq_iff [where n = 2] magic_constants)
  have boot: "read_is rd (int o') 2 (\<lambda>b. b ! 0 = 0x55 \<and> b ! 1 = 0xAA) \<longleftrightarrow>
      bytes_at ?img o' [0x55, 0xAA]" for o'
  proof -
    have "length b = 2 \<Longrightarrow> b ! 0 = 0x55 \<and> b ! 1 = 0xAA \<longleftrightarrow> b = [0x55, 0xAA]" for b :: bytes
      by (cases b; cases "tl b") auto
    then show ?thesis
      using read_is_bytes [of "[0x55, 0xAA]" 2 "\<lambda>b. b ! 0 = 0x55 \<and> b ! 1 = 0xAA" o'] by simp
  qed
  have btrfs: "read_is rd (int o') 8 (\<lambda>b. le_val b = 0x4D5F53665248425F) \<longleftrightarrow>
      bytes_at ?img o' (str_bytes ''_BHRfS_M'')" for o'
    using read_is_bytes [of "str_bytes ''_BHRfS_M''" 8 "\<lambda>b. le_val b = 0x4D5F53665248425F" o']
    by (simp add: le_val_eq_iff [where n = 8] magic_constants)
  have zfs: "detectZFSUberblock rd (int off) \<longleftrightarrow> list_ex (zfs_slot ?img off) [0..<32]"
    using zfs_scan_iff [OF assms, of 0] by (auto simp: detectZFSUberblock_def list_ex_iff)
  show ?thesis
    unfolding probeFilesystem_def find_magic_def fs_magics_def w xfs ext4 boot btrfs zfs
      str [of 8 "''NTFSIMG1''", simplified] str [of 4 "''NXSB''", simplified]
      str [of 8 "''EXFAT   ''", simplified] str [of 8 "''FAT32   ''", simplified]
    by simp
qed

end

section \<open>The searches through the partition tables\<close>

definition gpt_entry_off :: "int \<Rightarrow> int \<Rightarrow> int \<Rightarrow> int" where
  "gpt_entry_off tableOff entrySize i = i64 (tableOff + i64 (i * entrySize))"

text \<open>A hit of the search is at the index asked for, in an entry with a type.\<close>

lemma gpt_search_Inr:
  "gpt_search r p t e n i = Inr off \<Longrightarrow>
   i \<le> p \<and> p < n \<and> (\<exists>buf. r (gpt_entry_off t e p) (nat e) = (buf, None) \<and>
     chunk 0 16 buf \<noteq> replicate 16 0 \<and> off = i64 (i64 (le_val (chunk 32 8 buf)) * 512))"
proof (induction r p t e n i rule: gpt_search.induct)
  case (1 r p t e n i)
  show ?case
  proof (cases "i < n")
    case True
    obtain buf er where rd: "r (i64 (t + i64 (i * e))) (nat e) = (buf, er)" by force
    show ?thesis
    proof (cases er)
      case None
      show ?thesis
      proof (cases "chunk 0 16 buf \<noteq> replicate 16 0 \<and> i = p")
        case hit: True
        with "1.prems" True rd None show ?thesis
          by (simp add: gpt_search.simps [of r p t e n p] gpt_entry_off_def)
      next
        case False
        with True rd None have "gpt_search r p t e n i = gpt_search r p t e n (i + 1)"
          by (subst gpt_search.simps) auto
        with "1.prems" have "gpt_search r p t e n (i + 1) = Inr off" by simp
        then have "i + 1 \<le> p \<and> p < n \<and> (\<exists>buf. r (gpt_entry_off t e p) (nat e) = (buf, None) \<and>
            chunk 0 16 buf \<noteq> replicate 16 0 \<and> off = i64 (i64 (le_val (chunk 32 8 buf)) * 512))"
          using "1.IH" [OF True rd [symmetric] None] False
          by (cases "chunk 0 16 buf = replicate 16 0") simp_all
        then show ?thesis by (intro conjI) (linarith, simp_all)
      qed
    next
      case (Some err)
      with "1.prems" True rd show ?thesis by (simp add: gpt_search.simps [of r p t e n i])
    qed
  next
    case False
    with "1.prems" show ?thesis by (simp add: gpt_search.simps [of r p t e n i])
  qed
qed

lemma gpt_search_Inl:
  "gpt_search r p t e n i = Inl err \<Longrightarrow> err = Msg ''GPT partition index not found''"
proof (induction r p t e n i rule: gpt_search.induct)
  case (1 r p t e n i)
  show ?case
  proof (cases "i < n")
    case True
    obtain buf er where rd: "r (i64 (t + i64 (i * e))) (nat e) = (buf, er)" by force
    with "1.IH"(1,2) [OF True rd [symmetric]] "1.prems" True show ?thesis
      by (cases er) (auto simp: gpt_search.simps [of r p t e n i] split: if_splits)
  next
    case False
    with "1.prems" show ?thesis by (simp add: gpt_search.simps [of r p t e n i])
  qed
qed

text \<open>A readable entry with a type is found when the entries before it are readable.\<close>

lemma gpt_search_hit:
  assumes "i \<le> p" and "p < n"
    and "\<And>j. i \<le> j \<Longrightarrow> j < p \<Longrightarrow> snd (r (gpt_entry_off t e j) (nat e)) = None"
    and "r (gpt_entry_off t e p) (nat e) = (buf, None)" and "chunk 0 16 buf \<noteq> replicate 16 0"
  shows "gpt_search r p t e n i = Inr (i64 (i64 (le_val (chunk 32 8 buf)) * 512))"
  using assms(1,3)
proof (induction "nat (p - i)" arbitrary: i)
  case 0
  then have "i = p" by simp
  then show ?case
    using assms(2,4,5) by (simp add: gpt_search.simps [of r p t e n p] gpt_entry_off_def)
next
  case (Suc d)
  then have lt: "i < p" by simp
  have IH: "gpt_search r p t e n (i + 1) = Inr (i64 (i64 (le_val (chunk 32 8 buf)) * 512))"
    using Suc lt by (intro Suc.hyps(1)) auto
  obtain b where b: "r (gpt_entry_off t e i) (nat e) = (b, None)"
    using Suc.prems(2) [of i] lt by (metis order_refl prod.collapse)
  show ?case
    using lt assms(2) b IH by (simp add: gpt_search.simps [of r p t e n i] gpt_entry_off_def)
qed

lemma mbr_search_Inr:
  "mbr_search tb p i = Inr off \<Longrightarrow>
   int i \<le> p \<and> p < 4 \<and> 0 < off \<and> off = le_val (chunk (nat p * 16 + 8) 4 tb) * 512"
proof (induction tb p i rule: mbr_search.induct)
  case (1 tb p i)
  show ?case
  proof (cases "i < 4")
    case True
    show ?thesis
    proof (cases "le_val (chunk (i * 16 + 8) 4 tb) \<noteq> 0 \<and> int i = p")
      case hit: True
      then have "le_val (chunk (i * 16 + 8) 4 tb) \<noteq> 0" ..
      moreover have "0 \<le> le_val (chunk (i * 16 + 8) 4 tb)" by simp
      ultimately have "0 < le_val (chunk (i * 16 + 8) 4 tb)" by linarith
      then show ?thesis
        using "1.prems" True hit by (auto simp: mbr_search.simps [of tb p i] Let_def)
    next
      case False
      with "1.prems" True have "mbr_search tb p (i + 1) = Inr off"
        by (auto simp: mbr_search.simps [of tb p i] Let_def split: if_splits)
      with "1.IH" [OF True refl] False show ?thesis by fastforce
    qed
  next
    case False
    with "1.prems" show ?thesis by (simp add: mbr_search.simps [of tb p i])
  qed
qed

lemma mbr_search_hit:
  assumes "i \<le> p" and "p < 4" and "le_val (chunk (p * 16 + 8) 4 tb) \<noteq> 0"
  shows "mbr_search tb (int p) i = Inr (le_val (chunk (p * 16 + 8) 4 tb) * 512)"
  using assms(1)
proof (induction "p - i" arbitrary: i)
  case 0
  then have "i = p" by simp
  then show ?case using assms(2,3) by (simp add: mbr_search.simps [of tb "int p" p] Let_def)
next
  case (Suc d)
  then have "i < p" and "mbr_search tb (int p) (i + 1) = Inr (le_val (chunk (p * 16 + 8) 4 tb) * 512)"
    by simp_all
  then show ?case using assms(2) by (simp add: mbr_search.simps [of tb _ i] Let_def)
qed

section \<open>Partition offsets of the tables this repository writes\<close>

text \<open>Reading an image through its own reader.\<close>

lemma img_read_inside:
  "off + n \<le> isize img \<Longrightarrow> img_read img (int off) n = (img_bytes img off n, None)"
  by (simp add: img_read_def Let_def min_absorb1)

lemma read_is_img:
  "0 < n \<Longrightarrow> off + n \<le> isize img \<Longrightarrow>
   read_is (img_read img) (int off) n P \<longleftrightarrow> P (img_bytes img off n)"
  by (simp add: read_is_def img_read_inside)

lemma detectGPTOffset_written:
  assumes lay: "gpt_laid_out n t d g im" and big: "67 \<le> n" and type: "t \<noteq> replicate 16 0"
  shows "detectPartOffset (img_read im) p =
    (if p = 0 then Inr 1048576 else Inl (Msg ''GPT partition index not found''))"
proof -
  let ?e = "gpt_entries t g 2048 (int n - 34)"
  let ?h = "img_bytes im 512 92"
  have len: "length t = 16" "length d = 16" "length g = 16" and size: "n * 512 \<le> isize im"
    and R: "img_bytes im 512 512 = buildHeader d 2048 (int n - 34) (checksum_ieee ?e) 1 (int n - 1) 2"
      "img_bytes im 1024 16384 = ?e"
    using lay by (simp_all add: gpt_laid_out_def Let_def)
  have h: "?h = chunk 0 92 (buildHeader d 2048 (int n - 34) (checksum_ieee ?e) 1 (int n - 1) 2)"
    by (rule header_on_disk) (rule R(1))
  have sig: "read_is (img_read im) 512 8 (\<lambda>b. bytes_str b = ''EFI PART'')"
  proof -
    have "img_bytes im 512 8 = chunk 0 8 (img_bytes im 512 92)"
      by (simp add: chunk_img_bytes)
    then have "img_bytes im 512 8 = str_bytes ''EFI PART''"
      unfolding h using len(2) by (simp add: chunk_chunk buildHeader_fields)
    then show ?thesis using read_is_img [of 8 512 im] size big by simp
  qed
  have hd: "img_read im 512 92 = (?h, None)"
    using img_read_inside [of 512 92 im] size big by simp
  have fields: "le_val (chunk 72 8 ?h) = 2" "le_val (chunk 80 4 ?h) = 128" "le_val (chunk 84 4 ?h) = 128"
    unfolding h using len(2) by (simp_all add: chunk_chunk buildHeader_fields)
  have entry: "img_read im (gpt_entry_off 1024 128 j) 128 = (chunk (128 * nat j) 128 ?e, None)"
    if "0 \<le> j" "j < 128" for j
  proof -
    have "gpt_entry_off 1024 128 j = int (1024 + 128 * nat j)"
      using that by (simp add: gpt_entry_off_def)
    moreover have "img_bytes im (1024 + 128 * nat j) 128 = chunk (128 * nat j) 128 ?e"
      unfolding R(2) [symmetric] using that by (simp add: chunk_img_bytes)
    ultimately show ?thesis
      using img_read_inside [of "1024 + 128 * nat j" 128 im] size big that by simp
  qed
  have search: "detectPartOffset (img_read im) p = gpt_search (img_read im) p 1024 128 128 0"
    using sig by (simp add: detectPartOffset_def detectGPTOffset_def hd fields)
  show ?thesis
  proof (cases "p = 0")
    case True
    have "gpt_search (img_read im) 0 1024 128 128 0 =
        Inr (i64 (i64 (le_val (chunk 32 8 (chunk 0 128 ?e))) * 512))"
      by (rule gpt_search_hit)
        (use entry [of 0] type len in \<open>simp_all add: chunk_chunk gpt_entries_first\<close>)
    then show ?thesis
      using True search len by (simp add: chunk_chunk gpt_entries_first)
  next
    case False
    have "\<exists>err. gpt_search (img_read im) p 1024 128 128 0 = Inl err"
    proof (rule ccontr)
      assume "\<not> ?thesis"
      then obtain off where "gpt_search (img_read im) p 1024 128 128 0 = Inr off"
        by (meson obj_sumE)
      from gpt_search_Inr [OF this] entry [of p]
      have "0 \<le> p" "p < 128" "chunk 0 16 (chunk (128 * nat p) 128 ?e) \<noteq> replicate 16 0" by auto
      with False len show False by (simp add: chunk_chunk gpt_entries_rest chunk_replicate)
    qed
    then show ?thesis using False search gpt_search_Inl by fastforce
  qed
qed

lemma detectMBROffset_written:
  assumes mbr: "mbr_sector sz pt = Inr mbr" and on: "img_bytes im 0 512 = mbr"
    and size: "1024 \<le> isize im" and nogpt: "img_bytes im 512 8 \<noteq> str_bytes ''EFI PART''"
  shows "detectPartOffset (img_read im) p = Inr (if p = 0 then 1048576 else 0)"
proof -
  note F = mbr_sector_Inr [OF mbr]
  let ?tb = "img_bytes im 446 64"
  have sub: "img_bytes im off k = chunk off k mbr" if "off + k \<le> 512" for off k
    using chunk_img_bytes [OF that, of im 0] on by simp
  have nosig: "\<not> read_is (img_read im) 512 8 (\<lambda>b. bytes_str b = ''EFI PART'')"
    using read_is_img [of 8 512 im] size nogpt by (simp add: bytes_str_eq_iff)
  have boot: "read_is (img_read im) 510 2 (\<lambda>b. b ! 0 = 0x55 \<and> b ! 1 = 0xAA)"
    using read_is_img [of 2 510 im] size sub [of 510 2] F(7) by simp
  have rd: "img_read im 446 64 = (?tb, None)"
    using img_read_inside [of 446 64 im] size by simp
  have e0: "le_val (chunk 8 4 ?tb) = 2048"
    using sub [of 454 4] F(4) by (simp add: chunk_img_bytes)
  have rest: "le_val (chunk (k * 16 + 8) 4 ?tb) = 0" if "0 < k" "k < 4" for k
  proof -
    have "chunk (k * 16 + 8) 4 ?tb = chunk (454 + k * 16) 4 mbr"
      using that by (simp add: sub chunk_chunk)
    also have "\<dots> = chunk (k * 16 - 8) 4 (chunk 462 48 mbr)"
      using that by (simp add: chunk_chunk)
    finally show ?thesis using that by (simp add: F(6) chunk_replicate)
  qed
  have search: "detectPartOffset (img_read im) p =
      (case mbr_search ?tb p 0 of Inr off \<Rightarrow> if off > 0 then Inr off else Inr 0 | Inl e \<Rightarrow> Inr 0)"
    using nosig boot by (simp add: detectPartOffset_def detectMBROffset_def rd)
  show ?thesis
  proof (cases "p = 0")
    case True
    then show ?thesis using search e0 mbr_search_hit [of 0 0 ?tb] by simp
  next
    case False
    have "\<exists>err. mbr_search ?tb p 0 = Inl err"
    proof (rule ccontr)
      assume "\<not> ?thesis"
      then obtain off where "mbr_search ?tb p 0 = Inr off" by (meson obj_sumE)
      note hit = mbr_search_Inr [OF this]
      then have "0 < nat p" "nat p < 4" using False by auto
      with rest hit show False by simp
    qed
    then show ?thesis using False search by auto
  qed
qed

end
