(* ===== verification/Create_Image.thy ===== *)
theory Create_Image
  imports Detect
begin

text \<open>
  create.go: the creation of an image. \<open>Create\<close> checks its options and runs \<open>createRaw\<close>,
  which sizes the file, writes the partition table and formats the file system, or the
  encrypted APFS path; a DMG is then wrapped and converted by the \<open>dmg\<close> library.
\<close>

section \<open>Arithmetic and tables\<close>

definition alignDown :: "int \<Rightarrow> int \<Rightarrow> int" where
  "alignDown n align = i64 (n - n smod align)"

definition mbrPartType :: "FilesystemType \<Rightarrow> byte" where
  "mbrPartType fs =
     (if fs = FSFat32 then 0x0C else if fs = FSExFAT then 0x07 else 0x83)"

definition gptPartTypeGUID :: "FilesystemType \<Rightarrow> bytes" where
  "gptPartTypeGUID fs =
     (if fs = FSFat32 \<or> fs = FSExFAT then
        [0xA2, 0xA0, 0xD0, 0xEB, 0xE5, 0xB9, 0x33, 0x44,
         0x87, 0xC0, 0x68, 0xB6, 0xB7, 0x26, 0x99, 0xC7]
      else if fs = FSApfs then
        [0xEF, 0x57, 0x34, 0x7C, 0x00, 0x00, 0xAA, 0x11,
         0xAA, 0x11, 0x00, 0x30, 0x65, 0x43, 0xEC, 0xAC]
      else
        [0xAF, 0x3D, 0xC6, 0x0F, 0x83, 0x84, 0x72, 0x47,
         0x8E, 0x79, 0x3D, 0x69, 0xD8, 0x47, 0x7D, 0xE4])"

section \<open>Formatting\<close>

definition formatFilesystem ::
    "format_lib \<Rightarrow> string \<Rightarrow> int \<Rightarrow> FilesystemType \<Rightarrow> string \<Rightarrow> world \<Rightarrow> error option \<times> world" where
  "formatFilesystem lib path sizeBytes fs label w =
     (if fs = FSExt4 then formatFS lib FSExt4 path sizeBytes label w
      else if fs = FSFat32 then formatFS lib FSFat32 path sizeBytes label w
      else if fs = FSBtrfs then formatFS lib FSBtrfs path sizeBytes label w
      else if fs = FSXfs then formatFS lib FSXfs path sizeBytes label w
      else if fs = FSZfs then
        (let poolName = label;
             poolName = (if poolName = '''' then ''data'' else poolName)
         in formatFS lib FSZfs path sizeBytes poolName w)
      else if fs = FSExFAT then formatFS lib FSExFAT path sizeBytes label w
      else if fs = FSNTFS then formatFS lib FSNTFS path sizeBytes label w
      else if fs = FSApfs then
        (case sys_write_file path [] w of
           (Some e, w1) \<Rightarrow> (Some (Wrap ''diskimage: apfs init'' e), w1)
         | (None, w1) \<Rightarrow> formatFS lib FSApfs path sizeBytes label w1)
      else if fs = FSHfsPlus then
        (case formatFS lib FSHfsPlus path sizeBytes label w of
           (Some e, w1) \<Rightarrow> (Some e, w1)
         | (None, w1) \<Rightarrow> closeFormatted lib path w1)
      else (Some (Msg ''diskimage: unsupported filesystem''), w))"

text \<open>
  \<open>io.Copy(dst, src)\<close> from the start of \<open>src\<close> to the position \<open>off\<close> of \<open>dst\<close>: what could be
  read is written before a read error is reported.
\<close>

definition io_copy :: "string \<Rightarrow> int \<Rightarrow> string \<Rightarrow> world \<Rightarrow> error option \<times> world" where
  "io_copy dst off src w =
     (case sys_read_at src w 0 (case files w src of None \<Rightarrow> 0 | Some img \<Rightarrow> isize img) of
        (data, re) \<Rightarrow>
          (case sys_write_at dst data off w of
             ((n, Some e), w1) \<Rightarrow> (Some e, w1)
           | ((n, None), w1) \<Rightarrow> (re, w1)))"

definition formatFilesystemAt ::
    "format_lib \<Rightarrow> string \<Rightarrow> int \<Rightarrow> int \<Rightarrow> FilesystemType \<Rightarrow> string \<Rightarrow> world \<Rightarrow> error option \<times> world" where
  "formatFilesystemAt lib rawPath partOffset partSize fs label w =
     (if partOffset = 0 then formatFilesystem lib rawPath partSize fs label w
      else
        (case sys_create_temp w of
           (Inl e, w1) \<Rightarrow> (Some (Wrap ''diskimage: temp file'' e), w1)
         | (Inr tmpPath, w1) \<Rightarrow>
             (let (r, w2) =
                (case formatFilesystem lib tmpPath partSize fs label w1 of
                   (Some e, w2) \<Rightarrow> (Some e, w2)
                 | (None, w2) \<Rightarrow>
                     (case sys_open tmpPath w2 of
                        Some e \<Rightarrow> (Some (Wrap ''diskimage: open temp'' e), w2)
                      | None \<Rightarrow>
                          (case sys_open rawPath w2 of
                             Some e \<Rightarrow> (Some (Wrap ''diskimage: open image for write'' e), w2)
                           | None \<Rightarrow>
                               if partOffset < 0 then
                                 (Some (Wrap ''diskimage: seek to partition offset'' (Sys ''seek'')), w2)
                               else
                                 (case io_copy rawPath partOffset tmpPath w2 of
                                    (Some e, w3) \<Rightarrow>
                                      (Some (Wrap ''diskimage: splice filesystem into image'' e), w3)
                                  | (None, w3) \<Rightarrow> (None, w3)))))
              in (r, snd (sys_remove tmpPath w2)))))"

section \<open>createRaw\<close>

text \<open>The region of the file system and the partition table, for each scheme.\<close>

definition partition_image ::
    "CreateOptions \<Rightarrow> world \<Rightarrow> (error + int \<times> int) \<times> world" where
  "partition_image opts w =
     (let secSize = 512; alignedStart = 2048 in
      if co_Partition opts = PartNone \<or> co_Partition opts = '''' then
        (Inr (0, co_SizeBytes opts), w)
      else if co_Partition opts = PartMBR then
        (let partOffset = alignedStart * secSize;
             partSize = alignDown (i64 (co_SizeBytes opts - partOffset)) 4096
         in if partSize \<le> 0 then
              (Inl (Msg ''diskimage: image too small for MBR + 1 MiB alignment''), w)
            else (case writeMBR (co_Path opts) (co_SizeBytes opts)
                         (mbrPartType (co_Filesystem opts)) w of
                    (Some e, w1) \<Rightarrow> (Inl e, w1)
                  | (None, w1) \<Rightarrow> (Inr (partOffset, partSize), w1)))
      else if co_Partition opts = PartGPT then
        (let partOffset = alignedStart * secSize;
             partSize = alignDown (i64 (i64 (co_SizeBytes opts - partOffset) - 33 * secSize)) 4096
         in if partSize \<le> 0 then
              (Inl (Msg ''diskimage: image too small for GPT + 1 MiB alignment''), w)
            else (case writeGPT (co_Path opts) (co_SizeBytes opts)
                         (gptPartTypeGUID (co_Filesystem opts)) w of
                    (Some e, w1) \<Rightarrow> (Inl e, w1)
                  | (None, w1) \<Rightarrow> (Inr (partOffset, partSize), w1)))
      else (Inl (Msg ''diskimage: unsupported partition scheme''), w))"

definition createRaw :: "format_lib \<Rightarrow> CreateOptions \<Rightarrow> world \<Rightarrow> error option \<times> world" where
  "createRaw lib opts w =
     (case sys_create (co_Path opts) w of
        (Some e, w1) \<Rightarrow> (Some (Wrap ''diskimage: create'' e), w1)
      | (None, w1) \<Rightarrow>
          (case sys_truncate (co_Path opts) (co_SizeBytes opts) w1 of
             (Some e, w2) \<Rightarrow>
               (Some (Wrap ''diskimage: truncate'' e), snd (sys_remove (co_Path opts) w2))
           | (None, w2) \<Rightarrow>
               (case partition_image opts w2 of
                  (Inl e, w3) \<Rightarrow> (Some e, w3)
                | (Inr (partOffset, partSize), w3) \<Rightarrow>
                    if co_Filesystem opts = FSNone \<or> co_Filesystem opts = '''' then (None, w3)
                    else formatFilesystemAt lib (co_Path opts) partOffset partSize
                           (co_Filesystem opts) (co_Label opts) w3)))"

section \<open>DMG images\<close>

definition createEncryptedApfsDmg ::
    "format_lib \<Rightarrow> CreateOptions \<Rightarrow> world \<Rightarrow> error option \<times> world" where
  "createEncryptedApfsDmg lib opts w =
     (let fdeHeaderBytes = 8192 in
      if co_SizeBytes opts \<le> fdeHeaderBytes then
        (Some (Msg ''diskimage: image size is too small for an encrypted APFS DMG''), w)
      else
        (case sys_create (co_Path opts) w of
           (Some e, w1) \<Rightarrow> (Some (Wrap ''diskimage: create'' e), w1)
         | (None, w1) \<Rightarrow>
             (case sys_truncate (co_Path opts) (co_SizeBytes opts) w1 of
                (Some e, w2) \<Rightarrow>
                  (Some (Wrap ''diskimage: truncate'' e), snd (sys_remove (co_Path opts) w2))
              | (None, w2) \<Rightarrow>
                  (case fdeFormat lib (co_Path opts) (co_DmgPassphrase opts) w2 of
                     (Some e, w3) \<Rightarrow>
                       (Some (Wrap ''diskimage: apfs fde format'' e),
                        snd (sys_remove (co_Path opts) w3))
                   | (None, w3) \<Rightarrow>
                       (case fdeClose lib (co_Path opts) w3 of
                          (Some e, w4) \<Rightarrow> (Some (Wrap ''diskimage: apfs fde close'' e), w4)
                        | (None, w4) \<Rightarrow> (None, w4))))))"

definition convertDmgFormat ::
    "dmg_lib \<Rightarrow> string \<Rightarrow> string \<Rightarrow> world \<Rightarrow> error option \<times> world" where
  "convertDmgFormat dmg path format w =
     (if format = '''' then (None, w)
      else
        (let tmp = path @ ''.converting'' in
         case convertUDIF dmg path tmp format w of
           (Some e, w1) \<Rightarrow> (Some (Wrap ''diskimage: convert'' e), snd (sys_remove tmp w1))
         | (None, w1) \<Rightarrow>
             (case sys_rename tmp path w1 of
                (Some e, w2) \<Rightarrow> (Some (Wrap ''diskimage: replace'' e), snd (sys_remove tmp w2))
              | (None, w2) \<Rightarrow> (None, w2))))"

section \<open>Create\<close>

text \<open>The defaults that \<open>Create\<close> fills in, and its checks, in its order.\<close>

definition create_defaults :: "CreateOptions \<Rightarrow> CreateOptions" where
  "create_defaults opts =
     (let opts = (if co_Format opts = '''' then opts\<lparr>co_Format := FormatRaw\<rparr> else opts);
          opts = (if co_Partition opts = '''' then opts\<lparr>co_Partition := PartNone\<rparr> else opts)
      in if co_Filesystem opts = '''' then opts\<lparr>co_Filesystem := FSNone\<rparr> else opts)"

definition Create ::
    "dmg_lib \<Rightarrow> format_lib \<Rightarrow> CreateOptions \<Rightarrow> world \<Rightarrow> error option \<times> world" where
  "Create dmg lib opts0 w =
     (if co_Path opts0 = '''' then (Some (Msg ''diskimage: path is required''), w)
      else if co_SizeBytes opts0 \<le> 0 then (Some (Msg ''diskimage: size must be positive''), w)
      else
        (let opts = create_defaults opts0 in
         if co_Format opts = FormatDmg \<and> \<not> IsDmgSupportedFilesystem (co_Filesystem opts) then
           (Some (Msg ''diskimage: filesystem is not supported in DMG images''), w)
         else if co_DmgPassphrase opts \<noteq> [] \<and> co_Format opts \<noteq> FormatDmg then
           (Some (Msg ''diskimage: passphrase is only valid for DMG images''), w)
         else if co_DmgPassphrase opts \<noteq> [] \<and> co_Filesystem opts \<noteq> FSApfs then
           (Some (Msg ''diskimage: passphrase is only valid for APFS DMG images''), w)
         else if co_Format opts = FormatRaw then createRaw lib opts w
         else if co_Format opts = FormatDmg then
           (if co_Filesystem opts = FSApfs \<and> co_DmgPassphrase opts \<noteq> [] then
              (case createEncryptedApfsDmg lib opts w of
                 (Some e, w1) \<Rightarrow> (Some e, w1)
               | (None, w1) \<Rightarrow> wrapRaw dmg (co_Path opts) w1)
            else
              (case createRaw lib opts w of
                 (Some e, w1) \<Rightarrow> (Some e, w1)
               | (None, w1) \<Rightarrow>
                   if co_Filesystem opts = FSApfs \<and> co_DmgUDIFFormat opts = '''' then (None, w1)
                   else if co_DmgUDIFFormat opts = ''UDRW'' then (None, w1)
                   else (case wrapRaw dmg (co_Path opts) w1 of
                           (Some e, w2) \<Rightarrow> (Some e, w2)
                         | (None, w2) \<Rightarrow>
                             convertDmgFormat dmg (co_Path opts) (co_DmgUDIFFormat opts) w2)))
         else (Some (Msg ''diskimage: unsupported format''), w)))"

section \<open>What the drivers promise\<close>

text \<open>
  The documented behaviour of the formatters: each works on the file at its path only, and
  on success leaves there a file of the size asked for that carries the magic number of its
  file system. Closing the HFS+ handle flushes to the same file.
\<close>

definition only_file :: "string \<Rightarrow> world \<Rightarrow> world \<Rightarrow> bool" where
  "only_file path w w' \<longleftrightarrow> (\<forall>q. q \<noteq> path \<longrightarrow> files w' q = files w q) \<and> fault w' = fault w"

definition format_contract :: "format_lib \<Rightarrow> bool" where
  "format_contract lib \<longleftrightarrow>
     (\<forall>fs path n label w e w'. formatFS lib fs path n label w = (e, w') \<longrightarrow>
        only_file path w w' \<and>
        (e = None \<longrightarrow> (\<exists>img. files w' path = Some img \<and> int (isize img) = n \<and>
           (fs \<noteq> FSHfsPlus \<longrightarrow> find_magic img 0 = Some fs)))) \<and>
     (\<forall>path w e w'. closeFormatted lib path w = (e, w') \<longrightarrow>
        only_file path w w' \<and>
        (\<forall>img. files w path = Some img \<longrightarrow> (\<exists>img'. files w' path = Some img' \<and> isize img' = isize img)))"

lemma only_file_refl [simp]: "only_file p w w"
  by (simp add: only_file_def)

lemma only_file_trans: "only_file p w w' \<Longrightarrow> only_file p w' w'' \<Longrightarrow> only_file p w w''"
  by (simp add: only_file_def)

lemma sys_only_file:
  "sys_create p w = (e, w') \<Longrightarrow> only_file p w w'"
  "sys_truncate p n w = (e, w') \<Longrightarrow> only_file p w w'"
  "sys_write_at p bs off w = (r, w') \<Longrightarrow> only_file p w w'"
  "sys_remove p w = (e, w') \<Longrightarrow> only_file p w w'"
  by (auto simp: only_file_def sys_create_def sys_truncate_def sys_write_at_def sys_remove_def
      split: if_splits option.splits)

lemma sys_write_file_only: "sys_write_file p bs w = (e, w') \<Longrightarrow> only_file p w w'"
  by (auto simp: sys_write_file_def split: prod.splits option.splits
      intro: sys_only_file only_file_trans [OF sys_only_file(1) sys_only_file(3)])

lemma formatFS_only: "format_contract lib \<Longrightarrow> formatFS lib fs p n l w = (e, w') \<Longrightarrow> only_file p w w'"
  unfolding format_contract_def by blast

lemma closeFormatted_only: "format_contract lib \<Longrightarrow> closeFormatted lib p w = (e, w') \<Longrightarrow> only_file p w w'"
  unfolding format_contract_def by blast

lemma formatFilesystem_only:
  assumes "format_contract lib" and "formatFilesystem lib p n fs l w = (e, w')"
  shows "only_file p w w'"
  using assms(2) formatFS_only [OF assms(1)] closeFormatted_only [OF assms(1)]
  by (auto simp: formatFilesystem_def Let_def split: if_splits prod.splits option.splits
      intro: sys_write_file_only only_file_trans [OF sys_write_file_only]
        only_file_trans [OF formatFS_only [OF assms(1)]])

lemma formatFilesystem_ok:
  assumes "format_contract lib" and "formatFilesystem lib p n fs l w = (None, w')" and "fs \<noteq> FSHfsPlus"
  shows "\<exists>img. files w' p = Some img \<and> int (isize img) = n \<and> find_magic img 0 = Some fs"
proof -
  have "\<exists>img. files w' p = Some img \<and> int (isize img) = n \<and> find_magic img 0 = Some fs"
    if "formatFS lib fs p n l' w1 = (None, w')" for l' w1
    using assms(1,3) that unfolding format_contract_def by blast
  then show ?thesis
    using assms(2,3)
    by (auto simp: formatFilesystem_def Let_def split: if_splits prod.splits option.splits)
qed

section \<open>Geometry of the partition\<close>

lemma alignDown_props:
  assumes "0 < alignDown (i64 x) 4096" and "- (2 ^ 63) \<le> x" and "x < 2 ^ 63"
  shows "alignDown (i64 x) 4096 = x div 4096 * 4096" and "0 < x"
proof -
  have x: "i64 x = x" using assms(2,3) by simp
  show pos: "0 < x"
  proof (rule ccontr)
    assume "\<not> 0 < x"
    then have neg: "x \<le> 0" by simp
    have "x - x smod 4096 = - (- x - (- x) mod 4096)"
      using neg by (cases "x = 0") (simp_all add: signed_modulo_int_def)
    then have down: "x - x smod 4096 = - (- x div 4096 * 4096)" by (simp add: minus_mod_eq_div_mult)
    moreover have "0 \<le> - x div 4096 * 4096" "- x div 4096 * 4096 \<le> - x"
      using neg by simp_all
    ultimately have "alignDown x 4096 \<le> 0"
      using assms(2) by (simp add: alignDown_def)
    then show False using assms(1) x by simp
  qed
  have "x - x smod 4096 = x div 4096 * 4096"
    using pos by (simp add: smod_pos minus_mod_eq_div_mult)
  moreover have "0 \<le> x div 4096 * 4096" "x div 4096 * 4096 \<le> x" using pos by simp_all
  ultimately show "alignDown (i64 x) 4096 = x div 4096 * 4096"
    using assms(3) x by (simp add: alignDown_def)
qed

lemma gpt_region_bounds:
  fixes S :: int and n :: nat
  assumes "0 < alignDown (i64 (i64 (S - 1048576) - 16896)) 4096" and "0 < S" and "S < 2 ^ 63"
    and n: "n = nat S div 512"
  defines "psz \<equiv> alignDown (i64 (i64 (S - 1048576) - 16896)) 4096"
  shows "4096 dvd psz" and "1048576 + nat psz \<le> (n - 33) * 512" and "2082 \<le> n"
    and "int n * 512 \<le> S" and "psz < S"
proof -
  have i: "i64 (S - 1048576) = S - 1048576" using assms(2,3) by simp
  let ?x = "S - 1065472"
  note P = alignDown_props [of ?x]
  have psz: "psz = ?x div 4096 * 4096" and pos: "0 < ?x" "0 < psz"
    using P assms(1,2,3) by (simp_all add: psz_def i)
  show "4096 dvd psz" by (simp add: psz)
  have S: "S = int (nat S)" using assms(2) by simp
  have "psz \<le> ?x" using pos(1) by (simp add: psz)
  have ge: "4096 \<le> ?x" using pos(2) psz by (simp add: pos_imp_zdiv_pos_iff zero_less_mult_iff)
  show "psz < S" using \<open>psz \<le> ?x\<close> by simp
  have n': "int n = S div 512" using n S by (metis of_nat_div of_nat_numeral)
  show "2082 \<le> n" using ge n' by linarith
  show "int n * 512 \<le> S" using n' by simp
  obtain k where k: "psz = 512 * k" using psz that [of "?x div 4096 * 8"] by simp
  have "512 * k + 1065472 \<le> S" using \<open>psz \<le> ?x\<close> k by simp
  then have "k + 2081 \<le> int n" using n' by linarith
  moreover have "0 \<le> k" using pos(2) k by simp
  ultimately have "nat psz = nat k * 512" "nat k + 2081 \<le> n"
    using k by (simp_all add: nat_mult_distrib)
  then show "1048576 + nat psz \<le> (n - 33) * 512" by simp
qed

lemma partition_image_gpt:
  assumes "partition_image opts w = (Inr (off, psz), w')" and part: "co_Partition opts = PartGPT"
    and size: "0 < co_SizeBytes opts" "co_SizeBytes opts < 2 ^ 63"
    and img: "files w (co_Path opts) = Some img" "int (isize img) = co_SizeBytes opts"
    and n: "n = nat (co_SizeBytes opts) div 512"
  shows "off = 1048576 \<and> 4096 dvd psz \<and> 1048576 + nat psz \<le> (n - 33) * 512 \<and> 2082 \<le> n \<and>
    int n * 512 \<le> co_SizeBytes opts \<and> 0 < psz \<and> fault w' = fault w \<and>
    psz = alignDown (co_SizeBytes opts - 1065472) 4096 \<and>
    (\<exists>d g im. gpt_laid_out n (gptPartTypeGUID (co_Filesystem opts)) d g im \<and>
       isize im = isize img \<and> files w' = (files w)(co_Path opts \<mapsto> im))"
proof -
  let ?t = "gptPartTypeGUID (co_Filesystem opts)"
  have off: "off = 1048576" and psz: "psz = alignDown (i64 (i64 (co_SizeBytes opts - 1048576) - 16896)) 4096"
    and pos: "0 < psz" and wr: "writeGPT (co_Path opts) (co_SizeBytes opts) ?t w = (None, w')"
    using assms(1) part by (auto simp: partition_image_def Let_def split: if_splits prod.splits option.splits)
  note B = gpt_region_bounds [OF pos [unfolded psz] size n, folded psz]
  from writeGPT_ok [OF wr img(1)] obtain d g where dg: "length d = 16" "length g = 16"
    and w': "files w' = (files w)(co_Path opts \<mapsto> write_all (gpt_regions (co_SizeBytes opts) ?t d g) img)"
      "fault w' = fault w" by auto
  have t: "length ?t = 16" by (simp add: gptPartTypeGUID_def)
  let ?im = "write_all (gpt_regions (co_SizeBytes opts) ?t d g) img"
  have lay: "gpt_laid_out n ?t d g ?im"
    using B(3) size img(2) dg t by (intro gpt_laid_out_write_all [OF n]) auto
  have "isize ?im = max (isize img) (n * 512)"
    by (rule gpt_image_regions(7) [OF n]) (use B(3) size dg t in auto)
  moreover have "n * 512 \<le> isize img" using B(4) img(2) by linarith
  ultimately have "isize ?im = isize img" by simp
  moreover have "psz = alignDown (co_SizeBytes opts - 1065472) 4096"
    using size psz by simp
  ultimately show ?thesis using off B pos w' lay by blast
qed

lemma partition_image_mbr:
  assumes "partition_image opts w = (Inr (off, psz), w')" and part: "co_Partition opts = PartMBR"
    and size: "0 < co_SizeBytes opts" "co_SizeBytes opts < 2 ^ 63"
    and img: "files w (co_Path opts) = Some img" "int (isize img) = co_SizeBytes opts"
  shows "off = 1048576 \<and> 4096 dvd psz \<and> 0 < psz \<and> 1048576 + psz \<le> co_SizeBytes opts \<and>
    psz = alignDown (co_SizeBytes opts - 1048576) 4096 \<and>
    fault w' = fault w \<and>
    (\<exists>mbr. mbr_sector (co_SizeBytes opts) (mbrPartType (co_Filesystem opts)) = Inr mbr \<and>
       files w' = (files w)(co_Path opts \<mapsto> img_write 0 mbr img))"
proof -
  have off: "off = 1048576" and psz: "psz = alignDown (i64 (co_SizeBytes opts - 1048576)) 4096"
    and pos: "0 < psz"
    and wr: "writeMBR (co_Path opts) (co_SizeBytes opts) (mbrPartType (co_Filesystem opts)) w = (None, w')"
    using assms(1) part by (auto simp: partition_image_def Let_def split: if_splits prod.splits option.splits)
  let ?x = "co_SizeBytes opts - 1048576"
  have "psz = ?x div 4096 * 4096" using alignDown_props [of ?x] pos size by (simp add: psz)
  moreover have "?x div 4096 * 4096 \<le> ?x" by simp
  ultimately have "4096 dvd psz" "1048576 + psz \<le> co_SizeBytes opts" by simp_all
  moreover have "psz = alignDown ?x 4096" using psz size by simp
  ultimately show ?thesis using writeMBR_ok [OF wr] off pos img(1) by auto
qed

section \<open>Splicing the file system into the image\<close>

lemma io_copy_ok:
  assumes "io_copy dst off src w = (None, w')" and "files w src = Some img"
    and "\<And>o'. fault w S_read src o' = None"
  shows "\<exists>d. files w dst = Some d \<and> 0 \<le> off \<and>
    files w' = (files w)(dst \<mapsto> img_write (nat off) (img_bytes img 0 (isize img)) d) \<and> fault w' = fault w"
  using assms(1,2) sys_read_at_img [OF assms(2,3)]
  by (auto simp: io_copy_def img_read_def dest!: sys_write_at_success split: prod.splits option.splits)

lemma io_copy_only: "io_copy dst off src w = (e, w') \<Longrightarrow> only_file dst w w'"
  by (auto simp: io_copy_def intro: sys_only_file(3) split: prod.splits option.splits)

text \<open>Whatever happens, only the image changes and the temporary file is gone.\<close>

definition no_remove_fault :: "world \<Rightarrow> bool" where
  "no_remove_fault w \<longleftrightarrow> (\<forall>p x. fault w S_remove p x = None)"

lemma sys_remove_gone:
  "no_remove_fault w \<Longrightarrow> files (snd (sys_remove p w)) = (files w)(p := None)"
  by (auto simp: no_remove_fault_def sys_remove_def fun_eq_iff)

lemma formatFilesystemAt_only:
  assumes lib: "format_contract lib" and rm: "no_remove_fault w"
    and raw: "files w raw \<noteq> None" and run: "formatFilesystemAt lib raw off n fs l w = (e, w')"
  shows "only_file raw w w'"
proof (cases "off = 0")
  case True
  then show ?thesis using run formatFilesystem_only [OF lib] by (simp add: formatFilesystemAt_def)
next
  case False
  obtain c w1 where c: "sys_create_temp w = (c, w1)" by force
  show ?thesis
  proof (cases c)
    case (Inl err)
    then show ?thesis using run False c
      by (auto simp: formatFilesystemAt_def sys_create_temp_def only_file_def
          split: option.splits if_splits)
  next
    case (Inr tmp)
    have tmp: "files w tmp = None" "files w1 = (files w)(tmp \<mapsto> empty_image)" "fault w1 = fault w"
      using c Inr by (auto simp: sys_create_temp_def split: option.splits if_splits dest: pick_temp_fresh)
    have ne: "tmp \<noteq> raw" using tmp(1) raw by auto
    obtain f w2 where f: "formatFilesystem lib tmp n fs l w1 = (f, w2)" by force
    have o2: "only_file tmp w1 w2" by (rule formatFilesystem_only [OF lib f])
    obtain ce w3 where cp: "io_copy raw off tmp w2 = (ce, w3)" by force
    have o3: "only_file raw w2 w3" by (rule io_copy_only [OF cp])
    obtain v where v: "w' = snd (sys_remove tmp v)" "v = w2 \<or> v = w3"
      using run False c Inr f cp by (auto simp: formatFilesystemAt_def Let_def split: option.splits if_splits)
    have fv: "fault v = fault w" using v(2) o2 o3 tmp(3) by (auto simp: only_file_def)
    then have "files w' = (files v)(tmp := None)"
      using sys_remove_gone [of v tmp] rm v(1) by (simp add: no_remove_fault_def)
    moreover have "files v q = files w q" if "q \<noteq> raw" "q \<noteq> tmp" for q
      using v(2) o2 o3 that tmp(2) by (auto simp: only_file_def)
    ultimately have "files w' q = files w q" if "q \<noteq> raw" for q
      using that tmp(1) by simp
    moreover have "fault w' = fault w"
      using v(1) fv sys_fault_frame(4) [of tmp v] by (metis prod.collapse)
    ultimately show ?thesis by (simp add: only_file_def)
  qed
qed

lemma formatFilesystemAt_splice:
  assumes lib: "format_contract lib" and rm: "no_remove_fault w"
    and rd: "\<And>p x. fault w S_read p x = None"
    and raw: "files w raw = Some im" and off: "0 < off" and fs: "fs \<noteq> FSHfsPlus"
    and run: "formatFilesystemAt lib raw off n fs l w = (None, w')"
  shows "\<exists>img. int (isize img) = n \<and> find_magic img 0 = Some fs \<and>
    files w' = (files w)(raw \<mapsto> img_write (nat off) (img_bytes img 0 (isize img)) im) \<and>
    fault w' = fault w"
proof -
  obtain c w1 where c: "sys_create_temp w = (c, w1)" by force
  then obtain tmp where tmp: "c = Inr tmp"
    using run off by (cases c) (auto simp: formatFilesystemAt_def)
  have t: "files w tmp = None" "files w1 = (files w)(tmp \<mapsto> empty_image)" "fault w1 = fault w"
    using c tmp by (auto simp: sys_create_temp_def split: option.splits if_splits dest: pick_temp_fresh)
  obtain w2 w3 where f: "formatFilesystem lib tmp n fs l w1 = (None, w2)"
    and cp: "io_copy raw off tmp w2 = (None, w3)" and w': "w' = snd (sys_remove tmp w3)"
    using run off c tmp by (auto simp: formatFilesystemAt_def Let_def split: option.splits prod.splits if_splits)
  have o2: "only_file tmp w1 w2" by (rule formatFilesystem_only [OF lib f])
  have neq: "raw \<noteq> tmp" using t(1) raw by auto
  then have raw2: "files w2 raw = Some im" and fa2: "fault w2 = fault w"
    using o2 t raw by (simp_all add: only_file_def)
  obtain img where img: "files w2 tmp = Some img" "int (isize img) = n" "find_magic img 0 = Some fs"
    using formatFilesystem_ok [OF lib f fs] by auto
  obtain d where d: "files w2 raw = Some d"
      "files w3 = (files w2)(raw \<mapsto> img_write (nat off) (img_bytes img 0 (isize img)) d)" "fault w3 = fault w2"
    using io_copy_ok [OF cp img(1)] rd fa2 by auto
  have "files w' = (files w3)(tmp := None)"
    using sys_remove_gone [of w3 tmp] rm d(3) fa2 w' by (simp add: no_remove_fault_def)
  then have "files w' = (files w)(raw \<mapsto> img_write (nat off) (img_bytes img 0 (isize img)) im)"
    using d(1,2) raw2 o2 t neq by (auto simp: fun_eq_iff only_file_def)
  moreover have "fault w' = fault w"
    using w' d(3) fa2 sys_fault_frame(4) [of tmp w3] by (metis prod.collapse)
  ultimately show ?thesis using img by blast
qed

text \<open>The window of the spliced file system is the formatted file.\<close>

lemma find_magic_splice:
  assumes "262144 \<le> isize img" and "off + isize img \<le> isize im"
  shows "find_magic (img_write off (img_bytes img 0 (isize img)) im) off = find_magic img 0"
proof (rule find_magic_cong)
  show "off + 262144 \<le> isize (img_write off (img_bytes img 0 (isize img)) im)"
    using assms by auto
  show "0 + 262144 \<le> isize img" using assms by simp
  show "icont (img_write off (img_bytes img 0 (isize img)) im) (off + i) = icont img (0 + i)"
    if "i < 262144" for i
    using that assms(1) by (simp add: icont_img_write)
qed

section \<open>What Create leaves behind\<close>

text \<open>No system call fails.\<close>

definition quiet :: "world \<Rightarrow> bool" where
  "quiet w \<longleftrightarrow> (\<forall>s p x. fault w s p x = None)"

lemma quiet_no_remove_fault: "quiet w \<Longrightarrow> no_remove_fault w"
  by (simp add: quiet_def no_remove_fault_def)

definition blank :: "int \<Rightarrow> image" where
  "blank n = img_truncate (nat n) empty_image"

lemma blank_simps [simp]: "isize (blank n) = nat n" "icont (blank n) i = 0"
  by (simp_all add: blank_def img_truncate_def empty_image_def)

lemma create_defaults_simps [simp]:
  "co_Path (create_defaults o1) = co_Path o1"
  "co_SizeBytes (create_defaults o1) = co_SizeBytes o1"
  "co_Label (create_defaults o1) = co_Label o1"
  "co_DmgPassphrase (create_defaults o1) = co_DmgPassphrase o1"
  "co_DmgUDIFFormat (create_defaults o1) = co_DmgUDIFFormat o1"
  by (simp_all add: create_defaults_def Let_def)

lemma create_defaults_choices:
  "co_Format (create_defaults o1) = (if co_Format o1 = '''' then FormatRaw else co_Format o1)"
  "co_Partition (create_defaults o1) = (if co_Partition o1 = '''' then PartNone else co_Partition o1)"
  "co_Filesystem (create_defaults o1) = (if co_Filesystem o1 = '''' then FSNone else co_Filesystem o1)"
  by (simp_all add: create_defaults_def Let_def)

lemma createRaw_ok:
  assumes "createRaw lib opts w = (None, w')"
  shows "\<exists>w2 off psz w3. files w2 = (files w)(co_Path opts \<mapsto> blank (co_SizeBytes opts)) \<and>
    fault w2 = fault w \<and> 0 \<le> co_SizeBytes opts \<and>
    partition_image opts w2 = (Inr (off, psz), w3) \<and>
    (if co_Filesystem opts = FSNone \<or> co_Filesystem opts = '''' then w' = w3
     else formatFilesystemAt lib (co_Path opts) off psz (co_Filesystem opts) (co_Label opts) w3 = (None, w'))"
proof -
  let ?p = "co_Path opts"
  obtain w1 where c: "sys_create ?p w = (None, w1)"
    using assms by (auto simp: createRaw_def split: prod.splits option.splits)
  obtain w2 where t: "sys_truncate ?p (co_SizeBytes opts) w1 = (None, w2)"
    using assms c by (auto simp: createRaw_def split: prod.splits option.splits)
  obtain off psz w3 where q: "partition_image opts w2 = (Inr (off, psz), w3)"
    using assms c t by (auto simp: createRaw_def split: prod.splits option.splits sum.splits)
  have "files w2 = (files w)(?p \<mapsto> blank (co_SizeBytes opts))" "fault w2 = fault w" "0 \<le> co_SizeBytes opts"
    using c t by (auto simp: sys_create_def sys_truncate_def blank_def split: if_splits option.splits)
  then show ?thesis using assms c t q by (auto simp: createRaw_def split: if_splits)
qed

lemma Create_raw_ok:
  assumes "Create dmg lib opts w = (None, w')" and "co_Format opts = FormatRaw \<or> co_Format opts = ''''"
  shows "createRaw lib (create_defaults opts) w = (None, w') \<and> 0 < co_SizeBytes opts"
  using assms by (auto simp: Create_def Let_def create_defaults_choices split: if_splits)

text \<open>The image that \<open>Create\<close> leaves for \<open>--part gpt\<close>.\<close>

lemma Create_gpt_image:
  assumes run: "Create dmg lib opts w = (None, w')"
    and raw: "co_Format opts = FormatRaw \<or> co_Format opts = ''''" and part: "co_Partition opts = PartGPT"
    and size: "co_SizeBytes opts < 2 ^ 63" and lib: "format_contract lib" and q: "quiet w"
    and fs: "co_Filesystem opts \<noteq> FSHfsPlus"
  defines "n \<equiv> nat (co_SizeBytes opts) div 512"
    and "psz \<equiv> alignDown (co_SizeBytes opts - 1065472) 4096"
    and "fs' \<equiv> co_Filesystem (create_defaults opts)"
  shows "\<exists>d g im. files w' = (files w)(co_Path opts \<mapsto> im) \<and> int (isize im) = co_SizeBytes opts \<and>
    gpt_laid_out n (gptPartTypeGUID fs') d g im \<and> 2082 \<le> n \<and> int n < 2 ^ 63 \<and> fault w' = fault w \<and>
    0 < psz \<and> 1048576 + nat psz \<le> (n - 33) * 512 \<and>
    (fs' \<noteq> FSNone \<longrightarrow> 262144 \<le> psz \<longrightarrow> find_magic im 1048576 = Some fs')"
    (is "\<exists>d g im. ?P d g im")
proof -
  let ?o = "create_defaults opts"
  from Create_raw_ok [OF run raw] have cr: "createRaw lib ?o w = (None, w')" and pos: "0 < co_SizeBytes opts"
    by simp_all
  from createRaw_ok [OF cr] obtain w2 off p w3 where
    w2: "files w2 = (files w)(co_Path opts \<mapsto> blank (co_SizeBytes opts))" "fault w2 = fault w"
    and pi: "partition_image ?o w2 = (Inr (off, p), w3)"
    and rest: "if co_Filesystem ?o = FSNone \<or> co_Filesystem ?o = '''' then w' = w3
       else formatFilesystemAt lib (co_Path opts) off p (co_Filesystem ?o) (co_Label opts) w3 = (None, w')"
    by (simp only: create_defaults_simps) blast
  have isz: "int (isize (blank (co_SizeBytes opts))) = co_SizeBytes opts" using pos by simp
  have pg: "co_Partition ?o = PartGPT" "co_SizeBytes ?o = co_SizeBytes opts"
    using part by (simp_all add: create_defaults_choices)
  have f2: "files w2 (co_Path ?o) = Some (blank (co_SizeBytes opts))" using w2(1) by simp
  have PP: "off = 1048576 \<and> 4096 dvd p \<and> 1048576 + nat p \<le> (n - 33) * 512 \<and> 2082 \<le> n \<and>
    int n * 512 \<le> co_SizeBytes opts \<and> 0 < p \<and> fault w3 = fault w2 \<and> p = psz \<and>
    (\<exists>d g im. gpt_laid_out n (gptPartTypeGUID (co_Filesystem ?o)) d g im \<and>
      isize im = nat (co_SizeBytes opts) \<and> files w3 = (files w2)(co_Path opts \<mapsto> im))"
    using partition_image_gpt [OF pi pg(1) _ _ f2, where n = n] pos size isz
    unfolding pg(2) n_def psz_def create_defaults_simps blank_simps by blast
  then have pp: "p = psz" by blast
  have P: "off = 1048576" "p = psz" "0 < psz" "1048576 + nat psz \<le> (n - 33) * 512" "2082 \<le> n"
      "int n * 512 \<le> co_SizeBytes opts" "fault w3 = fault w2"
    and "\<exists>d g im. gpt_laid_out n (gptPartTypeGUID (co_Filesystem ?o)) d g im \<and>
      isize im = nat (co_SizeBytes opts) \<and> files w3 = (files w2)(co_Path opts \<mapsto> im)"
    using PP pp by auto
  then obtain d g im where lay: "gpt_laid_out n (gptPartTypeGUID fs') d g im"
      and im: "isize im = nat (co_SizeBytes opts)" "files w3 = (files w2)(co_Path opts \<mapsto> im)"
    by (auto simp: fs'_def)
  have small: "int n < 2 ^ 63" using P(6) size by linarith
  have q3: "no_remove_fault w3" "\<And>p x. fault w3 S_read p x = None"
    using q w2(2) P(7) by (simp_all add: quiet_def no_remove_fault_def)
  show ?thesis
  proof (cases "fs' = FSNone")
    case True
    then have "w' = w3" using rest by (simp add: fs'_def split: if_splits)
    then have "?P d g im" using True lay im w2 P small pos by simp
    then show ?thesis by blast
  next
    case False
    have ne: "fs' \<noteq> ''''" "fs' \<noteq> FSHfsPlus" using fs by (simp_all add: fs'_def create_defaults_choices)
    have run3: "formatFilesystemAt lib (co_Path opts) 1048576 psz fs' (co_Label opts) w3 = (None, w')"
      using rest False ne P(1,2) by (simp add: fs'_def)
    have fi: "files w3 (co_Path opts) = Some im" using im(2) by simp
    from formatFilesystemAt_splice [OF lib q3 fi _ ne(2) run3] obtain img where
      img: "int (isize img) = psz" "find_magic img 0 = Some fs'"
        "files w' = (files w3)(co_Path opts \<mapsto> img_write 1048576 (img_bytes img 0 (isize img)) im)"
        "fault w' = fault w3" by auto
    define im' where "im' = img_write 1048576 (img_bytes img 0 (isize img)) im"
    have inside: "1048576 + isize img \<le> (n - 33) * 512" using P(4) img(1) by simp
    have "(n - 33) * 512 \<le> n * 512" by simp
    with inside P(6) im(1) have fit: "1048576 + isize img \<le> isize im" by linarith
    have "gpt_laid_out n (gptPartTypeGUID fs') d g im'"
      unfolding im'_def by (rule gpt_laid_out_write [OF lay]) (use inside in simp_all)
    moreover have "isize im' = isize im" using fit by (simp add: im'_def)
    moreover have "262144 \<le> psz \<longrightarrow> find_magic im' 1048576 = Some fs'"
      using find_magic_splice [OF _ fit] img(1,2) by (auto simp: im'_def)
    moreover have "files w' = (files w)(co_Path opts \<mapsto> im')"
      using img(3) im(2) w2(1) by (simp add: im'_def)
    ultimately have "?P d g im'"
      using img(4) P w2(2) im(1) small pos by simp
    then show ?thesis by blast
  qed
qed

text \<open>The image that \<open>Create\<close> leaves for \<open>--part mbr\<close>.\<close>

lemma Create_mbr_image:
  assumes run: "Create dmg lib opts w = (None, w')"
    and raw: "co_Format opts = FormatRaw \<or> co_Format opts = ''''" and part: "co_Partition opts = PartMBR"
    and size: "co_SizeBytes opts < 2 ^ 63" and lib: "format_contract lib" and q: "quiet w"
    and fs: "co_Filesystem opts \<noteq> FSHfsPlus"
  defines "psz \<equiv> alignDown (co_SizeBytes opts - 1048576) 4096"
    and "fs' \<equiv> co_Filesystem (create_defaults opts)"
  shows "\<exists>mbr im. files w' = (files w)(co_Path opts \<mapsto> im) \<and> int (isize im) = co_SizeBytes opts \<and>
    mbr_sector (co_SizeBytes opts) (mbrPartType fs') = Inr mbr \<and> img_bytes im 0 512 = mbr \<and>
    img_bytes im 512 8 = replicate 8 0 \<and> fault w' = fault w \<and>
    0 < psz \<and> 1048576 + psz \<le> co_SizeBytes opts \<and>
    (fs' \<noteq> FSNone \<longrightarrow> 262144 \<le> psz \<longrightarrow> find_magic im 1048576 = Some fs')"
    (is "\<exists>mbr im. ?P mbr im")
proof -
  let ?o = "create_defaults opts"
  from Create_raw_ok [OF run raw] have cr: "createRaw lib ?o w = (None, w')" and pos: "0 < co_SizeBytes opts"
    by simp_all
  from createRaw_ok [OF cr] obtain w2 off p w3 where
    w2: "files w2 = (files w)(co_Path opts \<mapsto> blank (co_SizeBytes opts))" "fault w2 = fault w"
    and pi: "partition_image ?o w2 = (Inr (off, p), w3)"
    and rest: "if co_Filesystem ?o = FSNone \<or> co_Filesystem ?o = '''' then w' = w3
       else formatFilesystemAt lib (co_Path opts) off p (co_Filesystem ?o) (co_Label opts) w3 = (None, w')"
    by (simp only: create_defaults_simps) blast
  have isz: "int (isize (blank (co_SizeBytes opts))) = co_SizeBytes opts" using pos by simp
  have pg: "co_Partition ?o = PartMBR" "co_SizeBytes ?o = co_SizeBytes opts"
    using part by (simp_all add: create_defaults_choices)
  have f2: "files w2 (co_Path ?o) = Some (blank (co_SizeBytes opts))" using w2(1) by simp
  obtain mbr where P: "off = 1048576" "p = psz" "0 < psz" "1048576 + psz \<le> co_SizeBytes opts"
      "fault w3 = fault w2"
    and mbr: "mbr_sector (co_SizeBytes opts) (mbrPartType fs') = Inr mbr"
      "files w3 = (files w2)(co_Path opts \<mapsto> img_write 0 mbr (blank (co_SizeBytes opts)))"
    using partition_image_mbr [OF pi pg(1) _ _ f2] pos size isz
    unfolding pg(2) psz_def fs'_def create_defaults_simps by blast
  let ?im = "img_write 0 mbr (blank (co_SizeBytes opts))"
  have len: "length mbr = 512" by (rule mbr_sector_Inr(2) [OF mbr(1)])
  have big: "1048576 < co_SizeBytes opts" using P(3,4) by linarith
  have im: "isize ?im = nat (co_SizeBytes opts)" "img_bytes ?im 0 512 = mbr"
      "img_bytes ?im 512 8 = replicate 8 0"
    using len big by (auto simp: image_simps img_bytes_eq_iff)
  have q3: "no_remove_fault w3" "\<And>p x. fault w3 S_read p x = None"
    using q w2(2) P(5) by (simp_all add: quiet_def no_remove_fault_def)
  show ?thesis
  proof (cases "fs' = FSNone")
    case True
    then have "w' = w3" using rest by (simp add: fs'_def split: if_splits)
    then have "?P mbr ?im" using True mbr im w2 P pos by simp
    then show ?thesis by blast
  next
    case False
    have ne: "fs' \<noteq> ''''" "fs' \<noteq> FSHfsPlus" using fs by (simp_all add: fs'_def create_defaults_choices)
    have run3: "formatFilesystemAt lib (co_Path opts) 1048576 psz fs' (co_Label opts) w3 = (None, w')"
      using rest False ne P(1,2) by (simp add: fs'_def)
    have fi: "files w3 (co_Path opts) = Some ?im" using mbr(2) by simp
    from formatFilesystemAt_splice [OF lib q3 fi _ ne(2) run3] obtain img where
      img: "int (isize img) = psz" "find_magic img 0 = Some fs'"
        "files w' = (files w3)(co_Path opts \<mapsto> img_write 1048576 (img_bytes img 0 (isize img)) ?im)"
        "fault w' = fault w3" by auto
    define im' where "im' = img_write 1048576 (img_bytes img 0 (isize img)) ?im"
    have fit: "1048576 + isize img \<le> isize ?im" using P(4) img(1) im(1) by linarith
    have "isize im' = nat (co_SizeBytes opts)" using fit im(1) by (simp add: im'_def)
    moreover have "img_bytes im' 0 512 = mbr" "img_bytes im' 512 8 = replicate 8 0"
      using im(2,3) by (simp_all add: im'_def img_bytes_write_below)
    moreover have "262144 \<le> psz \<longrightarrow> find_magic im' 1048576 = Some fs'"
      using find_magic_splice [OF _ fit] img(1,2) by (auto simp: im'_def)
    moreover have "files w' = (files w)(co_Path opts \<mapsto> im')"
      using img(3) mbr(2) w2(1) by (simp add: im'_def)
    ultimately have "?P mbr im'"
      using img(4) P w2(2) mbr(1) pos by simp
    then show ?thesis by blast
  qed
qed

lemma detect_image:
  assumes "files w path = Some im" and "quiet w" and "\<not> isUDIF dmg path w"
    and "detectPartOffset (img_read im) p = Inr (int off)" and "off < 2 ^ 62"
  shows "DetectFilesystem dmg path p w =
    ((case find_magic im off of Some fs \<Rightarrow> Inr fs | None \<Rightarrow> Inl (Msg ''unknown filesystem'')), w)"
proof -
  have "sys_read_at path w = img_read im"
    using assms(1,2) by (intro sys_read_at_img) (auto simp: quiet_def)
  moreover have eq: "\<lparr>isize = isize im, icont = icont im\<rparr> = im" by (cases im) simp
  ultimately show ?thesis
    using assms(1-4) img.probe_eq_find_magic [OF assms(5), of im, unfolded eq]
    by (simp add: DetectFilesystem_def sys_open_def quiet_def detect_on_open_file_def Let_def)
qed

section \<open>Only the image changes\<close>

lemma partition_image_only:
  assumes "partition_image opts w = (r, w')"
  shows "only_file (co_Path opts) w w' \<and> (files w (co_Path opts) \<noteq> None \<longrightarrow> files w' (co_Path opts) \<noteq> None)"
proof -
  have wf: "only_file p w w' \<and> (files w p \<noteq> None \<longrightarrow> files w' p \<noteq> None)"
    if "sys_write_at p b o' w = (e, w')" for p b o' w e w'
    using that sys_only_file(3) [OF that]
    by (auto simp: sys_write_at_def split: option.splits if_splits)
  have m: "only_file p w w' \<and> (files w p \<noteq> None \<longrightarrow> files w' p \<noteq> None)"
    if "writeMBR p s t w = (e, w')" for p s t w e w'
    using that by (auto simp: writeMBR_def dest: wf split: sum.splits option.splits prod.splits)
  have rs: "only_file p w w' \<and> (files w p \<noteq> None \<longrightarrow> files w' p \<noteq> None)"
    if "write_regions p rs w = (e, w')" for p rs w e w'
    using that
    by (induction p rs w rule: write_regions.induct)
      (auto split: option.splits prod.splits dest!: wf intro: only_file_trans)
  have g: "only_file p w w' \<and> (files w p \<noteq> None \<longrightarrow> files w' p \<noteq> None)"
    if run: "writeGPT p s t w = (e, w')" for p s t w e w'
  proof -
    obtain d w1 where d: "randomGUID w = (d, w1)" by (metis surj_pair)
    obtain g w2 where g: "randomGUID w1 = (g, w2)" by (metis surj_pair)
    have same: "files w2 = files w" "fault w2 = fault w"
      using files_randomGUID [of w] files_randomGUID [of w1]
        fault_randomGUID [of w] fault_randomGUID [of w1] d g by simp_all
    have "w' = w2 \<or> (\<exists>e. write_regions p (gpt_regions s t d g) w2 = (e, w'))"
      using run d g by (auto simp: writeGPT_def Let_def split: option.splits)
    then show ?thesis using rs same by (auto simp: only_file_def)
  qed
  show ?thesis
    using assms by (auto simp: partition_image_def Let_def split: if_splits prod.splits option.splits
        dest!: m g)
qed

lemma createRaw_only:
  assumes lib: "format_contract lib" and rm: "no_remove_fault w" and run: "createRaw lib opts w = (r, w')"
  shows "only_file (co_Path opts) w w'"
proof -
  let ?p = "co_Path opts"
  obtain e1 w1 where c: "sys_create ?p w = (e1, w1)" by force
  obtain e2 w2 where t: "sys_truncate ?p (co_SizeBytes opts) w1 = (e2, w2)" by force
  obtain e3 w3 where q: "partition_image opts w2 = (e3, w3)" by force
  have o1: "only_file ?p w w1" and o2: "only_file ?p w1 w2" and o3: "only_file ?p w2 w3"
    using c t partition_image_only [OF q] by (auto intro: sys_only_file)
  have o12: "only_file ?p w w2" and o13: "only_file ?p w w3"
    using o1 o2 o3 by (blast intro: only_file_trans)+
  have cleaned: "only_file ?p w (snd (sys_remove ?p w2))"
    using only_file_trans [OF o12 sys_only_file(4)] by (metis prod.collapse)
  have nr: "no_remove_fault w3" using rm o13 by (simp add: only_file_def no_remove_fault_def)
  have ex: "files w3 ?p \<noteq> None" if "e1 = None" "e2 = None"
  proof -
    have "files w2 ?p \<noteq> None" using c t that
      by (auto simp: sys_create_def sys_truncate_def split: if_splits option.splits)
    then show ?thesis using partition_image_only [OF q] by simp
  qed
  have f: "only_file ?p w v"
    if "e1 = None" "e2 = None" "formatFilesystemAt lib ?p off psz fs l w3 = (e, v)" for off psz fs l e v
    using formatFilesystemAt_only [OF lib nr ex [OF that(1,2)] that(3)] o13 by (blast intro: only_file_trans)
  show ?thesis
    using run c t q o1 o12 o13 cleaned f
    by (cases e1; cases e2; cases e3) (auto simp: createRaw_def split: if_splits)
qed

section \<open>Create succeeds when nothing fails\<close>

lemma sys_write_at_quiet:
  assumes "quiet w" and "files w p \<noteq> None" and "0 \<le> off" and "off + int (length bs) < 2 ^ 63"
  shows "\<exists>w'. sys_write_at p bs off w = ((length bs, None), w') \<and> files w' p \<noteq> None \<and> quiet w'"
  using assms by (auto simp: sys_write_at_def quiet_def)

lemma write_regions_quiet:
  assumes "quiet w" and "files w p \<noteq> None"
    and "list_all (\<lambda>(off, bs). 0 \<le> off \<and> off + int (length bs) < 2 ^ 63) rs"
  shows "\<exists>w'. write_regions p rs w = (None, w')"
  using assms
proof (induction p rs w rule: write_regions.induct)
  case (2 p off bs rs w)
  then obtain w1 where w1: "sys_write_at p bs off w = ((length bs, None), w1)"
      "files w1 p \<noteq> None" "quiet w1"
    using sys_write_at_quiet [of w p off bs] by auto
  then show ?case using "2.IH" [OF w1(1) [symmetric] refl refl] "2.prems" by simp
qed simp

lemma writeGPT_quiet:
  assumes "quiet w" and "files w p \<noteq> None" and "0 \<le> sz" and "sz < 2 ^ 63 - 1024" and "67 \<le> nat sz div 512"
    and "length t = 16"
  shows "\<exists>w'. writeGPT p sz t w = (None, w')"
proof -
  obtain d w1 where d: "randomGUID w = (d, w1)" by (metis surj_pair)
  obtain g w2 where g: "randomGUID w1 = (g, w2)" by (metis surj_pair)
  have len: "length d = 16" "length g = 16"
    using length_randomGUID [of w] length_randomGUID [of w1] d g by simp_all
  have same: "files w2 = files w" "fault w2 = fault w"
    using files_randomGUID [of w] files_randomGUID [of w1]
      fault_randomGUID [of w] fault_randomGUID [of w1] d g by simp_all
  then have q2: "quiet w2" "files w2 p \<noteq> None" using assms(1,2) by (simp_all add: quiet_def)
  have k: "67 \<le> sz div 512" "sz div 512 * 512 \<le> sz" "sz sdiv 512 = sz div 512"
    using assms(3,5) by (simp_all add: sdiv_pos)
  have "list_all (\<lambda>(off, bs). 0 \<le> off \<and> off + int (length bs) < 2 ^ 63) (gpt_regions sz t d g)"
    using len assms(4,6) k(1,2) by (simp add: gpt_regions_def Let_def k(3) algebra_simps)
  from write_regions_quiet [OF q2 this] show ?thesis
    using d g q2 by (auto simp: writeGPT_def Let_def sys_open_def quiet_def)
qed

lemma writeMBR_quiet:
  assumes "quiet w" and "files w p \<noteq> None" and "2048 < u32 (sz sdiv 512)"
  shows "\<exists>w'. writeMBR p sz t w = (None, w')"
proof -
  have "\<nexists>e. mbr_sector sz t = Inl e" using assms(3) by (simp add: mbr_sector_Inl_iff)
  then obtain mbr where m: "mbr_sector sz t = Inr mbr" by (metis obj_sumE)
  with sys_write_at_quiet [OF assms(1,2), of 0 mbr] assms(1,2) show ?thesis
    by (auto simp: writeMBR_def sys_open_def quiet_def mbr_sector_Inr(2) [OF m])
qed

text \<open>The formatter of \<open>fs\<close> returns no error on a file of \<open>n\<close> bytes.\<close>

definition formats :: "format_lib \<Rightarrow> FilesystemType \<Rightarrow> int \<Rightarrow> bool" where
  "formats lib fs n \<longleftrightarrow> (\<forall>p l w. quiet w \<longrightarrow> files w p \<noteq> None \<longrightarrow> fst (formatFS lib fs p n l w) = None)"

definition plain_driver :: "FilesystemType \<Rightarrow> bool" where
  "plain_driver fs \<longleftrightarrow> fs \<in> {FSExt4, FSFat32, FSBtrfs, FSXfs, FSZfs, FSExFAT, FSNTFS, FSApfs}"

lemma formatFilesystem_quiet:
  assumes "formats lib fs n" and "plain_driver fs" and "quiet w" and "files w p \<noteq> None"
  shows "\<exists>w'. formatFilesystem lib p n fs l w = (None, w')"
proof -
  have ok: "\<exists>w'. formatFS lib fs p n l w = (None, w')" if "quiet w" "files w p \<noteq> None" for l w
    using assms(1) that unfolding formats_def by (metis prod.collapse)
  have "sys_write_file p [] w = (None, w\<lparr>files := (files w)(p \<mapsto> empty_image)\<rparr>)"
    using assms(3) by (simp add: sys_write_file_def sys_create_def sys_write_at_def quiet_def img_write_def
        map_upd_triv)
  moreover have "\<exists>w'. formatFS lib fs p n l (w\<lparr>files := (files w)(p \<mapsto> empty_image)\<rparr>) = (None, w')"
    using assms(3) by (intro ok) (simp_all add: quiet_def)
  ultimately show ?thesis
    using assms(2) ok [OF assms(3,4), of l] ok [OF assms(3,4), of "''data''"]
    unfolding plain_driver_def insert_iff empty_iff
    by (elim disjE) (simp_all add: formatFilesystem_def Let_def)
qed

lemma formatFilesystemAt_quiet:
  assumes lib: "format_contract lib" and fmt: "formats lib fs n" "plain_driver fs" and q: "quiet w"
    and raw: "files w raw \<noteq> None" and temp: "pick_temp (files w) (temp_names w) \<noteq> None"
    and off: "0 < off" "off + n < 2 ^ 63"
  shows "\<exists>w'. formatFilesystemAt lib raw off n fs l w = (None, w')"
proof -
  obtain tmp ns where tmp: "pick_temp (files w) (temp_names w) = Some (tmp, ns)" using temp by auto
  define w1 where "w1 = w\<lparr>files := (files w)(tmp \<mapsto> empty_image), temp_names := ns\<rparr>"
  have c: "sys_create_temp w = (Inr tmp, w1)"
    using tmp q by (simp add: sys_create_temp_def quiet_def w1_def)
  have ne: "tmp \<noteq> raw" using pick_temp_fresh [OF tmp] raw by auto
  have q1: "quiet w1" "files w1 tmp \<noteq> None" using q by (simp_all add: w1_def quiet_def)
  obtain w2 where f: "formatFilesystem lib tmp n fs l w1 = (None, w2)"
    using formatFilesystem_quiet [OF fmt q1] by auto
  have o2: "only_file tmp w1 w2" by (rule formatFilesystem_only [OF lib f])
  have "fs \<noteq> FSHfsPlus" using fmt(2) by (auto simp: plain_driver_def)
  then obtain img where img: "files w2 tmp = Some img" "int (isize img) = n"
    using formatFilesystem_ok [OF lib f] by auto
  have q2: "quiet w2" "files w2 raw \<noteq> None"
    using o2 q1 raw ne by (auto simp: only_file_def quiet_def w1_def)
  have rd: "sys_read_at tmp w2 = img_read img"
    using q2(1) by (intro sys_read_at_img [OF img(1)]) (simp add: quiet_def)
  have "\<exists>w3. io_copy raw off tmp w2 = (None, w3)"
    using sys_write_at_quiet [OF q2, of off "img_bytes img 0 (isize img)"] off img
    by (auto simp: io_copy_def rd img_read_def)
  then show ?thesis
    using c f off q2 img(1) by (auto simp: formatFilesystemAt_def Let_def sys_open_def quiet_def)
qed

lemma pick_temp_some: "\<exists>t\<in>set ns. fs t = None \<Longrightarrow> pick_temp fs ns \<noteq> None"
  by (induction ns) auto

lemma temp_names_frame:
  "sys_write_at p bs off w = (r, w') \<Longrightarrow> temp_names w' = temp_names w"
  "write_regions p rs w = (e, w') \<Longrightarrow> temp_names w' = temp_names w"
  "partition_image opts w = (x, w') \<Longrightarrow> temp_names w' = temp_names w"
proof -
  have wr: "temp_names w' = temp_names w" if "sys_write_at p bs off w = (r, w')" for p bs off w r w'
    using that by (auto simp: sys_write_at_def split: option.splits if_splits)
  have rs: "temp_names w' = temp_names w" if "write_regions p rs w = (e, w')" for p rs w e w'
    using that by (induction p rs w rule: write_regions.induct)
      (auto split: option.splits prod.splits dest!: wr)
  have mb: "temp_names w' = temp_names w" if "writeMBR p s t w = (e, w')" for p s t w e w'
    using that by (auto simp: writeMBR_def dest!: wr split: sum.splits option.splits prod.splits)
  have gp: "temp_names w' = temp_names w" if "writeGPT p s t w = (e, w')" for p s t w e w'
    using that by (auto simp: writeGPT_def randomGUID_def rand_read_def Let_def dest!: rs
        split: option.splits prod.splits)
  show "sys_write_at p bs off w = (r, w') \<Longrightarrow> temp_names w' = temp_names w"
    and "write_regions p rs w = (e, w') \<Longrightarrow> temp_names w' = temp_names w"
    by (fact wr rs)+
  show "partition_image opts w = (x, w') \<Longrightarrow> temp_names w' = temp_names w"
    by (auto simp: partition_image_def Let_def dest!: mb gp split: if_splits prod.splits option.splits)
qed

text \<open>A run of \<open>createRaw\<close> whose partition step succeeds at an offset inside the file.\<close>

lemma createRaw_returns:
  assumes q: "quiet w" and size: "0 < co_SizeBytes opts" and lib: "format_contract lib"
    and part: "\<And>w2. quiet w2 \<Longrightarrow> files w2 (co_Path opts) = Some (blank (co_SizeBytes opts)) \<Longrightarrow>
      \<exists>w3. partition_image opts w2 = (Inr (off, psz), w3)"
    and off: "0 < off" "off + psz < 2 ^ 63"
    and fs: "co_Filesystem opts = FSNone \<or> formats lib (co_Filesystem opts) psz \<and>
      plain_driver (co_Filesystem opts) \<and> (\<exists>t\<in>set (temp_names w). t \<noteq> co_Path opts \<and> files w t = None)"
  shows "\<exists>w'. createRaw lib opts w = (None, w')"
proof -
  let ?p = "co_Path opts"
  define w1 where "w1 = w\<lparr>files := (files w)(?p \<mapsto> empty_image)\<rparr>"
  define w2 where "w2 = w\<lparr>files := (files w)(?p \<mapsto> blank (co_SizeBytes opts))\<rparr>"
  have c: "sys_create ?p w = (None, w1)" using q by (simp add: sys_create_def quiet_def w1_def)
  have t: "sys_truncate ?p (co_SizeBytes opts) w1 = (None, w2)"
    using q size by (simp add: sys_truncate_def quiet_def w1_def w2_def blank_def)
  have q2: "quiet w2" using q by (simp add: w2_def quiet_def)
  obtain w3 where w3: "partition_image opts w2 = (Inr (off, psz), w3)"
    using part [OF q2] by (auto simp: w2_def)
  have o: "only_file ?p w2 w3" "files w3 ?p \<noteq> None"
    using partition_image_only [OF w3] by (auto simp: w2_def)
  have q3: "quiet w3" using o(1) q2 by (simp add: only_file_def quiet_def)
  show ?thesis
  proof (cases "co_Filesystem opts = FSNone \<or> co_Filesystem opts = ''''")
    case True
    then show ?thesis using c t w3 by (auto simp: createRaw_def)
  next
    case False
    then have f: "formats lib (co_Filesystem opts) psz" "plain_driver (co_Filesystem opts)"
      and tn: "\<exists>t\<in>set (temp_names w). t \<noteq> ?p \<and> files w t = None" using fs by auto
    have "temp_names w3 = temp_names w" using temp_names_frame(3) [OF w3] by (simp add: w2_def)
    then have "pick_temp (files w3) (temp_names w3) \<noteq> None"
      using tn o(1) by (intro pick_temp_some) (auto simp: only_file_def w2_def intro!: bexI)
    from formatFilesystemAt_quiet [OF lib f q3 o(2) this off] False c t w3
    show ?thesis by (simp add: createRaw_def)
  qed
qed

lemma gpt_type_length [simp]: "length (gptPartTypeGUID fs) = 16"
  by (simp add: gptPartTypeGUID_def)

lemma gpt_type_nonzero: "gptPartTypeGUID fs \<noteq> replicate 16 0"
proof
  assume "gptPartTypeGUID fs = replicate 16 0"
  then have "hd (gptPartTypeGUID fs) = hd (replicate 16 0)" by simp
  then show False by (simp add: gptPartTypeGUID_def split: if_splits)
qed

lemma efi_part_nonzero: "replicate 8 0 \<noteq> str_bytes ''EFI PART''"
proof
  assume "replicate 8 0 = str_bytes ''EFI PART''"
  then have "hd (replicate 8 0) = hd (str_bytes ''EFI PART'')" by simp
  then show False by (simp add: str_bytes_def byte_of_def)
qed

lemma partition_image_gpt_quiet:
  assumes "quiet w" and "files w (co_Path opts) \<noteq> None" and "co_Partition opts = PartGPT"
    and S: "1069568 \<le> co_SizeBytes opts" "co_SizeBytes opts < 2 ^ 63 - 1024"
  shows "\<exists>w'. partition_image opts w = (Inr (1048576, alignDown (co_SizeBytes opts - 1065472) 4096), w')"
proof -
  let ?x = "co_SizeBytes opts - 1065472"
  have "alignDown ?x 4096 = ?x - ?x mod 4096" using S by (simp add: alignDown_def smod_pos)
  moreover have "?x mod 4096 < ?x" using S pos_mod_bound [of 4096 ?x] by linarith
  ultimately have "0 < alignDown ?x 4096" by simp
  moreover have "\<exists>w'. writeGPT (co_Path opts) (co_SizeBytes opts) (gptPartTypeGUID (co_Filesystem opts)) w = (None, w')"
    using S by (intro writeGPT_quiet [OF assms(1,2)]) auto
  ultimately show ?thesis using assms(3) S by (auto simp: partition_image_def Let_def)
qed

lemma partition_image_mbr_quiet:
  assumes "quiet w" and "files w (co_Path opts) \<noteq> None" and "co_Partition opts = PartMBR"
    and S: "1052672 \<le> co_SizeBytes opts" "co_SizeBytes opts < 2 ^ 41"
  shows "\<exists>w'. partition_image opts w = (Inr (1048576, alignDown (co_SizeBytes opts - 1048576) 4096), w')"
proof -
  let ?x = "co_SizeBytes opts - 1048576"
  have "alignDown ?x 4096 = ?x - ?x mod 4096" using S by (simp add: alignDown_def smod_pos)
  moreover have "?x mod 4096 < ?x" using S pos_mod_bound [of 4096 ?x] by linarith
  ultimately have "0 < alignDown ?x 4096" by simp
  moreover have "co_SizeBytes opts sdiv 512 = co_SizeBytes opts div 512" using S by (simp add: sdiv_pos)
  then have "2048 < u32 (co_SizeBytes opts sdiv 512)" using S by (simp add: u32_def)
  then have "\<exists>w'. writeMBR (co_Path opts) (co_SizeBytes opts) (mbrPartType (co_Filesystem opts)) w = (None, w')"
    by (rule writeMBR_quiet [OF assms(1,2)])
  ultimately show ?thesis using assms(3) S by (auto simp: partition_image_def Let_def)
qed

lemma Create_returns:
  assumes q: "quiet w" and path: "co_Path opts \<noteq> ''''" and lib: "format_contract lib"
    and raw: "co_Format opts = FormatRaw \<or> co_Format opts = ''''" and pass: "co_DmgPassphrase opts = []"
    and part: "co_Partition opts = PartGPT \<and> 1069568 \<le> S \<and> S < 2 ^ 63 - 1024 \<and> psz = alignDown (S - 1065472) 4096 \<or>
      co_Partition opts = PartMBR \<and> 1052672 \<le> S \<and> S < 2 ^ 41 \<and> psz = alignDown (S - 1048576) 4096"
    and fs: "co_Filesystem opts = FSNone \<or> formats lib (co_Filesystem opts) psz \<and>
      plain_driver (co_Filesystem opts) \<and> (\<exists>t\<in>set (temp_names w). t \<noteq> co_Path opts \<and> files w t = None)"
    and S: "S = co_SizeBytes opts"
  shows "\<exists>w'. Create dmg lib opts w = (None, w')"
proof -
  let ?o = "create_defaults opts"
  have pos: "0 < co_SizeBytes opts" using part S by auto
  have fs': "co_Filesystem ?o = FSNone \<or> formats lib (co_Filesystem ?o) psz \<and>
      plain_driver (co_Filesystem ?o) \<and> (\<exists>t\<in>set (temp_names w). t \<noteq> co_Path ?o \<and> files w t = None)"
    using fs by (auto simp: create_defaults_choices plain_driver_def)
  have le: "alignDown x 4096 \<le> x" if "0 \<le> x" "x < 2 ^ 63" for x
  proof -
    have "0 \<le> x mod 4096" "x mod 4096 \<le> x" using that by (simp_all add: zmod_le_nonneg_dividend)
    then show ?thesis using that by (simp add: alignDown_def smod_pos)
  qed
  have fit: "1048576 + psz < 2 ^ 63"
    using part le [of "S - 1065472"] le [of "S - 1048576"] by auto
  have po: "co_Partition ?o = co_Partition opts" using part by (auto simp: create_defaults_choices)
  have "\<exists>w'. createRaw lib ?o w = (None, w')"
  proof (rule createRaw_returns [OF q _ lib _ _ fit fs'])
    show "\<exists>w3. partition_image ?o w2 = (Inr (1048576, psz), w3)"
      if "quiet w2" "files w2 (co_Path ?o) = Some (blank (co_SizeBytes ?o))" for w2
      using part partition_image_gpt_quiet [of w2 ?o] partition_image_mbr_quiet [of w2 ?o] that po S
      by auto
  qed (use pos in simp_all)
  then show ?thesis
    using path pos raw pass by (auto simp: Create_def Let_def create_defaults_choices)
qed

section \<open>A concrete run\<close>

text \<open>
  A driver library and a world to run \<open>Create\<close> on: the XFS driver writes the magic number
  into an otherwise empty file and refuses a small one; no other driver is there.
\<close>

definition xfs_image :: "int \<Rightarrow> image" where
  "xfs_image n = \<lparr>isize = nat n, icont = (\<lambda>i. if i < 4 then str_bytes ''XFSB'' ! i else 0)\<rparr>"

definition xfs_lib :: format_lib where
  "xfs_lib =
     \<lparr>formatFS = (\<lambda>fs p n l w. if fs = FSXfs \<and> 262144 \<le> n then (None, w\<lparr>files := (files w)(p \<mapsto> xfs_image n)\<rparr>)
                    else (Some (Lib ''format''), w)),
      closeFormatted = (\<lambda>p w. (None, w)),
      fdeFormat = (\<lambda>p k w. (None, w)), fdeClose = (\<lambda>p w. (None, w))\<rparr>"

definition idle_dmg :: dmg_lib where
  "idle_dmg =
     \<lparr>isUDIF = (\<lambda>p w. False), unpackToTemp = (\<lambda>p w. (Inl (Lib ''unpack''), w)),
      packFromTemp = (\<lambda>t p w. (None, w)), wrapRaw = (\<lambda>p w. (None, w)),
      convertUDIF = (\<lambda>a b f w. (Some (Lib ''convert''), w)), resizeUDRW = (\<lambda>p n w. (None, w)),
      inPlaceWritable = (\<lambda>p w. Inr False), refreshChecksums = (\<lambda>p w. (None, w))\<rparr>"

definition demo_world :: world where
  "demo_world =
     \<lparr>files = (\<lambda>p. None), fault = (\<lambda>s p x. None), temp_names = [''/tmp/diskimage-1''],
      entropy = (\<lambda>i. 7), drawn = 0, stdout = []\<rparr>"

definition demo_options :: "PartitionScheme \<Rightarrow> FilesystemType \<Rightarrow> CreateOptions" where
  "demo_options part fs =
     \<lparr>co_Path = ''disk.img'', co_SizeBytes = 4194304, co_Format = '''', co_Partition = part,
      co_Filesystem = fs, co_Label = '''', co_DmgUDIFFormat = '''', co_DmgPassphrase = []\<rparr>"

lemma str_bytes_XFSB: "str_bytes ''XFSB'' = [0x58, 0x46, 0x53, 0x42]"
  by (simp add: str_bytes_def byte_of_def)

lemma find_magic_xfs_image: "262144 \<le> n \<Longrightarrow> find_magic (xfs_image n) 0 = Some FSXfs"
  by (simp add: find_magic_def fs_magics_def bytes_at_def img_bytes_def xfs_image_def str_bytes_def
      byte_of_def upt_rec_numeral) (intro conjI impI exI [of _ True]; arith)

lemma xfs_lib_contract: "format_contract xfs_lib"
  using find_magic_xfs_image
  by (auto simp: format_contract_def xfs_lib_def only_file_def xfs_image_def split: if_splits)

lemma quiet_demo_world: "quiet demo_world"
  by (simp add: quiet_def demo_world_def)

lemma demo_create:
  assumes "part = PartGPT \<or> part = PartMBR"
  shows "Create idle_dmg xfs_lib (demo_options part FSXfs) demo_world =
    (None, snd (Create idle_dmg xfs_lib (demo_options part FSXfs) demo_world))"
proof -
  have "\<exists>w'. Create idle_dmg xfs_lib (demo_options part FSXfs) demo_world = (None, w')"
    by (rule Create_returns [OF quiet_demo_world _ xfs_lib_contract, where S = 4194304
          and psz = "if part = PartGPT then alignDown 3128832 4096 else alignDown 3145728 4096"])
      (use assms in \<open>auto simp: demo_options_def demo_world_def plain_driver_def formats_def xfs_lib_def
        alignDown_def smod_pos\<close>)
  then show ?thesis by (metis snd_conv)
qed

lemma Create_gpt_detect:
  assumes "Create dmg lib opts w = (None, w')"
    and "co_Format opts = FormatRaw \<or> co_Format opts = ''''" and "co_Partition opts = PartGPT"
    and "1331712 \<le> co_SizeBytes opts" and "co_SizeBytes opts < 2 ^ 63" and "format_contract lib" and "quiet w"
    and "co_Filesystem opts \<notin> {'''', FSNone, FSHfsPlus}" and "\<not> isUDIF dmg (co_Path opts) w'"
  shows "DetectFilesystem dmg (co_Path opts) p w' =
    (if p = 0 then Inr (co_Filesystem opts)
     else Inl (Wrap ''detect filesystem'' (Msg ''GPT partition index not found'')), w')"
proof -
  let ?S = "co_SizeBytes opts" and ?fs = "co_Filesystem opts"
  have fs: "co_Filesystem (create_defaults opts) = ?fs" "?fs \<noteq> FSHfsPlus"
    using assms(8) by (auto simp: create_defaults_choices)
  have "0 \<le> (?S - 1065472) mod 4096" "(?S - 1065472) mod 4096 < 4096" by simp_all
  then have psz: "262144 \<le> alignDown (?S - 1065472) 4096"
    using assms(4,5) by (simp add: alignDown_def smod_pos)
  from Create_gpt_image [OF assms(1-3,5-7) fs(2)] obtain d g im where
    im: "files w' (co_Path opts) = Some im" "gpt_laid_out (nat ?S div 512) (gptPartTypeGUID ?fs) d g im"
      "2082 \<le> nat ?S div 512" "fault w' = fault w" "find_magic im 1048576 = Some ?fs"
    using psz assms(8) unfolding fs(1) by auto
  have ty: "gptPartTypeGUID ?fs \<noteq> replicate 16 0" by (rule gpt_type_nonzero)
  have det: "detectPartOffset (img_read im) p =
      (if p = 0 then Inr 1048576 else Inl (Msg ''GPT partition index not found''))"
    by (rule detectGPTOffset_written [OF im(2) _ ty]) (use im(3) in simp)
  have q: "quiet w'" using assms(7) im(4) by (simp add: quiet_def)
  show ?thesis
  proof (cases "p = 0")
    case True
    then show ?thesis
      using detect_image [OF im(1) q assms(9), of 0 1048576] det im(5) by simp
  next
    case False
    have "sys_read_at (co_Path opts) w' = img_read im"
      using im(1) q by (intro sys_read_at_img) (auto simp: quiet_def)
    then show ?thesis
      using False det q im(1) assms(9)
      by (simp add: DetectFilesystem_def sys_open_def quiet_def detect_on_open_file_def Let_def)
  qed
qed

section \<open>Properties\<close>



text \<open>C2: What \<open>Create\<close> put into the first partition of a GPT image, \<open>DetectFilesystem\<close> finds
  there, and every other partition index is reported as missing.\<close>

theorem create_gpt_then_detect:
  assumes "Create dmg lib opts w = (None, w')"
    and "co_Format opts = FormatRaw \<or> co_Format opts = ''''" and "co_Partition opts = PartGPT"
    and "1331712 \<le> co_SizeBytes opts" and "co_SizeBytes opts < 2 ^ 63" and "format_contract lib" and "quiet w"
    and "co_Filesystem opts \<notin> {'''', FSNone, FSHfsPlus}" and "\<not> isUDIF dmg (co_Path opts) w'"
  shows "DetectFilesystem dmg (co_Path opts) p w' =
    (if p = 0 then Inr (co_Filesystem opts)
     else Inl (Wrap ''detect filesystem'' (Msg ''GPT partition index not found'')), w')"
  by (rule Create_gpt_detect [OF assms])

theorem create_gpt_then_detect_witness:
  "fst (DetectFilesystem idle_dmg ''disk.img'' 0
     (snd (Create idle_dmg xfs_lib (demo_options PartGPT FSXfs) demo_world))) = Inr FSXfs"
  using create_gpt_then_detect [OF demo_create _ _ _ _ xfs_lib_contract quiet_demo_world, of PartGPT 0]
  by (simp add: demo_options_def idle_dmg_def)

text \<open>C3: The same round trip for an MBR image and its first partition.\<close>

theorem create_mbr_then_detect:
  assumes "Create dmg lib opts w = (None, w')"
    and "co_Format opts = FormatRaw \<or> co_Format opts = ''''" and "co_Partition opts = PartMBR"
    and "1314816 \<le> co_SizeBytes opts" and "co_SizeBytes opts < 2 ^ 63" and "format_contract lib" and "quiet w"
    and "co_Filesystem opts \<notin> {'''', FSNone, FSHfsPlus}" and "\<not> isUDIF dmg (co_Path opts) w'"
  shows "DetectFilesystem dmg (co_Path opts) 0 w' = (Inr (co_Filesystem opts), w')"
proof -
  let ?S = "co_SizeBytes opts" and ?fs = "co_Filesystem opts"
  have fs: "co_Filesystem (create_defaults opts) = ?fs" "?fs \<noteq> FSHfsPlus"
    using assms(8) by (auto simp: create_defaults_choices)
  have "0 \<le> (?S - 1048576) mod 4096" "(?S - 1048576) mod 4096 < 4096" by simp_all
  then have psz: "262144 \<le> alignDown (?S - 1048576) 4096"
    using assms(4,5) by (simp add: alignDown_def smod_pos)
  from Create_mbr_image [OF assms(1-3,5-7) fs(2)] obtain mbr im where
    im: "files w' (co_Path opts) = Some im" "int (isize im) = ?S"
      "mbr_sector ?S (mbrPartType ?fs) = Inr mbr" "img_bytes im 0 512 = mbr"
      "img_bytes im 512 8 = replicate 8 0" "fault w' = fault w" "find_magic im 1048576 = Some ?fs"
    using psz assms(8) unfolding fs(1) by auto
  have "detectPartOffset (img_read im) 0 = Inr (int 1048576)"
    using detectMBROffset_written [OF im(3,4), of 0] im(2,5) assms(4)
    by (simp add: efi_part_nonzero)
  moreover have "quiet w'" using assms(7) im(6) by (simp add: quiet_def)
  ultimately show ?thesis using detect_image [OF im(1) _ assms(9), of 0 1048576] im(7) by simp
qed

theorem create_mbr_then_detect_witness:
  "fst (DetectFilesystem idle_dmg ''disk.img'' 0
     (snd (Create idle_dmg xfs_lib (demo_options PartMBR FSXfs) demo_world))) = Inr FSXfs"
  using create_mbr_then_detect [OF demo_create _ _ _ _ xfs_lib_contract quiet_demo_world, of PartMBR]
  by (simp add: demo_options_def idle_dmg_def)



text \<open>C15: Options that \<open>Create\<close> rejects are rejected before anything is touched: the world is
  returned as it was, with a message of this package.\<close>

theorem create_rejects:
  assumes "co_Path opts = '''' \<or> co_SizeBytes opts \<le> 0 \<or>
    co_Format opts \<notin> {'''', FormatRaw, FormatDmg} \<or>
    co_Format opts = FormatDmg \<and> co_Filesystem opts \<notin> {'''', FSNone, FSApfs, FSHfsPlus, FSFat32, FSExFAT} \<or>
    co_DmgPassphrase opts \<noteq> [] \<and> \<not> (co_Format opts = FormatDmg \<and> co_Filesystem opts = FSApfs)"
  shows "\<exists>m. Create dmg lib opts w = (Some (Msg m), w)"
  using assms
  by (auto simp: Create_def Let_def create_defaults_choices IsDmgSupportedFilesystem_def
      is_member_loop_iff DmgSupportedFilesystems_def)

theorem create_rejects_witness:
  "\<exists>m. Create idle_dmg xfs_lib ((demo_options PartGPT FSExt4)\<lparr>co_Format := FormatDmg\<rparr>) demo_world
     = (Some (Msg m), demo_world)"
  by (rule create_rejects) (simp add: demo_options_def)



end
