(* ===== verification/Block_Device.thy ===== *)
theory Block_Device
  imports Create_Image
begin

text \<open>
  luks_device.go, apfs_device.go, dmg_block_device.go and label.go: block devices over image
  files, the device of an uncompressed UDIF image with its trailer, and the adapter that
  hands a device to the ext4 driver.

  The QCOW2 layer, the decrypting devices of \<open>go-fde\<close> and the ext4 driver are outside the
  repository. A driver is a computation that talks to its device: a tree of reads, writes,
  syncs and size queries, of which the model assumes nothing.
\<close>

section \<open>Closing and syncing files\<close>

definition sys_sync :: "string \<Rightarrow> world \<Rightarrow> error option" where
  "sys_sync path w = (if fault w S_sync path 0 \<noteq> None then Some (Sys ''sync'') else None)"

definition sys_close :: "string \<Rightarrow> world \<Rightarrow> error option" where
  "sys_close path w = (if fault w S_close path 0 \<noteq> None then Some (Sys ''close'') else None)"

section \<open>Libraries\<close>

record qcow2_lib =
  isQCOW2File :: "string \<Rightarrow> world \<Rightarrow> bool"
  q_open :: "string \<Rightarrow> world \<Rightarrow> (error + nat) \<times> world"
  q_read :: "nat \<Rightarrow> world \<Rightarrow> reader"
  q_write :: "nat \<Rightarrow> bytes \<Rightarrow> int \<Rightarrow> world \<Rightarrow> (nat \<times> error option) \<times> world"
  q_size :: "nat \<Rightarrow> world \<Rightarrow> int \<times> error option"
  q_sync :: "nat \<Rightarrow> world \<Rightarrow> error option \<times> world"
  q_close :: "nat \<Rightarrow> world \<Rightarrow> error option \<times> world"

record fde_lib =
  openLUKS :: "string \<Rightarrow> bytes \<Rightarrow> world \<Rightarrow> (error + nat) \<times> world"
  openLUKSFrom :: "nat \<Rightarrow> bytes \<Rightarrow> world \<Rightarrow> (error + nat) \<times> world"
  openAPFS :: "string \<Rightarrow> bytes \<Rightarrow> world \<Rightarrow> (error + nat) \<times> world"
  openAPFSFrom :: "nat \<Rightarrow> bytes \<Rightarrow> world \<Rightarrow> (error + nat) \<times> world"

section \<open>The raw device\<close>

text \<open>\<open>rawFileDevice\<close> forwards to its file; a failing \<open>Stat\<close> makes its size 0.\<close>

definition raw_read :: "string \<Rightarrow> world \<Rightarrow> reader" where
  "raw_read f w off n = sys_read_at f w off n"

definition raw_write :: "string \<Rightarrow> bytes \<Rightarrow> int \<Rightarrow> world \<Rightarrow> (nat \<times> error option) \<times> world" where
  "raw_write f p off w = sys_write_at f p off w"

definition raw_size :: "string \<Rightarrow> world \<Rightarrow> int" where
  "raw_size f w = (case sys_stat_size f w of Inl e \<Rightarrow> 0 | Inr n \<Rightarrow> n)"

section \<open>The device of an uncompressed UDIF image\<close>

definition dmgKolyMagic :: int where "dmgKolyMagic = 0x6B6F6C79"
definition dmgKolyBlockSize :: int where [simp]: "dmgKolyBlockSize = 512"
definition dmgSectorSize :: int where [simp]: "dmgSectorSize = 512"

record udifRawBlockDevice =
  ud_path :: string
  kolyOffset :: int
  kolyBuf :: bytes
  dataForkLength :: int
  dirty :: bool

definition udif_read :: "udifRawBlockDevice \<Rightarrow> world \<Rightarrow> reader" where
  "udif_read d w off n =
     (if off < 0 \<or> off \<ge> dataForkLength d then ([], Some EOF)
      else
        (let mx = i64 (dataForkLength d - off);
             n = (if int n > mx then nat mx else n)
         in sys_read_at (ud_path d) w off n))"

definition udif_write ::
    "udifRawBlockDevice \<Rightarrow> bytes \<Rightarrow> int \<Rightarrow> world \<Rightarrow> (nat \<times> error option) \<times> udifRawBlockDevice \<times> world" where
  "udif_write d p off w =
     (if off < 0 then ((0, Some (Msg ''dmg: negative offset'')), d, w)
      else if i64 (off + int (length p)) > dataForkLength d then
        ((0, Some (Msg ''dmg: write past data fork'')), d, w)
      else
        (case sys_write_at (ud_path d) p off w of
           ((n, err), w1) \<Rightarrow>
             ((n, err), (if n > 0 then d\<lparr>dirty := True\<rparr> else d), w1)))"

definition udif_size :: "udifRawBlockDevice \<Rightarrow> int" where
  "udif_size d = dataForkLength d"

definition udif_sync :: "udifRawBlockDevice \<Rightarrow> world \<Rightarrow> error option" where
  "udif_sync d w = sys_sync (ud_path d) w"

definition udif_close :: "dmg_lib \<Rightarrow> udifRawBlockDevice \<Rightarrow> world \<Rightarrow> error option \<times> world" where
  "udif_close dmg d w =
     (if \<not> dirty d then (sys_close (ud_path d) w, w)
      else case sys_sync (ud_path d) w of
             Some e \<Rightarrow> (Some e, w)
           | None \<Rightarrow>
               (case sys_close (ud_path d) w of
                  Some e \<Rightarrow> (Some e, w)
                | None \<Rightarrow>
                    (case refreshChecksums dmg (ud_path d) w of
                       (Some e, w1) \<Rightarrow> (Some (Wrap ''dmg'' e), w1)
                     | (None, w1) \<Rightarrow> (None, w1))))"

definition errUnsupportedDMGVariant :: error where
  "errUnsupportedDMGVariant =
     Msg ''dmg: only an image with an uncompressed data fork can be written in place''"

definition openDMGBlockDevice ::
    "dmg_lib \<Rightarrow> string \<Rightarrow> world \<Rightarrow> error + udifRawBlockDevice" where
  "openDMGBlockDevice dmg path w =
     (case inPlaceWritable dmg path w of
        Inl e \<Rightarrow> Inl (Wrap ''dmg'' e)
      | Inr inPlace \<Rightarrow>
          if \<not> inPlace then Inl (Wrap ''stores its sectors compressed or elided'' errUnsupportedDMGVariant)
          else
            (case sys_open path w of
               Some e \<Rightarrow> Inl (Wrap ''dmg: open'' e)
             | None \<Rightarrow>
                 (case sys_stat_size path w of
                    Inl e \<Rightarrow> Inl (Wrap ''dmg: stat'' e)
                  | Inr sz \<Rightarrow>
                      if sz < dmgKolyBlockSize then Inl (Msg ''dmg: file too small for koly block'')
                      else
                        (let kolyOff = sz - dmgKolyBlockSize in
                         case sys_read_at path w kolyOff 512 of
                           (buf, Some e) \<Rightarrow> Inl (Wrap ''dmg: read koly'' e)
                         | (buf, None) \<Rightarrow>
                             if be_val (chunk 0 4 buf) \<noteq> dmgKolyMagic then
                               Inl (Msg ''dmg: bad koly magic (corrupt or non-UDIF file)'')
                             else
                               (let forkOffset = be_val (chunk 24 8 buf);
                                    forkLength = be_val (chunk 32 8 buf);
                                    sectorCount = be_val (chunk 492 8 buf)
                                in if forkOffset \<noteq> 0 then
                                     Inl (Msg ''dmg: an image with a non-zero dataForkOffset is not supported'')
                                   else if forkLength \<noteq> u64 (sectorCount * dmgSectorSize) then
                                     Inl (Msg ''dmg: dataForkLength disagrees with sectorCount*512'')
                                   else
                                     Inr \<lparr>ud_path = path, kolyOffset = kolyOff, kolyBuf = buf,
                                          dataForkLength = i64 forkLength, dirty = False\<rparr>)))))"

section \<open>Block devices\<close>

datatype block_dev =
    RawDev string
  | UdifDev udifRawBlockDevice
  | Qcow2Dev nat

definition OpenBlockDevice ::
    "dmg_lib \<Rightarrow> qcow2_lib \<Rightarrow> string \<Rightarrow> world \<Rightarrow> (error + block_dev) \<times> world" where
  "OpenBlockDevice dmg q path w =
     (if isQCOW2File q path w then
        (case q_open q path w of
           (Inl e, w1) \<Rightarrow> (Inl (Wrap ''diskimage: open qcow2 block device'' e), w1)
         | (Inr h, w1) \<Rightarrow> (Inr (Qcow2Dev h), w1))
      else if isUDIF dmg path w then
        (case openDMGBlockDevice dmg path w of Inl e \<Rightarrow> (Inl e, w) | Inr d \<Rightarrow> (Inr (UdifDev d), w))
      else
        (case sys_open path w of
           Some e \<Rightarrow> (Inl (Wrap ''diskimage: open raw block device'' e), w)
         | None \<Rightarrow> (Inr (RawDev path), w)))"

text \<open>The devices of \<open>go-fde\<close> are handles of that library.\<close>

definition OpenLUKSBlockDevice ::
    "qcow2_lib \<Rightarrow> fde_lib \<Rightarrow> string \<Rightarrow> bytes \<Rightarrow> world \<Rightarrow> (error + nat) \<times> world" where
  "OpenLUKSBlockDevice q fde path passphrase w =
     (if isQCOW2File q path w then
        (case q_open q path w of
           (Inl e, w1) \<Rightarrow> (Inl (Wrap ''diskimage: open qcow2 for LUKS'' e), w1)
         | (Inr qdev, w1) \<Rightarrow>
             (case openLUKSFrom fde qdev passphrase w1 of
                (Inl e, w2) \<Rightarrow>
                  (Inl (Wrap ''diskimage: unlock LUKS over qcow2'' e), snd (q_close q qdev w2))
              | (Inr dev, w2) \<Rightarrow> (Inr dev, w2)))
      else
        (case openLUKS fde path passphrase w of
           (Inl e, w1) \<Rightarrow> (Inl (Wrap ''diskimage: unlock LUKS raw device'' e), w1)
         | (Inr dev, w1) \<Rightarrow> (Inr dev, w1)))"

definition openAPFSRawBlockDevice ::
    "fde_lib \<Rightarrow> string \<Rightarrow> bytes \<Rightarrow> world \<Rightarrow> (error + nat) \<times> world" where
  "openAPFSRawBlockDevice fde path passphrase w =
     (case openAPFS fde path passphrase w of
        (Inl e, w1) \<Rightarrow> (Inl (Wrap ''diskimage: unlock APFS raw device'' e), w1)
      | (Inr dev, w1) \<Rightarrow> (Inr dev, w1))"

definition openAPFSQCOW2BlockDevice ::
    "qcow2_lib \<Rightarrow> fde_lib \<Rightarrow> string \<Rightarrow> bytes \<Rightarrow> world \<Rightarrow> (error + nat) \<times> world" where
  "openAPFSQCOW2BlockDevice q fde path passphrase w =
     (case q_open q path w of
        (Inl e, w1) \<Rightarrow> (Inl (Wrap ''diskimage: open qcow2 for APFS'' e), w1)
      | (Inr qdev, w1) \<Rightarrow>
          (case openAPFSFrom fde qdev passphrase w1 of
             (Inl e, w2) \<Rightarrow>
               (Inl (Wrap ''diskimage: unlock APFS over qcow2'' e), snd (q_close q qdev w2))
           | (Inr dev, w2) \<Rightarrow> (Inr dev, w2)))"

definition OpenAPFSBlockDevice ::
    "qcow2_lib \<Rightarrow> fde_lib \<Rightarrow> string \<Rightarrow> bytes \<Rightarrow> world \<Rightarrow> (error + nat) \<times> world" where
  "OpenAPFSBlockDevice q fde path passphrase w =
     (if isQCOW2File q path w then openAPFSQCOW2BlockDevice q fde path passphrase w
      else openAPFSRawBlockDevice fde path passphrase w)"

text \<open>
  The operations of a device that \<open>OpenBlockDevice\<close> returned.
\<close>

fun dev_read :: "qcow2_lib \<Rightarrow> block_dev \<Rightarrow> world \<Rightarrow> reader" where
  "dev_read q (RawDev f) w off n = raw_read f w off n"
| "dev_read q (UdifDev d) w off n = udif_read d w off n"
| "dev_read q (Qcow2Dev h) w off n = q_read q h w off n"

fun dev_write ::
    "qcow2_lib \<Rightarrow> block_dev \<Rightarrow> bytes \<Rightarrow> int \<Rightarrow> world \<Rightarrow> (nat \<times> error option) \<times> block_dev \<times> world" where
  "dev_write q (RawDev f) p off w = (case raw_write f p off w of (r, w1) \<Rightarrow> (r, RawDev f, w1))"
| "dev_write q (UdifDev d) p off w =
     (case udif_write d p off w of (r, d1, w1) \<Rightarrow> (r, UdifDev d1, w1))"
| "dev_write q (Qcow2Dev h) p off w =
     (case q_write q h p off w of (r, w1) \<Rightarrow> (r, Qcow2Dev h, w1))"

fun dev_size :: "qcow2_lib \<Rightarrow> block_dev \<Rightarrow> world \<Rightarrow> int" where
  "dev_size q (RawDev f) w = raw_size f w"
| "dev_size q (UdifDev d) w = udif_size d"
| "dev_size q (Qcow2Dev h) w = fst (q_size q h w)"

fun dev_sync :: "qcow2_lib \<Rightarrow> block_dev \<Rightarrow> world \<Rightarrow> error option \<times> world" where
  "dev_sync q (RawDev f) w = (sys_sync f w, w)"
| "dev_sync q (UdifDev d) w = (udif_sync d w, w)"
| "dev_sync q (Qcow2Dev h) w = q_sync q h w"

fun dev_close :: "dmg_lib \<Rightarrow> qcow2_lib \<Rightarrow> block_dev \<Rightarrow> world \<Rightarrow> error option \<times> world" where
  "dev_close dmg q (RawDev f) w = (sys_close f w, w)"
| "dev_close dmg q (UdifDev d) w = udif_close dmg d w"
| "dev_close dmg q (Qcow2Dev h) w = q_close q h w"

section \<open>The adapter and the ext4 label\<close>

text \<open>A computation of a driver, and its run on a device through \<open>ext4Adapter\<close>.\<close>

datatype 'a driver =
    Ret 'a
  | ReadOp int nat "bytes \<times> error option \<Rightarrow> 'a driver"
  | WriteOp bytes int "nat \<times> error option \<Rightarrow> 'a driver"
  | SyncOp "error option \<Rightarrow> 'a driver"
  | SizeOp "int \<Rightarrow> 'a driver"
  | TruncateOp int "error option \<Rightarrow> 'a driver"
  | CloseOp "error option \<Rightarrow> 'a driver"

primrec ext4Adapter :: "qcow2_lib \<Rightarrow> 'a driver \<Rightarrow> block_dev \<Rightarrow> world \<Rightarrow> 'a \<times> block_dev \<times> world" where
  "ext4Adapter q (Ret a) = (\<lambda>dev w. (a, dev, w))"
| "ext4Adapter q (ReadOp off n k) =
     (\<lambda>dev w. (\<lambda>r. ext4Adapter q (k r)) (dev_read q dev w off n) dev w)"
| "ext4Adapter q (WriteOp p off k) =
     (\<lambda>dev w. case dev_write q dev p off w of (r, dev1, w1) \<Rightarrow> (\<lambda>r. ext4Adapter q (k r)) r dev1 w1)"
| "ext4Adapter q (SyncOp k) =
     (\<lambda>dev w. case dev_sync q dev w of (r, w1) \<Rightarrow> (\<lambda>r. ext4Adapter q (k r)) r dev w1)"
| "ext4Adapter q (SizeOp k) =
     (\<lambda>dev w. (\<lambda>r. ext4Adapter q (k r)) (dev_size q dev w) dev w)"
| "ext4Adapter q (TruncateOp n k) =
     (\<lambda>dev w. (\<lambda>r. ext4Adapter q (k r)) (Some (Msg ''ext4Adapter: Truncate not supported'')) dev w)"
| "ext4Adapter q (CloseOp k) = (\<lambda>dev w. (\<lambda>r. ext4Adapter q (k r)) None dev w)"

record ext4_lib =
  e4_open :: "int \<Rightarrow> (error + nat) driver"
  e4_labeller :: "nat \<Rightarrow> bool"
  e4_setLabel :: "nat \<Rightarrow> string \<Rightarrow> (error option) driver"
  e4_label :: "nat \<Rightarrow> string driver"
  e4_close :: "nat \<Rightarrow> (error option) driver"

text \<open>
  The deferred calls run in reverse order, the driver's \<open>Close\<close> before the device's, and
  their results are dropped.
\<close>

definition close_label_handles ::
    "dmg_lib \<Rightarrow> qcow2_lib \<Rightarrow> ext4_lib \<Rightarrow> nat option \<Rightarrow> block_dev \<Rightarrow> world \<Rightarrow> world" where
  "close_label_handles dmg q e4 fs dev w =
     (case fs of
        None \<Rightarrow> snd (dev_close dmg q dev w)
      | Some h \<Rightarrow>
          (case ext4Adapter q (e4_close e4 h) dev w of
             (r, dev1, w1) \<Rightarrow> snd (dev_close dmg q dev1 w1)))"

definition SetExt4Label ::
    "dmg_lib \<Rightarrow> qcow2_lib \<Rightarrow> ext4_lib \<Rightarrow> string \<Rightarrow> int \<Rightarrow> string \<Rightarrow> world \<Rightarrow> error option \<times> world" where
  "SetExt4Label dmg q e4 imagePath partIndex label w =
     (case OpenBlockDevice dmg q imagePath w of
        (Inl e, w1) \<Rightarrow> (Some (Wrap ''diskimage: open block device'' e), w1)
      | (Inr dev, w1) \<Rightarrow>
          (case ext4Adapter q (e4_open e4 partIndex) dev w1 of
             (Inl e, dev2, w2) \<Rightarrow>
               (Some (Wrap ''diskimage: open ext4'' e), close_label_handles dmg q e4 None dev2 w2)
           | (Inr fs, dev2, w2) \<Rightarrow>
               if \<not> e4_labeller e4 fs then
                 (Some (Msg ''diskimage: ext4 filesystem does not implement Labeller (driver too old?)''),
                  close_label_handles dmg q e4 (Some fs) dev2 w2)
               else
                 (case ext4Adapter q (e4_setLabel e4 fs label) dev2 w2 of
                    (Some e, dev3, w3) \<Rightarrow>
                      (Some (Wrap ''diskimage: set label'' e), close_label_handles dmg q e4 (Some fs) dev3 w3)
                  | (None, dev3, w3) \<Rightarrow> (None, close_label_handles dmg q e4 (Some fs) dev3 w3))))"

definition Ext4Label ::
    "dmg_lib \<Rightarrow> qcow2_lib \<Rightarrow> ext4_lib \<Rightarrow> string \<Rightarrow> int \<Rightarrow> world \<Rightarrow> (error + string) \<times> world" where
  "Ext4Label dmg q e4 imagePath partIndex w =
     (case OpenBlockDevice dmg q imagePath w of
        (Inl e, w1) \<Rightarrow> (Inl (Wrap ''diskimage: open block device'' e), w1)
      | (Inr dev, w1) \<Rightarrow>
          (case ext4Adapter q (e4_open e4 partIndex) dev w1 of
             (Inl e, dev2, w2) \<Rightarrow>
               (Inl (Wrap ''diskimage: open ext4'' e), close_label_handles dmg q e4 None dev2 w2)
           | (Inr fs, dev2, w2) \<Rightarrow>
               if \<not> e4_labeller e4 fs then
                 (Inl (Msg ''diskimage: ext4 filesystem does not implement Labeller''),
                  close_label_handles dmg q e4 (Some fs) dev2 w2)
               else
                 (case ext4Adapter q (e4_label e4 fs) dev2 w2 of
                    (s, dev3, w3) \<Rightarrow> (Inr s, close_label_handles dmg q e4 (Some fs) dev3 w3))))"

section \<open>The contract of a device\<close>

text \<open>
  What the clients of a block device rely on: within its bounds it is an array of bytes. An
  operation inside the bounds that reports no error reads what is there, or stores the
  whole buffer and changes nothing else.
\<close>

locale block_device =
  fixes inv :: "'d \<Rightarrow> world \<Rightarrow> bool"
    and rd :: "'d \<Rightarrow> world \<Rightarrow> reader"
    and wr :: "'d \<Rightarrow> bytes \<Rightarrow> int \<Rightarrow> world \<Rightarrow> (nat \<times> error option) \<times> 'd \<times> world"
    and len :: "'d \<Rightarrow> world \<Rightarrow> nat"
    and view :: "'d \<Rightarrow> world \<Rightarrow> nat \<Rightarrow> byte"
  assumes read_law:
      "inv d w \<Longrightarrow> 0 < n \<Longrightarrow> off + n \<le> len d w \<Longrightarrow> snd (rd d w (int off) n) = None \<Longrightarrow>
       fst (rd d w (int off) n) = map (view d w) [off..<off + n]"
    and write_law:
      "inv d w \<Longrightarrow> off + length p \<le> len d w \<Longrightarrow> wr d p (int off) w = ((k, None), d', w') \<Longrightarrow>
       inv d' w' \<and> len d' w' = len d w \<and> k = length p \<and>
       (\<forall>i. view d' w' i = (if off \<le> i \<and> i < off + length p then p ! (i - off) else view d w i))"
begin

lemma read_after_write:
  assumes "inv d w" and "off + length p \<le> len d w" and "p \<noteq> []"
    and "wr d p (int off) w = ((k, None), d', w')" and "snd (rd d' w' (int off) (length p)) = None"
  shows "fst (rd d' w' (int off) (length p)) = p"
proof -
  note W = write_law [OF assms(1,2,4)]
  then have "fst (rd d' w' (int off) (length p)) = map (view d' w') [off..<off + length p]"
    using assms(2,3,5) by (intro read_law) auto
  also have "\<dots> = p" by (rule nth_equalityI) (auto simp: W)
  finally show ?thesis .
qed

text \<open>A sequence of writes, and its effect on the array of bytes.\<close>

fun writes :: "(nat \<times> bytes) list \<Rightarrow> 'd \<Rightarrow> world \<Rightarrow> ('d \<times> world) option" where
  "writes [] d w = Some (d, w)"
| "writes ((off, p) # ps) d w =
     (case wr d p (int off) w of
        ((k, None), d', w') \<Rightarrow> writes ps d' w'
      | ((k, Some e), d', w') \<Rightarrow> None)"

lemma writes_refine:
  assumes "inv d w" and "list_all (\<lambda>(off, p). off + length p \<le> len d w) ps"
    and "writes ps d w = Some (d', w')" and "map (view d w) [0..<len d w] = bs"
  shows "map (view d' w') [0..<len d' w'] = foldl (\<lambda>b (off, p). put off p b) bs ps \<and>
    inv d' w' \<and> len d' w' = len d w"
  using assms
proof (induction ps d w arbitrary: bs rule: writes.induct)
  case (1 d w)
  then show ?case by simp
next
  case (2 off p ps d w)
  from "2.prems"(3) obtain k d1 w1 where step: "wr d p (int off) w = ((k, None), d1, w1)"
      and rest: "writes ps d1 w1 = Some (d', w')"
    by (auto split: prod.splits option.splits)
  have fit: "off + length p \<le> len d w" using "2.prems"(2) by simp
  note W = write_law [OF "2.prems"(1) fit step]
  have bs1: "map (view d1 w1) [0..<len d1 w1] = put off p bs"
    using W fit "2.prems"(4) [symmetric] by (intro nth_equalityI) (auto simp: nth_put)
  have all1: "list_all (\<lambda>(off, p). off + length p \<le> len d1 w1) ps"
    using W "2.prems"(2) by simp
  show ?case
    using "2.IH" [OF step [symmetric] refl refl refl _ all1 rest bs1] W by auto
qed

end

text \<open>The raw device: the file it names.\<close>

definition raw_view :: "string \<Rightarrow> world \<Rightarrow> nat \<Rightarrow> byte" where
  "raw_view f w i = (case files w f of None \<Rightarrow> 0 | Some img \<Rightarrow> icont img i)"

definition raw_len :: "string \<Rightarrow> world \<Rightarrow> nat" where
  "raw_len f w = (case files w f of None \<Rightarrow> 0 | Some img \<Rightarrow> isize img)"

lemma sys_read_at_bytes:
  assumes "0 < n" and "off + n \<le> raw_len f w" and "snd (sys_read_at f w (int off) n) = None"
  shows "fst (sys_read_at f w (int off) n) = map (raw_view f w) [off..<off + n]"
proof -
  obtain img where img: "files w f = Some img" "off + n \<le> isize img"
    using assms(1,2) by (auto simp: raw_len_def split: option.splits)
  have "sys_read_at f w (int off) n = img_read img (int off) n"
    using assms(3) img(1) by (simp add: sys_read_at_def split: option.splits)
  then show ?thesis
    using img by (simp add: img_read_inside img_bytes_def raw_view_def cong: map_cong)
qed

lemma sys_write_at_view:
  assumes "sys_write_at f p (int off) w = ((k, None), w')" and "off + length p \<le> raw_len f w"
  shows "raw_len f w' = raw_len f w \<and> k = length p \<and>
    (\<forall>i. raw_view f w' i = (if off \<le> i \<and> i < off + length p then p ! (i - off) else raw_view f w i))"
  using sys_write_at_success [OF assms(1)] assms(2)
  by (auto simp: raw_len_def raw_view_def icont_img_write)

interpretation raw: block_device "\<lambda>f w. True" raw_read "\<lambda>f p off w. case raw_write f p off w of (r, w1) \<Rightarrow> (r, f, w1)"
    raw_len raw_view
proof
  fix d w n off
  assume "0 < n" "off + n \<le> raw_len d w" "snd (raw_read d w (int off) n) = None"
  then show "fst (raw_read d w (int off) n) = map (raw_view d w) [off..<off + n]"
    using sys_read_at_bytes by (simp add: raw_read_def)
next
  fix d w off p k d' w'
  assume "off + length p \<le> raw_len d w"
    and "(case raw_write d p (int off) w of (r, w1) \<Rightarrow> (r, d, w1)) = ((k, None), d', w')"
  then show "True \<and> raw_len d' w' = raw_len d w \<and> k = length p \<and>
      (\<forall>i. raw_view d' w' i = (if off \<le> i \<and> i < off + length p then p ! (i - off) else raw_view d w i))"
    using sys_write_at_view [of d p off w k w'] by (auto simp: raw_write_def split: prod.splits)
qed

text \<open>The UDIF device: the data fork of its file, in front of the trailer.\<close>

definition udif_inv :: "udifRawBlockDevice \<Rightarrow> world \<Rightarrow> bool" where
  "udif_inv d w \<longleftrightarrow>
     0 \<le> dataForkLength d \<and> dataForkLength d \<le> kolyOffset d \<and>
     kolyOffset d + 512 = int (raw_len (ud_path d) w) \<and> raw_len (ud_path d) w < 2 ^ 63"

definition udif_view :: "udifRawBlockDevice \<Rightarrow> world \<Rightarrow> nat \<Rightarrow> byte" where
  "udif_view d w = raw_view (ud_path d) w"

definition udif_len :: "udifRawBlockDevice \<Rightarrow> world \<Rightarrow> nat" where
  "udif_len d w = nat (dataForkLength d)"

lemma raw_write_ok:
  "files w f = Some img \<Longrightarrow> 0 \<le> off \<Longrightarrow> off + int (length p) < 2 ^ 63 \<Longrightarrow> fault w S_write f off = None \<Longrightarrow>
   raw_write f p off w = ((length p, None), w\<lparr>files := (files w)(f \<mapsto> img_write (nat off) p img)\<rparr>)"
  by (simp add: raw_write_def sys_write_at_ok)

lemma udif_write_ok:
  "files w (ud_path d) = Some img \<Longrightarrow> 0 \<le> off \<Longrightarrow> off + int (length p) \<le> dataForkLength d \<Longrightarrow>
   dataForkLength d < 2 ^ 63 \<Longrightarrow> p \<noteq> [] \<Longrightarrow> fault w S_write (ud_path d) off = None \<Longrightarrow>
   udif_write d p off w = ((length p, None), d\<lparr>dirty := True\<rparr>,
     w\<lparr>files := (files w)(ud_path d \<mapsto> img_write (nat off) p img)\<rparr>)"
  by (simp add: udif_write_def sys_write_at_ok)

lemma udif_inv_len: "udif_inv d w \<Longrightarrow> udif_len d w \<le> raw_len (ud_path d) w"
  by (auto simp: udif_inv_def udif_len_def nat_le_iff)

interpretation udif: block_device udif_inv udif_read udif_write udif_len udif_view
proof
  fix d w n off
  assume inv: "udif_inv d w" and n: "0 < n" "off + n \<le> udif_len d w"
    and ok: "snd (udif_read d w (int off) n) = None"
  have "udif_read d w (int off) n = sys_read_at (ud_path d) w (int off) n"
    using inv n by (auto simp: udif_read_def udif_inv_def udif_len_def Let_def)
  moreover have "off + n \<le> raw_len (ud_path d) w"
    using udif_inv_len [OF inv] n(2) by simp
  ultimately show "fst (udif_read d w (int off) n) = map (udif_view d w) [off..<off + n]"
    using sys_read_at_bytes [of n off "ud_path d" w] n ok by (simp add: udif_view_def)
next
  fix d w off p k d' w'
  assume inv: "udif_inv d w" and fit: "off + length p \<le> udif_len d w"
    and ok: "udif_write d p (int off) w = ((k, None), d', w')"
  obtain w1 where sw: "sys_write_at (ud_path d) p (int off) w = ((k, None), w1)"
      and d': "d' = (if k > 0 then d\<lparr>dirty := True\<rparr> else d)" "w' = w1"
    using ok by (auto simp: udif_write_def split: if_splits prod.splits)
  have "off + length p \<le> raw_len (ud_path d) w"
    using udif_inv_len [OF inv] fit by simp
  from sys_write_at_view [OF sw this] inv d'
  show "udif_inv d' w' \<and> udif_len d' w' = udif_len d w \<and> k = length p \<and>
      (\<forall>i. udif_view d' w' i = (if off \<le> i \<and> i < off + length p then p ! (i - off) else udif_view d w i))"
    by (auto simp: udif_inv_def udif_len_def udif_view_def)
qed

section \<open>The trailer is out of reach\<close>

text \<open>
  What an operation on the UDIF device keeps: the device's bounds, every byte from the end
  of the data fork on, the size of the file, every other file, and all of them when the
  device stays clean.
\<close>

definition udif_frame :: "udifRawBlockDevice \<Rightarrow> world \<Rightarrow> udifRawBlockDevice \<Rightarrow> world \<Rightarrow> bool" where
  "udif_frame d w d' w' \<longleftrightarrow>
     udif_inv d' w' \<and> ud_path d' = ud_path d \<and> kolyOffset d' = kolyOffset d \<and>
     dataForkLength d' = dataForkLength d \<and> raw_len (ud_path d) w' = raw_len (ud_path d) w \<and>
     (\<forall>i. dataForkLength d \<le> int i \<longrightarrow> raw_view (ud_path d) w' i = raw_view (ud_path d) w i) \<and>
     only_file (ud_path d) w w' \<and> (dirty d \<longrightarrow> dirty d') \<and>
     (\<not> dirty d' \<longrightarrow> files w' = files w)"

lemma udif_frame_refl: "udif_inv d w \<Longrightarrow> udif_frame d w d w"
  by (simp add: udif_frame_def)

lemma udif_frame_trans:
  assumes "udif_frame d w d1 w1" and "udif_frame d1 w1 d2 w2"
  shows "udif_frame d w d2 w2"
  using assms by (auto simp: udif_frame_def only_file_def)

lemma udif_write_frame:
  assumes inv: "udif_inv d w" and run: "udif_write d p off w = ((k, e), d', w')"
  shows "udif_frame d w d' w'"
proof (cases "off < 0 \<or> i64 (off + int (length p)) > dataForkLength d")
  case True
  then have "d' = d" "w' = w" using run by (auto simp: udif_write_def split: if_splits)
  then show ?thesis using udif_frame_refl [OF inv] by simp
next
  case False
  then have sw: "sys_write_at (ud_path d) p off w = ((k, e), w')"
    and d': "d' = (if k > 0 then d\<lparr>dirty := True\<rparr> else d)"
    using run by (auto simp: udif_write_def split: prod.splits)
  show ?thesis
  proof (cases "w' = w")
    case True
    then show ?thesis
      using udif_frame_refl [OF inv] d' by (auto simp: udif_frame_def udif_inv_def)
  next
    case neq: False
    then have small: "off + int (length p) < 2 ^ 63"
      using sw by (auto simp: sys_write_at_def split: option.splits if_splits)
    have fit: "off + int (length p) \<le> dataForkLength d" "0 \<le> off"
      using False small i64_id [of "off + int (length p)"] by auto
    obtain img where img: "files w (ud_path d) = Some img"
      using sw neq by (auto simp: sys_write_at_def split: option.splits)
    define j where "j = (case fault w S_write (ud_path d) off of None \<Rightarrow> length p | Some m \<Rightarrow> m)"
    have w': "files w' = (files w)(ud_path d \<mapsto> img_write (nat off) (take j p) img)"
      and k: "k = min j (length p)" and fa: "fault w' = fault w"
      using sw img neq fit(2) small by (auto simp: sys_write_at_def j_def split: option.splits)
    have len: "isize img = raw_len (ud_path d) w" using img by (simp add: raw_len_def)
    have ins: "nat off + length (take j p) \<le> nat (dataForkLength d)" using fit by auto
    then have "nat off + length (take j p) \<le> isize img"
      using udif_inv_len [OF inv] len by (simp add: udif_len_def)
    then have rl: "raw_len (ud_path d) w' = raw_len (ud_path d) w"
      using img by (simp add: raw_len_def w' del: length_take)
    have rv: "raw_view (ud_path d) w' i = raw_view (ud_path d) w i" if "dataForkLength d \<le> int i" for i
      using w' img ins that inv by (auto simp: raw_view_def icont_img_write udif_inv_def)
    have clean: "files w' = files w" if "\<not> k > 0"
    proof -
      have "take j p = []" using that k by auto
      then show ?thesis using w' img by (simp add: img_write_def map_upd_triv)
    qed
    show ?thesis
      using rl rv inv d' clean sys_only_file(3) [OF sw]
      by (auto simp: udif_frame_def udif_inv_def)
  qed
qed

lemma ext4Adapter_udif_frame:
  assumes "udif_inv d w" and "ext4Adapter q prog (UdifDev d) w = (a, dev', w')"
  shows "\<exists>d'. dev' = UdifDev d' \<and> udif_frame d w d' w'"
  using assms(1,2)
proof (induction prog arbitrary: d w)
  case (Ret x)
  then show ?case by (auto intro: udif_frame_refl)
next
  case (WriteOp p off k)
  obtain n e d1 w1 where st: "udif_write d p off w = ((n, e), d1, w1)" by (metis surj_pair)
  have fr: "udif_frame d w d1 w1" by (rule udif_write_frame [OF WriteOp.prems(1) st])
  then have "udif_inv d1 w1" by (simp add: udif_frame_def)
  moreover have "ext4Adapter q (k (n, e)) (UdifDev d1) w1 = (a, dev', w')"
    using WriteOp.prems(2) st by simp
  ultimately obtain d' where "dev' = UdifDev d'" "udif_frame d1 w1 d' w'"
    using WriteOp.IH [OF rangeI] by blast
  then show ?case using fr by (blast intro: udif_frame_trans)
next
  case (CloseOp k)
  then show ?case using CloseOp.IH [of "k None" d w] by simp
qed (simp, blast)+

section \<open>Opening a UDIF image\<close>

lemma openDMGBlockDevice_Inr:
  assumes "openDMGBlockDevice dmg path w = Inr d" and "files w path = Some img"
  shows "ud_path d = path \<and> kolyOffset d = int (isize img) - 512 \<and> 512 \<le> isize img \<and> \<not> dirty d \<and>
    inPlaceWritable dmg path w = Inr True \<and>
    (let koly = img_bytes img (isize img - 512) 512 in
       kolyBuf d = koly \<and> be_val (chunk 0 4 koly) = dmgKolyMagic \<and> be_val (chunk 24 8 koly) = 0 \<and>
       be_val (chunk 32 8 koly) = u64 (be_val (chunk 492 8 koly) * 512) \<and>
       dataForkLength d = i64 (be_val (chunk 32 8 koly)))"
proof -
  have st: "sys_stat_size path w = Inr sz \<Longrightarrow> sz = int (isize img)" for sz
    using assms(2) by (auto simp: sys_stat_size_def split: if_splits)
  obtain sz buf where o: "inPlaceWritable dmg path w = Inr True" "sys_stat_size path w = Inr sz"
      "512 \<le> sz" "sys_read_at path w (sz - 512) 512 = (buf, None)"
    and b: "be_val (chunk 0 4 buf) = dmgKolyMagic" "be_val (chunk 24 8 buf) = 0"
      "be_val (chunk 32 8 buf) = u64 (be_val (chunk 492 8 buf) * 512)"
    and d: "d = \<lparr>ud_path = path, kolyOffset = sz - 512, kolyBuf = buf,
      dataForkLength = i64 (be_val (chunk 32 8 buf)), dirty = False\<rparr>"
    using assms(1) by (auto simp: openDMGBlockDevice_def Let_def split: sum.splits option.splits prod.splits if_splits)
  have sz: "sz = int (isize img)" by (rule st [OF o(2)])
  have off: "sz - 512 = int (isize img - 512)" using o(3) sz by simp
  have "sys_read_at path w (sz - 512) 512 = img_read img (sz - 512) 512"
    using o(4) assms(2) by (simp add: sys_read_at_def split: option.splits)
  then have "(buf, None) = img_read img (int (isize img - 512)) 512" unfolding off [symmetric] o(4) .
  also have "\<dots> = (img_bytes img (isize img - 512) 512, None)"
    using o(3) sz by (intro img_read_inside) simp
  finally have "buf = img_bytes img (isize img - 512) 512" by simp
  then show ?thesis using o b d sz by (simp add: Let_def)
qed

section \<open>Properties\<close>

text \<open>A UDIF image of one sector with its trailer, and a driver that writes two bytes.\<close>

definition demo_udif :: udifRawBlockDevice where
  "demo_udif = \<lparr>ud_path = ''a.dmg'', kolyOffset = 512, kolyBuf = [], dataForkLength = 512, dirty = False\<rparr>"

definition dmg_world :: world where
  "dmg_world = demo_world\<lparr>files := [''a.dmg'' \<mapsto> blank 1024]\<rparr>"

definition two_writes :: "nat driver" where
  "two_writes = WriteOp [1, 2] 510 (\<lambda>r. WriteOp [3] 511 (\<lambda>r. Ret (fst r)))"

definition label_driver :: ext4_lib where
  "label_driver =
     \<lparr>e4_open = (\<lambda>i. Ret (Inr 1)), e4_labeller = (\<lambda>h. True),
      e4_setLabel = (\<lambda>h l. WriteOp (str_bytes l) 120 (\<lambda>r. Ret (snd r))), e4_label = (\<lambda>h. Ret ''''),
      e4_close = (\<lambda>h. SyncOp Ret)\<rparr>"

definition no_qcow2 :: qcow2_lib where
  "no_qcow2 =
     \<lparr>isQCOW2File = (\<lambda>p w. False), q_open = (\<lambda>p w. (Inl (Lib ''open''), w)), q_read = (\<lambda>h w off n. ([], None)),
      q_write = (\<lambda>h p off w. ((0, None), w)), q_size = (\<lambda>h w. (0, None)), q_sync = (\<lambda>h w. (None, w)),
      q_close = (\<lambda>h w. (None, w))\<rparr>"

lemma demo_udif_inv: "udif_inv demo_udif dmg_world"
  by (simp add: udif_inv_def demo_udif_def dmg_world_def raw_len_def)



text \<open>A UDIF device that a driver leaves clean has not been changed at all, and its \<open>Close\<close>
  only closes the file; a device that is dirty has its checksums refreshed when sync and close
  succeed.\<close>

lemma udif_close_refreshes_iff_dirty:
  assumes "udif_inv d w" and "ext4Adapter q prog (UdifDev d) w = (a, UdifDev d', w')"
  shows "if dirty d' then
      sys_sync (ud_path d) w' = None \<longrightarrow> sys_close (ud_path d) w' = None \<longrightarrow>
      udif_close dmg d' w' = (map_option (Wrap ''dmg'') (fst (refreshChecksums dmg (ud_path d) w')),
                              snd (refreshChecksums dmg (ud_path d) w'))
    else files w' = files w \<and> udif_close dmg d' w' = (sys_close (ud_path d) w', w')"
proof -
  have "udif_frame d w d' w'" using ext4Adapter_udif_frame [OF assms] by auto
  then show ?thesis
    by (auto simp: udif_frame_def udif_close_def split: prod.splits option.splits)
qed

lemma udif_close_refreshes_iff_dirty_demo:
  "files (snd (snd (ext4Adapter no_qcow2 (ReadOp 0 4 (\<lambda>r. Ret (fst r))) (UdifDev demo_udif) dmg_world)))
     = files dmg_world"
  using udif_close_refreshes_iff_dirty [OF demo_udif_inv,
      of no_qcow2 "ReadOp 0 4 (\<lambda>r. Ret (fst r))" _ demo_udif]
  by (simp add: demo_udif_def)



text \<open>C30: A UDIF device never returns a byte from behind its data fork; but a read that crosses
  the edge returns fewer bytes than asked for and reports no error.\<close>

theorem udif_read_at_edge:
  assumes "udif_inv d w" and "off < udif_len d w" and "udif_len d w < off + n"
    and "\<And>x. fault w S_read (ud_path d) x = None"
  shows "udif_read d w (int off) n = (map (udif_view d w) [off..<udif_len d w], None)"
proof -
  obtain img where img: "files w (ud_path d) = Some img"
    using udif_inv_len [OF assms(1)] assms(2) by (auto simp: raw_len_def split: option.splits)
  have le: "udif_len d w \<le> isize img" using udif_inv_len [OF assms(1)] img by (simp add: raw_len_def)
  have mx: "i64 (dataForkLength d - int off) = int (udif_len d w - off)"
    "dataForkLength d = int (udif_len d w)" "int (udif_len d w - off) < int n"
    using assms(1-3) by (auto simp: udif_inv_def udif_len_def nat_diff_distrib')
  have nm: "nat (int (udif_len d w) - int off) = udif_len d w - off" by arith
  have "udif_read d w (int off) n = sys_read_at (ud_path d) w (int off) (udif_len d w - off)"
    unfolding udif_read_def mx(1) using assms(2) mx(2,3) nm by (simp add: Let_def)
  also have "\<dots> = img_read img (int off) (udif_len d w - off)"
    using sys_read_at_img [OF img assms(4)] by simp
  also have "\<dots> = (img_bytes img off (udif_len d w - off), None)"
    using le assms(2) by (intro img_read_inside) simp
  finally show ?thesis
    using img assms(2) by (simp add: img_bytes_def udif_view_def raw_view_def cong: map_cong)
qed

theorem udif_read_at_edge_witness:
  "udif_read demo_udif dmg_world 510 8 = ([0, 0], None)"
  using udif_read_at_edge [OF demo_udif_inv, of 510 8]
  by (simp add: demo_udif_def udif_len_def dmg_world_def demo_world_def udif_view_def raw_view_def upt_rec_numeral)



end
