(* ===== verification/Go_Strings.thy ===== *)
theory Go_Strings
  imports Byte_Codec "HOL-Library.Sublist"
begin

text \<open>
  The functions of the Go standard library that the program uses on strings and paths
  (packages \<open>strings\<close>, \<open>strconv\<close>, \<open>path\<close>, \<open>encoding/hex\<close>), for byte strings in ASCII,
  with the round-trip lemmas the commands need. Upper- and lower-case and white space are
  those of ASCII; the source applies them to options and sizes only.
\<close>

section \<open>Prefixes, suffixes, searching\<close>

definition has_prefix :: "string \<Rightarrow> string \<Rightarrow> bool" where
  "has_prefix s p = (take (length p) s = p)"

definition has_suffix :: "string \<Rightarrow> string \<Rightarrow> bool" where
  "has_suffix s p = has_prefix (rev s) (rev p)"

definition trim_prefix :: "string \<Rightarrow> string \<Rightarrow> string" where
  "trim_prefix s p = (if has_prefix s p then drop (length p) s else s)"

definition trim_suffix :: "string \<Rightarrow> string \<Rightarrow> string" where
  "trim_suffix s p = (if has_suffix s p then take (length s - length p) s else s)"

fun contains_str :: "string \<Rightarrow> string \<Rightarrow> bool" where
  "contains_str [] p = (p = [])"
| "contains_str (c # cs) p = (has_prefix (c # cs) p \<or> contains_str cs p)"

text \<open>\<open>strings.Split(s, c)\<close> and \<open>strings.SplitN(s, c, 2)\<close> for a separator of one byte.\<close>

fun split_on :: "char \<Rightarrow> string \<Rightarrow> string list" where
  "split_on c [] = [[]]"
| "split_on c (x # xs) =
     (if x = c then [] # split_on c xs
      else (case split_on c xs of [] \<Rightarrow> [[x]] | y # ys \<Rightarrow> (x # y) # ys))"

definition split_n2 :: "char \<Rightarrow> string \<Rightarrow> string list" where
  "split_n2 c s =
     (if c \<in> set s then [takeWhile (\<lambda>x. x \<noteq> c) s, tl (dropWhile (\<lambda>x. x \<noteq> c) s)] else [s])"

fun join_with :: "string \<Rightarrow> string list \<Rightarrow> string" where
  "join_with sep [] = []"
| "join_with sep [x] = x"
| "join_with sep (x # y # ys) = x @ sep @ join_with sep (y # ys)"

section \<open>White space and case\<close>

definition is_space :: "char \<Rightarrow> bool" where
  "is_space c = (of_char c \<in> {9, 10, 11, 12, 13, 32 :: nat})"

definition trim_left :: "(char \<Rightarrow> bool) \<Rightarrow> string \<Rightarrow> string" where
  "trim_left P s = dropWhile P s"

definition trim_func :: "(char \<Rightarrow> bool) \<Rightarrow> string \<Rightarrow> string" where
  "trim_func P s = rev (dropWhile P (rev (dropWhile P s)))"

definition trim_space :: "string \<Rightarrow> string" where
  "trim_space s = trim_func is_space s"

fun fields_acc :: "string \<Rightarrow> string \<Rightarrow> string list" where
  "fields_acc acc [] = (if acc = [] then [] else [rev acc])"
| "fields_acc acc (c # cs) =
     (if is_space c then (if acc = [] then fields_acc [] cs else rev acc # fields_acc [] cs)
      else fields_acc (c # acc) cs)"

definition fields :: "string \<Rightarrow> string list" where
  "fields s = fields_acc [] s"

definition lower_char :: "char \<Rightarrow> char" where
  "lower_char c = (if 65 \<le> (of_char c :: nat) \<and> (of_char c :: nat) \<le> 90 then char_of ((of_char c :: nat) + 32) else c)"

definition to_lower :: "string \<Rightarrow> string" where
  "to_lower s = map lower_char s"

section \<open>Numbers\<close>

definition digit_char :: "nat \<Rightarrow> char" where
  "digit_char d = char_of (if d < 10 then 48 + d else 87 + d)"

definition digit_val :: "char \<Rightarrow> nat option" where
  "digit_val c =
     (let n = of_char c :: nat
      in if 48 \<le> n \<and> n \<le> 57 then Some (n - 48)
         else if 97 \<le> n \<and> n \<le> 122 then Some (n - 87)
         else if 65 \<le> n \<and> n \<le> 90 then Some (n - 55)
         else None)"

function nat_str :: "nat \<Rightarrow> nat \<Rightarrow> string" where
  "nat_str b n =
     (if b < 2 \<or> n < b then [digit_char n] else nat_str b (n div b) @ [digit_char (n mod b)])"
  by pat_completeness auto
termination by (relation "measure snd") auto

declare nat_str.simps [simp del]

fun str_nat_acc :: "nat \<Rightarrow> nat \<Rightarrow> string \<Rightarrow> nat option" where
  "str_nat_acc b acc [] = Some acc"
| "str_nat_acc b acc (c # cs) =
     (case digit_val c of
        None \<Rightarrow> None
      | Some d \<Rightarrow> if d < b then str_nat_acc b (acc * b + d) cs else None)"

definition str_nat :: "nat \<Rightarrow> string \<Rightarrow> nat option" where
  "str_nat b s = (if s = [] then None else str_nat_acc b 0 s)"

definition itoa :: "int \<Rightarrow> string" where
  "itoa i = (if i < 0 then CHR ''-'' # nat_str 10 (nat (- i)) else nat_str 10 (nat i))"

text \<open>\<open>strconv.ParseInt(s, base, 64)\<close> and \<open>ParseUint(s, base, bits)\<close>, without the error's text.\<close>

definition parse_uint :: "nat \<Rightarrow> nat \<Rightarrow> string \<Rightarrow> int option" where
  "parse_uint b bits s =
     (case str_nat b s of
        None \<Rightarrow> None
      | Some n \<Rightarrow> if n < 2 ^ bits then Some (int n) else None)"

definition parse_int :: "nat \<Rightarrow> nat \<Rightarrow> string \<Rightarrow> int option" where
  "parse_int b bits s =
     (let neg = (s \<noteq> [] \<and> hd s = CHR ''-'');
          body = (if s \<noteq> [] \<and> hd s \<in> {CHR ''-'', CHR ''+''} then tl s else s)
      in case str_nat b body of
           None \<Rightarrow> None
         | Some n \<Rightarrow>
             if neg then (if int n \<le> 2 ^ (bits - 1) then Some (- int n) else None)
             else (if int n < 2 ^ (bits - 1) then Some (int n) else None))"

lemma digit_val_char: "d < 36 \<Longrightarrow> digit_val (digit_char d) = Some d"
  by (simp add: digit_val_def digit_char_def Let_def)

lemma str_nat_acc_append:
  "str_nat_acc b acc (xs @ ys) =
   (case str_nat_acc b acc xs of None \<Rightarrow> None | Some a \<Rightarrow> str_nat_acc b a ys)"
  by (induction xs arbitrary: acc) (auto split: option.splits)

lemma nat_str_not_Nil [simp]: "nat_str b n \<noteq> []"
  by (subst nat_str.simps) simp

lemma str_nat_acc_nat_str:
  "2 \<le> b \<Longrightarrow> b \<le> 36 \<Longrightarrow> str_nat_acc b 0 (nat_str b n) = Some n"
proof (induction n rule: less_induct)
  case (less n)
  show ?case
  proof (cases "n < b")
    case True
    then show ?thesis using less.prems
      by (subst nat_str.simps) (simp add: digit_val_char)
  next
    case False
    then have "n div b < n" using less.prems by (intro div_less_dividend) auto
    note IH = less.IH [OF this less.prems]
    have "n mod b < b" using less.prems by simp
    then have "n mod b < 36" using less.prems by linarith
    then show ?thesis using IH False less.prems
      by (subst nat_str.simps) (simp add: str_nat_acc_append digit_val_char)
  qed
qed

lemma str_nat_nat_str [codec_simps]: "2 \<le> b \<Longrightarrow> b \<le> 36 \<Longrightarrow> str_nat b (nat_str b n) = Some n"
  by (simp add: str_nat_def str_nat_acc_nat_str)

lemma hd_nat_str: "hd (nat_str 10 n) \<in> digit_char ` {0..<10}"
proof (induction n rule: less_induct)
  case (less n)
  show ?case
  proof (cases "n < 10")
    case True
    then show ?thesis by (subst nat_str.simps) auto
  next
    case False
    then have "n div 10 < n" by simp
    with less.IH [OF this] False show ?thesis
      by (subst nat_str.simps) (simp add: hd_append)
  qed
qed

lemma hd_nat_str_no_sign: "hd (nat_str 10 n) \<noteq> CHR ''-''" "hd (nat_str 10 n) \<noteq> CHR ''+''"
proof -
  obtain d where d: "hd (nat_str 10 n) = digit_char d" "d < 10" using hd_nat_str [of n] by auto
  then have v: "digit_val (hd (nat_str 10 n)) = Some d" by (simp add: digit_val_char)
  have "digit_val (CHR ''-'') = None" "digit_val (CHR ''+'') = None"
    by (simp_all add: digit_val_def Let_def)
  with v show "hd (nat_str 10 n) \<noteq> CHR ''-''" "hd (nat_str 10 n) \<noteq> CHR ''+''" by auto
qed

text \<open>Numbers survive printing and parsing.\<close>

lemma parse_int_itoa: "- (2 ^ 63) \<le> i \<Longrightarrow> i < 2 ^ 63 \<Longrightarrow> parse_int 10 64 (itoa i) = Some i"
  using hd_nat_str_no_sign
  by (auto simp: parse_int_def itoa_def Let_def str_nat_nat_str)

lemma parse_uint_nat_str: "2 \<le> b \<Longrightarrow> b \<le> 36 \<Longrightarrow> n < 2 ^ bits \<Longrightarrow> parse_uint b bits (nat_str b n) = Some (int n)"
  by (simp add: parse_uint_def str_nat_nat_str)

section \<open>Hexadecimal\<close>

definition hex_byte :: "byte \<Rightarrow> string" where
  "hex_byte b = [digit_char (unat b div 16), digit_char (unat b mod 16)]"

definition hex_encode :: "bytes \<Rightarrow> string" where
  "hex_encode bs = concat (map hex_byte bs)"

definition hex_digit :: "char \<Rightarrow> nat option" where
  "hex_digit c = (case digit_val c of None \<Rightarrow> None | Some d \<Rightarrow> if d < 16 then Some d else None)"

fun hex_decode :: "string \<Rightarrow> bytes option" where
  "hex_decode [] = Some []"
| "hex_decode [c] = None"
| "hex_decode (c # d # cs) =
     (case (hex_digit c, hex_digit d, hex_decode cs) of
        (Some h, Some l, Some bs) \<Rightarrow> Some (word_of_nat (h * 16 + l) # bs)
      | _ \<Rightarrow> None)"

lemma hex_decode_encode [codec_simps]: "hex_decode (hex_encode bs) = Some bs"
proof (induction bs)
  case Nil
  then show ?case by (simp add: hex_encode_def)
next
  case (Cons b bs)
  have "unat b < 256" using unsigned_less [of b] by simp
  then have d: "unat b div 16 < 16" "unat b mod 16 < 16" by simp_all
  then have "hex_digit (digit_char (unat b div 16)) = Some (unat b div 16)"
    "hex_digit (digit_char (unat b mod 16)) = Some (unat b mod 16)"
    by (simp_all add: hex_digit_def digit_val_char)
  moreover have "word_of_nat (unat b div 16 * 16 + unat b mod 16) = b"
    by (simp add: word_of_nat_eq_iff)
  ultimately show ?case using Cons by (simp add: hex_encode_def hex_byte_def)
qed

lemma hex_digit_lower: "hex_digit c = Some h \<Longrightarrow> h < 16 \<and> digit_char h = lower_char c"
  by (auto simp: hex_digit_def digit_val_def digit_char_def lower_char_def Let_def split: if_splits)

text \<open>Decoding is the only other way: what is decoded prints in lower case as it was read.\<close>

lemma hex_encode_decode: "hex_decode s = Some bs \<Longrightarrow> hex_encode bs = to_lower s"
proof (induction s arbitrary: bs rule: hex_decode.induct)
  case (3 c d cs)
  then obtain h l bs' where d: "hex_digit c = Some h" "hex_digit d = Some l" "hex_decode cs = Some bs'"
    "bs = word_of_nat (h * 16 + l) # bs'" by (auto split: option.splits)
  have h: "h < 16" "l < 16" "digit_char h = lower_char c" "digit_char l = lower_char d"
    using hex_digit_lower [OF d(1)] hex_digit_lower [OF d(2)] by simp_all
  have "unat (word_of_nat n :: byte) = n" if "n < 256" for n
    using that by (simp add: unsigned_of_nat take_bit_eq_mod)
  from this [of "h * 16 + l"] have "unat (word_of_nat (h * 16 + l) :: byte) = h * 16 + l"
    using h(1,2) by simp
  then have "hex_byte (word_of_nat (h * 16 + l)) = [digit_char h, digit_char l]"
    unfolding hex_byte_def using h(1,2) by simp
  then show ?case using 3(1) [of bs'] d h by (simp add: hex_encode_def to_lower_def)
qed (simp_all add: hex_encode_def to_lower_def)

section \<open>Paths\<close>

text \<open>
  \<open>path.Clean\<close>: empty and \<open>.\<close> components vanish, \<open>..\<close> takes the component before it away,
  or stays at the front of a path that is not rooted.
\<close>

fun clean_push :: "bool \<Rightarrow> string list \<Rightarrow> string \<Rightarrow> string list" where
  "clean_push rooted st c =
     (if c = '''' \<or> c = ''.'' then st
      else if c = ''..'' then
        (if st \<noteq> [] \<and> last st \<noteq> ''..'' then butlast st
         else if rooted then st else st @ [c])
      else st @ [c])"

definition path_clean :: "string \<Rightarrow> string" where
  "path_clean p =
     (if p = '''' then ''.''
      else
        (let rooted = (hd p = CHR ''/'');
             cs = foldl (clean_push rooted) [] (split_on (CHR ''/'') p);
             s = join_with ''/'' cs
         in if rooted then CHR ''/'' # s else if s = '''' then ''.'' else s))"

definition path_join :: "string list \<Rightarrow> string" where
  "path_join ps =
     (let qs = filter (\<lambda>p. p \<noteq> '''') ps
      in if qs = [] then '''' else path_clean (join_with ''/'' qs))"

definition dir_part :: "string \<Rightarrow> string" where
  "dir_part p = rev (dropWhile (\<lambda>c. c \<noteq> CHR ''/'') (rev p))"

definition path_dir :: "string \<Rightarrow> string" where
  "path_dir p = path_clean (dir_part p)"

definition path_base :: "string \<Rightarrow> string" where
  "path_base p =
     (if p = '''' then ''.''
      else
        (let q = rev (dropWhile (\<lambda>c. c = CHR ''/'') (rev p));
             b = rev (takeWhile (\<lambda>c. c \<noteq> CHR ''/'') (rev q))
         in if b = '''' then ''/'' else b))"

lemma split_on_not_Nil [simp]: "split_on c s \<noteq> []"
  by (induction s) (auto split: list.splits)

lemma split_on_parts: "\<forall>p \<in> set (split_on c s). c \<notin> set p"
  by (induction s) (auto split: list.splits)

lemma join_split: "join_with [c] (split_on c s) = s"
proof (induction s)
  case Nil
  then show ?case by simp
next
  case (Cons x xs)
  then show ?case
    using split_on_not_Nil [of c xs] by (cases "split_on c xs"; cases "tl (split_on c xs)") auto
qed

lemma has_prefix_append [simp]: "has_prefix (p @ s) p"
  by (simp add: has_prefix_def)

lemma trim_prefix_append [simp]: "trim_prefix (p @ s) p = s"
  by (simp add: trim_prefix_def)

lemma has_prefix_iff: "has_prefix s p \<longleftrightarrow> prefix p s"
  by (auto simp: has_prefix_def prefix_def) (metis append_take_drop_id)

section \<open>Clean rooted paths\<close>

text \<open>A component that \<open>Clean\<close> keeps, and the rooted path of a list of them.\<close>

definition good_comp :: "string \<Rightarrow> bool" where
  "good_comp c \<longleftrightarrow> c \<noteq> '''' \<and> c \<noteq> ''.'' \<and> c \<noteq> ''..'' \<and> CHR ''/'' \<notin> set c"

definition root_path :: "string list \<Rightarrow> string" where
  "root_path cs = CHR ''/'' # join_with ''/'' cs"

lemma split_on_append:
  "c \<notin> set p \<Longrightarrow> split_on c (p @ c # s) = p # split_on c s"
  "c \<notin> set p \<Longrightarrow> split_on c p = [p]"
  by (induction p) auto

lemma split_join:
  "cs \<noteq> [] \<Longrightarrow> \<forall>p\<in>set cs. c \<notin> set p \<Longrightarrow> split_on c (join_with [c] cs) = cs"
  by (induction "[c]" cs rule: join_with.induct) (auto simp: split_on_append)

lemma join_with_snoc:
  "cs \<noteq> [] \<Longrightarrow> join_with sep (cs @ [p]) = join_with sep cs @ sep @ p"
  by (induction sep cs rule: join_with.induct) auto

lemma clean_fold_good:
  "\<forall>p\<in>set cs. good_comp p \<Longrightarrow> foldl (clean_push rooted) st cs = st @ cs"
  by (induction cs arbitrary: st) (auto simp: good_comp_def)

lemma clean_fold_rooted:
  "\<forall>p\<in>set cs. CHR ''/'' \<notin> set p \<Longrightarrow> \<forall>p\<in>set st. good_comp p \<Longrightarrow>
   \<forall>p\<in>set (foldl (clean_push True) st cs). good_comp p"
proof (induction cs arbitrary: st)
  case (Cons c cs)
  have "\<forall>p\<in>set (clean_push True st c). good_comp p"
    using Cons.prems by (auto simp: good_comp_def dest: in_set_butlastD)
  then show ?case using Cons by simp
qed simp

lemma split_root_path:
  "\<forall>p\<in>set cs. good_comp p \<Longrightarrow>
   split_on (CHR ''/'') (root_path cs) = [] # (if cs = [] then [[]] else cs)"
  using split_join [of cs "CHR ''/''"] by (auto simp: root_path_def good_comp_def)

lemma path_clean_root_path: "\<forall>p\<in>set cs. good_comp p \<Longrightarrow> path_clean (root_path cs) = root_path cs"
  using split_root_path [of cs] clean_fold_good [of cs True "[]"]
  by (auto simp: path_clean_def Let_def root_path_def)

lemma path_clean_rooted:
  assumes "p \<noteq> []" and "hd p = CHR ''/''"
  shows "\<exists>cs. path_clean p = root_path cs \<and> (\<forall>c\<in>set cs. good_comp c)"
  using assms clean_fold_rooted [of "split_on (CHR ''/'') p" "[]"] split_on_parts [of "CHR ''/''" p]
  by (auto simp: path_clean_def Let_def root_path_def)

lemma path_join_root_path:
  assumes "\<forall>p\<in>set cs. good_comp p" and "good_comp p"
  shows "path_join [root_path cs, p] = root_path (cs @ [p])"
proof -
  have s: "path_join [root_path cs, p] = path_clean (root_path cs @ ''/'' @ p)"
    using assms(2) by (auto simp: path_join_def Let_def good_comp_def root_path_def)
  show ?thesis
  proof (cases "cs = []")
    case True
    have "split_on (CHR ''/'') (''//'' @ p) = [[], [], p]"
      using assms(2) by (simp add: good_comp_def split_on_append)
    then have "path_clean (''//'' @ p) = root_path [p]"
      using assms(2) by (simp add: path_clean_def Let_def root_path_def good_comp_def)
    then show ?thesis using True s by (simp add: root_path_def)
  next
    case False
    then have "root_path cs @ ''/'' @ p = root_path (cs @ [p])"
      by (simp add: root_path_def join_with_snoc)
    then show ?thesis using s path_clean_root_path [of "cs @ [p]"] assms by simp
  qed
qed

lemma dir_part_append: "CHR ''/'' \<notin> set p \<Longrightarrow> dir_part (s @ CHR ''/'' # p) = s @ ''/''"
proof -
  assume "CHR ''/'' \<notin> set p"
  then have "dropWhile (\<lambda>c. c \<noteq> CHR ''/'') (rev p @ CHR ''/'' # rev s) = CHR ''/'' # rev s"
    by (subst dropWhile_append2) auto
  then show ?thesis by (simp add: dir_part_def)
qed

lemma path_dir_root_path:
  assumes "\<forall>p\<in>set cs. good_comp p" and "good_comp p"
  shows "path_dir (root_path (cs @ [p])) = root_path cs"
proof (cases "cs = []")
  case True
  have "dir_part ([] @ CHR ''/'' # p) = [] @ ''/''"
    using assms(2) by (intro dir_part_append) (simp add: good_comp_def)
  then show ?thesis using True by (simp add: path_dir_def root_path_def path_clean_def)
next
  case False
  have "dir_part (root_path cs @ CHR ''/'' # p) = root_path cs @ ''/''"
    using assms(2) by (intro dir_part_append) (simp add: good_comp_def)
  moreover have "root_path (cs @ [p]) = root_path cs @ CHR ''/'' # p"
    using False by (simp add: root_path_def join_with_snoc)
  moreover have "path_clean (root_path cs @ ''/'') = root_path cs"
  proof -
    have parts: "\<forall>q\<in>set (cs @ [[]]). CHR ''/'' \<notin> set q" using assms(1) by (auto simp: good_comp_def)
    have "root_path cs @ ''/'' = CHR ''/'' # join_with [CHR ''/''] (cs @ [[]])"
      using False by (simp add: root_path_def join_with_snoc)
    then have "split_on (CHR ''/'') (root_path cs @ ''/'') = [] # cs @ [[]]"
      using split_join [OF _ parts] by simp
    then show ?thesis
      using clean_fold_good [OF assms(1), of True "[]"]
      by (simp add: path_clean_def Let_def root_path_def)
  qed
  ultimately show ?thesis by (simp add: path_dir_def)
qed

lemma path_dir_rooted:
  "\<exists>cs. path_dir (CHR ''/'' # p) = root_path cs \<and> (\<forall>c\<in>set cs. good_comp c)"
proof -
  have "CHR ''/'' \<in> set (CHR ''/'' # p)" by simp
  then obtain s q where d: "CHR ''/'' # p = s @ CHR ''/'' # q" "CHR ''/'' \<notin> set q"
    by (metis split_list_last)
  then have "dir_part (CHR ''/'' # p) = s @ ''/''" by (metis dir_part_append)
  moreover have "hd (s @ ''/'') = CHR ''/''" using d(1) by (cases s) auto
  ultimately show ?thesis using path_clean_rooted [of "s @ ''/''"] by (simp add: path_dir_def)
qed

section \<open>The last component of a path\<close>

lemma split_on_last: "CHR ''/'' \<notin> set n \<Longrightarrow> split_on (CHR ''/'') (s @ CHR ''/'' # n) = split_on (CHR ''/'') s @ [n]"
  by (induction s) (auto simp: split_on_append split: list.splits)

lemma path_base_last:
  assumes "n \<noteq> []" and "CHR ''/'' \<notin> set n"
  shows "path_base (s @ CHR ''/'' # n) = n" and "path_base n = n"
proof -
  have d: "dropWhile (\<lambda>c. c = CHR ''/'') (rev n @ xs) = rev n @ xs" for xs
    using assms by (cases "rev n") auto
  have t: "takeWhile (\<lambda>c. c \<noteq> CHR ''/'') (rev n @ CHR ''/'' # xs) = rev n" for xs
    using assms(2) by (subst takeWhile_append2) auto
  have t0: "takeWhile (\<lambda>c. c \<noteq> CHR ''/'') (rev n) = rev n"
    using assms(2) by (auto simp: takeWhile_eq_all_conv)
  show "path_base (s @ CHR ''/'' # n) = n"
    using assms(1) d t by (simp add: path_base_def Let_def)
  show "path_base n = n"
    using assms(1) d [of "[]"] by (simp add: path_base_def Let_def t0)
qed

lemma path_clean_last:
  assumes "good_comp n"
  shows "\<exists>s. path_clean (d @ CHR ''/'' # n) = s @ CHR ''/'' # n \<or> path_clean (d @ CHR ''/'' # n) = n"
proof -
  define p where "p = d @ CHR ''/'' # n"
  have n: "CHR ''/'' \<notin> set n" "n \<noteq> []" using assms by (auto simp: good_comp_def)
  have sp: "split_on (CHR ''/'') p = split_on (CHR ''/'') d @ [n]"
    unfolding p_def by (rule split_on_last [OF n(1)])
  define st where "st = (\<lambda>r. foldl (clean_push r) [] (split_on (CHR ''/'') d))"
  have f: "foldl (clean_push r) [] (split_on (CHR ''/'') p) = st r @ [n]" for r
    using clean_fold_good [of "[n]" r "st r"] assms by (simp add: sp st_def)
  have j: "join_with ''/'' (cs @ [n]) = (if cs = [] then n else join_with ''/'' cs @ CHR ''/'' # n)" for cs
    by (simp add: join_with_snoc)
  have "p \<noteq> []" by (simp add: p_def)
  then have c: "path_clean p = (if hd p = CHR ''/'' then CHR ''/'' # join_with ''/'' (st True @ [n])
      else join_with ''/'' (st False @ [n]))"
    using n(2) by (simp add: path_clean_def Let_def f j)
  show ?thesis
  proof (cases "hd p = CHR ''/''")
    case True
    then have "path_clean p = (if st True = [] then [] else CHR ''/'' # join_with ''/'' (st True)) @ CHR ''/'' # n"
      unfolding c j by simp
    then show ?thesis unfolding p_def by blast
  next
    case False
    then have "path_clean p = join_with ''/'' (st False @ [n])" unfolding c by simp
    then show ?thesis unfolding j p_def by (cases "st False = []") auto
  qed
qed

lemma path_clean_not_Nil: "path_clean p \<noteq> []"
  by (simp add: path_clean_def Let_def)

lemma path_base_join:
  assumes "good_comp n"
  shows "path_base (path_join [path_dir p, n]) = n"
proof -
  have n: "n \<noteq> []" "CHR ''/'' \<notin> set n" using assms by (auto simp: good_comp_def)
  have "path_join [path_dir p, n] = path_clean (path_dir p @ CHR ''/'' # n)"
    using n path_clean_not_Nil [of "dir_part p"] by (simp add: path_join_def Let_def path_dir_def)
  then show ?thesis using path_clean_last [OF assms, of "path_dir p"] path_base_last [OF n] by auto
qed

end
