(* ===== verification/File_Ops.thy ===== *)
theory File_Ops
  imports Create_Image Go_Strings
begin

text \<open>
  fileops.go and list.go: files and directories inside an image. Every operation opens the
  file system of the image (unpacking a UDIF image to a temporary file first), runs one call
  of the driver and closes it; for a UDIF image the closing packs the temporary file back.
  The drivers are a record of functions, \<open>fs_lib\<close>, on handles.
\<close>

section \<open>The driver interface\<close>

record fs_stat =
  st_Mode :: "16 word"
  st_Size :: int
  st_Inode :: int

record dir_entry =
  de_Name :: string
  de_FileType :: byte

record fs_lib =
  fsOpen :: "FilesystemType \<Rightarrow> string \<Rightarrow> int \<Rightarrow> world \<Rightarrow> (error + nat) \<times> world"
  fsOpenWithKeys :: "FilesystemType \<Rightarrow> string \<Rightarrow> int \<Rightarrow> string list \<Rightarrow> world \<Rightarrow> (error + nat) \<times> world"
  fsClose :: "nat \<Rightarrow> world \<Rightarrow> error option \<times> world"
  fsReadFile :: "nat \<Rightarrow> string \<Rightarrow> world \<Rightarrow> (error + bytes) \<times> world"
  fsWriteFile :: "nat \<Rightarrow> string \<Rightarrow> bytes \<Rightarrow> int \<Rightarrow> world \<Rightarrow> error option \<times> world"
  fsMkDir :: "nat \<Rightarrow> string \<Rightarrow> int \<Rightarrow> world \<Rightarrow> error option \<times> world"
  fsDeleteFile :: "nat \<Rightarrow> string \<Rightarrow> world \<Rightarrow> error option \<times> world"
  fsDeleteDir :: "nat \<Rightarrow> string \<Rightarrow> world \<Rightarrow> error option \<times> world"
  fsRename :: "nat \<Rightarrow> string \<Rightarrow> string \<Rightarrow> world \<Rightarrow> error option \<times> world"
  fsStat :: "nat \<Rightarrow> string \<Rightarrow> world \<Rightarrow> error + fs_stat"
  fsListDir :: "nat \<Rightarrow> string \<Rightarrow> world \<Rightarrow> error + dir_entry list"

section \<open>Opening\<close>

text \<open>A handle is a driver's, or one wrapped by \<open>dmgwrapper\<close>.\<close>

datatype fs_handle =
    Plain nat
  | Dmgwrapper (inner: nat) (tmpPath: string) (origPath: string)

fun inner_handle :: "fs_handle \<Rightarrow> nat" where
  "inner_handle (Plain h) = h"
| "inner_handle (Dmgwrapper h t p) = h"

text \<open>
  \<open>(*dmgwrapper).Close\<close>; with both errors present the source formats the first into the
  message and wraps the second.
\<close>

fun close_handle :: "dmg_lib \<Rightarrow> fs_lib \<Rightarrow> fs_handle \<Rightarrow> world \<Rightarrow> error option \<times> world" where
  "close_handle dmg lib (Plain h) w = fsClose lib h w"
| "close_handle dmg lib (Dmgwrapper h tmp orig) w =
     (case fsClose lib h w of
        (err, w1) \<Rightarrow>
          (case packFromTemp dmg tmp orig w1 of
             (Some packErr, w2) \<Rightarrow>
               (if err \<noteq> None then (Some (Wrap ''close error; pack error'' packErr), w2)
                else (Some packErr, w2))
           | (None, w2) \<Rightarrow> (err, snd (sys_remove tmp w2))))"

definition open_apfs ::
    "fs_lib \<Rightarrow> string \<Rightarrow> int \<Rightarrow> string list \<Rightarrow> world \<Rightarrow> (error + nat) \<times> world" where
  "open_apfs lib path partIndex unlockKeys w =
     (if unlockKeys \<noteq> [] then fsOpenWithKeys lib FSApfs path partIndex unlockKeys w
      else fsOpen lib FSApfs path partIndex w)"

definition wrap_open ::
    "string \<Rightarrow> string \<Rightarrow> (error + nat) \<times> world \<Rightarrow> (error + fs_handle) \<times> world" where
  "wrap_open tmp orig r =
     (case r of
        (Inl e, w) \<Rightarrow> (Inl e, w)
      | (Inr h, w) \<Rightarrow> (Inr (Dmgwrapper h tmp orig), w))"

definition plain_open :: "(error + nat) \<times> world \<Rightarrow> (error + fs_handle) \<times> world" where
  "plain_open r = (case r of (Inl e, w) \<Rightarrow> (Inl e, w) | (Inr h, w) \<Rightarrow> (Inr (Plain h), w))"

definition open_unpacked ::
    "fs_lib \<Rightarrow> string \<Rightarrow> string \<Rightarrow> int \<Rightarrow> FilesystemType \<Rightarrow> string list \<Rightarrow> world \<Rightarrow> (error + fs_handle) \<times> world" where
  "open_unpacked lib tmp imagePath partIndex fsType unlockKeys w =
     (if fsType = FSExt4 then wrap_open tmp imagePath (fsOpen lib FSExt4 tmp partIndex w)
      else if fsType = FSFat32 then wrap_open tmp imagePath (fsOpen lib FSFat32 tmp partIndex w)
      else if fsType = FSBtrfs then wrap_open tmp imagePath (fsOpen lib FSBtrfs tmp partIndex w)
      else if fsType = FSExFAT then wrap_open tmp imagePath (fsOpen lib FSExFAT tmp partIndex w)
      else if fsType = FSNTFS then wrap_open tmp imagePath (fsOpen lib FSNTFS tmp partIndex w)
      else if fsType = FSApfs then wrap_open tmp imagePath (open_apfs lib tmp partIndex unlockKeys w)
      else (Inl (Msg ''unsupported filesystem''), w))"

definition open_raw ::
    "fs_lib \<Rightarrow> string \<Rightarrow> int \<Rightarrow> FilesystemType \<Rightarrow> string list \<Rightarrow> world \<Rightarrow> (error + nat) \<times> world" where
  "open_raw lib imagePath partIndex fsType unlockKeys w =
     (if fsType = FSExt4 then fsOpen lib FSExt4 imagePath partIndex w
      else if fsType = FSFat32 then fsOpen lib FSFat32 imagePath partIndex w
      else if fsType = FSBtrfs then fsOpen lib FSBtrfs imagePath partIndex w
      else if fsType = FSXfs then fsOpen lib FSXfs imagePath partIndex w
      else if fsType = FSZfs then fsOpen lib FSZfs imagePath partIndex w
      else if fsType = FSExFAT then fsOpen lib FSExFAT imagePath partIndex w
      else if fsType = FSNTFS then fsOpen lib FSNTFS imagePath partIndex w
      else if fsType = FSApfs then open_apfs lib imagePath partIndex unlockKeys w
      else (Inl (Msg ''unsupported filesystem''), w))"

definition resolve_fs ::
    "dmg_lib \<Rightarrow> string \<Rightarrow> int \<Rightarrow> FilesystemType \<Rightarrow> world \<Rightarrow> (error + FilesystemType) \<times> world" where
  "resolve_fs dmg imagePath partIndex fsType w =
     (if fsType = '''' \<or> fsType = FSNone then
        (case DetectFilesystem dmg imagePath partIndex w of
           (Inl e, w1) \<Rightarrow> (Inl (Wrap ''auto-detect filesystem'' e), w1)
         | (Inr detected, w1) \<Rightarrow> (Inr detected, w1))
      else (Inr fsType, w))"

definition openFS ::
    "dmg_lib \<Rightarrow> fs_lib \<Rightarrow> string \<Rightarrow> int \<Rightarrow> FilesystemType \<Rightarrow> string list \<Rightarrow> world \<Rightarrow> (error + fs_handle) \<times> world" where
  "openFS dmg lib imagePath partIndex fsType0 unlockKeys w =
     (case resolve_fs dmg imagePath partIndex fsType0 w of
        (Inl e, w1) \<Rightarrow> (Inl e, w1)
      | (Inr fsType, w1) \<Rightarrow>
          if isUDIF dmg imagePath w1 then
            (case unpackToTemp dmg imagePath w1 of
               (Inl e, w2) \<Rightarrow> (Inl e, w2)
             | (Inr tmp, w2) \<Rightarrow> open_unpacked lib tmp imagePath partIndex fsType unlockKeys w2)
          else plain_open (open_raw lib imagePath partIndex fsType unlockKeys w1))"

section \<open>Operations on one file\<close>

text \<open>
  Open, run, close: the deferred \<open>Close\<close> runs after the operation, and its error is
  dropped.
\<close>

definition with_fs ::
    "dmg_lib \<Rightarrow> fs_lib \<Rightarrow> FileOptions \<Rightarrow> (error \<Rightarrow> 'a) \<Rightarrow> (nat \<Rightarrow> world \<Rightarrow> 'a \<times> world) \<Rightarrow> world \<Rightarrow> 'a \<times> world" where
  "with_fs dmg lib opts fail body w =
     (if fo_Path opts = '''' then (fail (Msg ''image path is required''), w)
      else
        (case openFS dmg lib (fo_Path opts) (fo_PartIndex opts) (fo_Filesystem opts) (fo_UnlockKeys opts) w of
           (Inl e, w1) \<Rightarrow> (fail e, w1)
         | (Inr fs, w1) \<Rightarrow>
             (case body (inner_handle fs) w1 of (r, w2) \<Rightarrow> (r, snd (close_handle dmg lib fs w2)))))"

definition ReadFile :: "dmg_lib \<Rightarrow> fs_lib \<Rightarrow> FileOptions \<Rightarrow> world \<Rightarrow> (error + bytes) \<times> world" where
  "ReadFile dmg lib opts w =
     with_fs dmg lib opts Inl (\<lambda>fs. fsReadFile lib fs (fo_FilePath opts)) w"

text \<open>The loop of \<open>ensureParentDirs\<close> over the components of the directory.\<close>

fun ensure_loop :: "fs_lib \<Rightarrow> nat \<Rightarrow> string \<Rightarrow> string list \<Rightarrow> world \<Rightarrow> error option \<times> world" where
  "ensure_loop lib fs cur [] w = (None, w)"
| "ensure_loop lib fs cur (p # parts) w =
     (let cur = path_join [cur, p] in
      case fsStat lib fs cur w of
        Inr st \<Rightarrow> ensure_loop lib fs cur parts w
      | Inl e \<Rightarrow>
          (case fsMkDir lib fs cur 493 w of
             (None, w1) \<Rightarrow> ensure_loop lib fs cur parts w1
           | (Some err, w1) \<Rightarrow>
               (case fsStat lib fs cur w1 of
                  Inr st \<Rightarrow> ensure_loop lib fs cur parts w1
                | Inl sErr \<Rightarrow> (Some err, w1))))"

definition ensureParentDirs :: "fs_lib \<Rightarrow> nat \<Rightarrow> string \<Rightarrow> world \<Rightarrow> error option \<times> world" where
  "ensureParentDirs lib fs filePath w =
     (let dir = path_dir filePath in
      if dir = '''' \<or> dir = ''.'' \<or> dir = ''/'' then (None, w)
      else ensure_loop lib fs ''/'' (split_on (CHR ''/'') (trim_prefix dir ''/'')) w)"

definition write_with_retry ::
    "fs_lib \<Rightarrow> string \<Rightarrow> bytes \<Rightarrow> int \<Rightarrow> nat \<Rightarrow> world \<Rightarrow> error option \<times> world" where
  "write_with_retry lib filePath data perm fs w =
     (case fsWriteFile lib fs filePath data perm w of
        (None, w1) \<Rightarrow> (None, w1)
      | (Some e, w1) \<Rightarrow>
          (case ensureParentDirs lib fs filePath w1 of
             (Some err, w2) \<Rightarrow> (Some err, w2)
           | (None, w2) \<Rightarrow> fsWriteFile lib fs filePath data perm w2))"

definition WriteFile ::
    "dmg_lib \<Rightarrow> fs_lib \<Rightarrow> FileOptions \<Rightarrow> bytes \<Rightarrow> int \<Rightarrow> world \<Rightarrow> error option \<times> world" where
  "WriteFile dmg lib opts data perm w =
     with_fs dmg lib opts Some (write_with_retry lib (fo_FilePath opts) data perm) w"

definition MkDir :: "dmg_lib \<Rightarrow> fs_lib \<Rightarrow> FileOptions \<Rightarrow> int \<Rightarrow> world \<Rightarrow> error option \<times> world" where
  "MkDir dmg lib opts perm w =
     with_fs dmg lib opts Some (\<lambda>fs. fsMkDir lib fs (fo_FilePath opts) perm) w"

definition DeleteFile :: "dmg_lib \<Rightarrow> fs_lib \<Rightarrow> FileOptions \<Rightarrow> world \<Rightarrow> error option \<times> world" where
  "DeleteFile dmg lib opts w =
     with_fs dmg lib opts Some (\<lambda>fs. fsDeleteFile lib fs (fo_FilePath opts)) w"

definition DeleteDir :: "dmg_lib \<Rightarrow> fs_lib \<Rightarrow> FileOptions \<Rightarrow> world \<Rightarrow> error option \<times> world" where
  "DeleteDir dmg lib opts w =
     with_fs dmg lib opts Some (\<lambda>fs. fsDeleteDir lib fs (fo_FilePath opts)) w"

definition Rename :: "dmg_lib \<Rightarrow> fs_lib \<Rightarrow> FileOptions \<Rightarrow> string \<Rightarrow> world \<Rightarrow> error option \<times> world" where
  "Rename dmg lib opts newPath w =
     with_fs dmg lib opts Some (\<lambda>fs. fsRename lib fs (fo_FilePath opts) newPath) w"

definition Stat :: "dmg_lib \<Rightarrow> fs_lib \<Rightarrow> FileOptions \<Rightarrow> world \<Rightarrow> (error + fs_stat) \<times> world" where
  "Stat dmg lib opts w =
     with_fs dmg lib opts Inl (\<lambda>fs w. (fsStat lib fs (fo_FilePath opts) w, w)) w"

section \<open>Listing a directory\<close>

record ListEntry =
  le_Name :: string
  le_FileType :: byte
  le_Mode :: "16 word"
  le_Size :: int
  le_Inode :: int

record ListOptions =
  lo_Path :: string
  lo_Filesystem :: FilesystemType
  lo_PartIndex :: int
  lo_DirPath :: string
  lo_FetchStat :: bool
  lo_UnlockKeys :: "string list"

fun list_entries :: "fs_lib \<Rightarrow> nat \<Rightarrow> string \<Rightarrow> bool \<Rightarrow> world \<Rightarrow> dir_entry list \<Rightarrow> ListEntry list" where
  "list_entries lib h dirPath fetch w [] = []"
| "list_entries lib h dirPath fetch w (e # es) =
     (let entry = \<lparr>le_Name = de_Name e, le_FileType = de_FileType e, le_Mode = 0, le_Size = 0, le_Inode = 0\<rparr>;
          entry =
            (if fetch then
               (case fsStat lib h (path_join [dirPath, de_Name e]) w of
                  Inr st \<Rightarrow> entry\<lparr>le_Mode := st_Mode st, le_Size := st_Size st, le_Inode := st_Inode st\<rparr>
                | Inl err \<Rightarrow> entry)
             else entry)
      in entry # list_entries lib h dirPath fetch w es)"

definition List :: "dmg_lib \<Rightarrow> fs_lib \<Rightarrow> ListOptions \<Rightarrow> world \<Rightarrow> (error + ListEntry list) \<times> world" where
  "List dmg lib opts w =
     (let dirPath = (if lo_DirPath opts = '''' then ''/'' else lo_DirPath opts) in
      case resolve_fs dmg (lo_Path opts) (lo_PartIndex opts) (lo_Filesystem opts) w of
        (Inl e, w1) \<Rightarrow> (Inl e, w1)
      | (Inr fsType, w1) \<Rightarrow>
          (case open_raw lib (lo_Path opts) (lo_PartIndex opts) fsType (lo_UnlockKeys opts) w1 of
             (Inl e, w2) \<Rightarrow> (Inl e, w2)
           | (Inr h, w2) \<Rightarrow>
               (case fsListDir lib h dirPath w2 of
                  Inl e \<Rightarrow> (Inl e, snd (fsClose lib h w2))
                | Inr raw \<Rightarrow>
                    (Inr (list_entries lib h dirPath (lo_FetchStat opts) w2 raw), snd (fsClose lib h w2)))))"

section \<open>Parent directories\<close>

text \<open>
  What a driver documents of its directories: \<open>Stat\<close> finds exactly what is there, and
  \<open>MkDir\<close> makes a directory when its parent is there and the name is free, and otherwise
  changes nothing.
\<close>

definition dir_driver :: "fs_lib \<Rightarrow> nat \<Rightarrow> (world \<Rightarrow> string \<Rightarrow> bool) \<Rightarrow> bool" where
  "dir_driver lib h ex \<longleftrightarrow>
     (\<forall>p w. (\<exists>st. fsStat lib h p w = Inr st) \<longleftrightarrow> ex w p) \<and>
     (\<forall>p m w r w'. fsMkDir lib h p m w = (r, w') \<longrightarrow>
        (r = None \<longleftrightarrow> \<not> ex w p \<and> ex w (path_dir p)) \<and>
        (\<forall>q. ex w' q \<longleftrightarrow> ex w q \<or> r = None \<and> q = p))"

lemma ensure_loop_creates:
  assumes drv: "dir_driver lib h ex" and good: "\<forall>c\<in>set (ds @ cs). good_comp c"
    and cur: "ex w (root_path ds)"
  shows "\<exists>w'. ensure_loop lib h (root_path ds) cs w = (None, w') \<and> ex w' (root_path (ds @ cs)) \<and>
    (\<forall>q. ex w' q \<longleftrightarrow> ex w q \<or> (\<exists>n \<le> length cs. q = root_path (ds @ take n cs)))"
  using good cur
proof (induction cs arbitrary: ds w)
  case Nil
  then show ?case by auto
next
  case (Cons c cs)
  let ?p = "root_path (ds @ [c])"
  have ds: "\<forall>c\<in>set ds. good_comp c" and c: "good_comp c" using Cons.prems(1) by auto
  have j: "path_join [root_path ds, c] = ?p" by (rule path_join_root_path [OF ds c])
  have pd: "path_dir ?p = root_path ds" by (rule path_dir_root_path [OF ds c])
  have good': "\<forall>c\<in>set ((ds @ [c]) @ cs). good_comp c" using Cons.prems(1) by simp
  obtain w1 where w1: "ensure_loop lib h (root_path ds) (c # cs) w = ensure_loop lib h ?p cs w1"
    and ex1: "\<forall>q. ex w1 q \<longleftrightarrow> ex w q \<or> q = ?p"
  proof (cases "ex w ?p")
    case True
    then obtain st where "fsStat lib h ?p w = Inr st" using drv unfolding dir_driver_def by blast
    then have "ensure_loop lib h (root_path ds) (c # cs) w = ensure_loop lib h ?p cs w"
      by (simp add: j)
    then show ?thesis using that [of w] True by auto
  next
    case False
    then obtain e where e: "fsStat lib h ?p w = Inl e"
      using drv unfolding dir_driver_def by (metis obj_sumE)
    obtain r v where mk: "fsMkDir lib h ?p 493 w = (r, v)" by force
    then have mk2: "r = None" "\<forall>q. ex v q \<longleftrightarrow> ex w q \<or> q = ?p"
      using drv False Cons.prems(2) unfolding dir_driver_def pd [symmetric] by blast+
    have "ensure_loop lib h (root_path ds) (c # cs) w = ensure_loop lib h ?p cs v"
      using e mk mk2(1) by (simp add: j)
    then show ?thesis using that [of v] mk2(2) by blast
  qed
  have "ex w1 ?p" using ex1 by simp
  from Cons.IH [OF good' this] obtain w' where
    w': "ensure_loop lib h ?p cs w1 = (None, w')" "ex w' (root_path (ds @ c # cs))"
      "\<forall>q. ex w' q \<longleftrightarrow> ex w1 q \<or> (\<exists>n \<le> length cs. q = root_path (ds @ c # take n cs))" by auto
  have "(\<exists>n \<le> length (c # cs). q = root_path (ds @ take n (c # cs))) \<longleftrightarrow>
      q = root_path ds \<or> (\<exists>n \<le> length cs. q = root_path (ds @ c # take n cs))" for q
  proof
    assume "\<exists>n \<le> length (c # cs). q = root_path (ds @ take n (c # cs))"
    then obtain n where "n \<le> length (c # cs)" "q = root_path (ds @ take n (c # cs))" by blast
    then show "q = root_path ds \<or> (\<exists>n \<le> length cs. q = root_path (ds @ c # take n cs))"
      by (cases n) auto
  next
    assume "q = root_path ds \<or> (\<exists>n \<le> length cs. q = root_path (ds @ c # take n cs))"
    then show "\<exists>n \<le> length (c # cs). q = root_path (ds @ take n (c # cs))"
    proof
      assume "q = root_path ds"
      then show ?thesis by (intro exI [of _ 0]) simp
    next
      assume "\<exists>n \<le> length cs. q = root_path (ds @ c # take n cs)"
      then obtain n where "n \<le> length cs" "q = root_path (ds @ c # take n cs)" by blast
      then show ?thesis by (intro exI [of _ "Suc n"]) simp
    qed
  qed
  moreover have "\<exists>n \<le> length cs. ?p = root_path (ds @ c # take n cs)" by (intro exI [of _ 0]) simp
  ultimately show ?case using w1 w' ex1 Cons.prems(2) by auto
qed

lemma root_path_Nil [simp]: "root_path [] = ''/''"
  by (simp add: root_path_def)

lemma root_path_eq_root: "\<forall>c\<in>set cs. good_comp c \<Longrightarrow> root_path cs = ''/'' \<longleftrightarrow> cs = []"
proof
  assume good: "\<forall>c\<in>set cs. good_comp c" and "root_path cs = ''/''"
  then have "join_with ''/'' cs = []" by (simp add: root_path_def)
  then show "cs = []" using good by (cases cs; cases "tl cs") (auto simp: good_comp_def)
qed simp

lemma ensureParentDirs_creates:
  assumes drv: "dir_driver lib h ex" and root: "ex w ''/''"
  shows "\<exists>w' cs. ensureParentDirs lib h (CHR ''/'' # p) w = (None, w') \<and>
    path_dir (CHR ''/'' # p) = root_path cs \<and> ex w' (root_path cs) \<and>
    (\<forall>q. ex w' q \<longleftrightarrow> ex w q \<or> (\<exists>n \<le> length cs. q = root_path (take n cs)))"
proof -
  obtain cs where cs: "path_dir (CHR ''/'' # p) = root_path cs" "\<forall>c\<in>set cs. good_comp c"
    using path_dir_rooted by blast
  show ?thesis
  proof (cases "cs = []")
    case True
    then show ?thesis using cs root by (auto simp: ensureParentDirs_def Let_def intro!: exI [of _ "[]"])
  next
    case False
    have "trim_prefix (root_path cs) ''/'' = join_with [CHR ''/''] cs"
      by (simp add: trim_prefix_def has_prefix_def root_path_def)
    then have "split_on (CHR ''/'') (trim_prefix (root_path cs) ''/'') = cs"
      using split_join [OF False, of "CHR ''/''"] cs(2) by (simp add: good_comp_def)
    moreover have "root_path cs \<noteq> ''''" "root_path cs \<noteq> ''.''" by (simp_all add: root_path_def)
    ultimately have "ensureParentDirs lib h (CHR ''/'' # p) w = ensure_loop lib h (root_path []) cs w"
      using cs root_path_eq_root [OF cs(2)] False by (simp add: ensureParentDirs_def Let_def)
    with ensure_loop_creates [OF drv, of "[]" cs w] cs root show ?thesis by auto
  qed
qed

section \<open>Properties\<close>

text \<open>A driver with one tree of directories: it counts the directories made in \<open>drawn\<close>, and
  only \<open>/\<close>, \<open>/a\<close> and \<open>/a/b\<close> exist as names.\<close>

definition tree_has :: "world \<Rightarrow> string \<Rightarrow> bool" where
  "tree_has w p \<longleftrightarrow> p = ''/'' \<or> (\<exists>img. files w (''dir:'' @ p) = Some img)"

definition tree_driver :: fs_lib where
  "tree_driver =
     \<lparr>fsOpen = (\<lambda>fs p i w. (Inr 1, w)), fsOpenWithKeys = (\<lambda>fs p i ks w. (Inr 1, w)),
      fsClose = (\<lambda>h w. (None, w)), fsReadFile = (\<lambda>h p w. (Inl (Lib ''read''), w)),
      fsWriteFile = (\<lambda>h p d m w. if tree_has w (path_dir p) then (None, w) else (Some (Lib ''no parent''), w)),
      fsMkDir = (\<lambda>h p m w. if \<not> tree_has w p \<and> tree_has w (path_dir p)
                           then (None, w\<lparr>files := (files w)(''dir:'' @ p \<mapsto> empty_image)\<rparr>)
                           else (Some (Lib ''mkdir''), w)),
      fsDeleteFile = (\<lambda>h p w. (None, w)), fsDeleteDir = (\<lambda>h p w. (None, w)),
      fsRename = (\<lambda>h p q w. (None, w)),
      fsStat = (\<lambda>h p w. if tree_has w p then Inr \<lparr>st_Mode = 0, st_Size = 0, st_Inode = 0\<rparr>
                        else Inl (Lib ''stat'')),
      fsListDir = (\<lambda>h p w. Inr [])\<rparr>"

lemma tree_driver_contract: "dir_driver tree_driver h tree_has"
  by (auto simp: dir_driver_def tree_driver_def tree_has_def split: if_splits)

text \<open>C6: On a driver that keeps the directory contract, \<open>ensureParentDirs\<close> returns without an
  error for every absolute path, afterwards the parent directory is there, and exactly the
  missing ancestors of the file have been made.\<close>

theorem ensure_parent_dirs_complete:
  assumes "dir_driver lib h ex" and "ex w ''/''"
  shows "\<exists>w' cs. ensureParentDirs lib h (CHR ''/'' # p) w = (None, w') \<and>
    path_dir (CHR ''/'' # p) = root_path cs \<and> ex w' (path_dir (CHR ''/'' # p)) \<and>
    (\<forall>q. ex w' q \<longleftrightarrow> ex w q \<or> (\<exists>n \<le> length cs. q = root_path (take n cs)))"
  using ensureParentDirs_creates [OF assms, of p] by auto

theorem ensure_parent_dirs_complete_witness:
  "fst (ensureParentDirs tree_driver 1 ''/a/b/c.txt'' demo_world) = None"
proof -
  have "tree_has demo_world ''/''" by (simp add: tree_has_def)
  from ensure_parent_dirs_complete [OF tree_driver_contract this, of 1 "''a/b/c.txt''"]
  obtain w' where "ensureParentDirs tree_driver 1 ''/a/b/c.txt'' demo_world = (None, w')" by blast
  then show ?thesis by simp
qed





text \<open>C28: When the driver of an unpacked UDIF image does not open, the error is returned with the
  temporary file still there.\<close>

theorem failed_open_leaves_temp:
  assumes "fsType \<notin> {'''', FSNone}" and "isUDIF dmg path w" and "unpackToTemp dmg path w = (Inr tmp, w1)"
    and "files w1 tmp = Some img" and "\<And>fs i v. snd (fsOpen lib fs tmp i v) = v"
    and "\<And>fs i ks v. snd (fsOpenWithKeys lib fs tmp i ks v) = v"
    and "openFS dmg lib path part fsType keys w = (Inl e, w')"
  shows "files w' tmp = Some img"
proof -
  have "open_unpacked lib tmp path part fsType keys w1 = (Inl e, w')"
    using assms(1,2,3,7) by (simp add: openFS_def resolve_fs_def)
  then have "snd (open_unpacked lib tmp path part fsType keys w1) = w'" by simp
  moreover have "snd (wrap_open tmp path r) = snd r" for r
    by (auto simp: wrap_open_def split: prod.splits sum.splits)
  ultimately have "w' = w1" using assms(5,6)
    by (auto simp: open_unpacked_def open_apfs_def split: if_splits)
  then show ?thesis using assms(4) by simp
qed

definition unpacking_dmg :: dmg_lib where
  "unpacking_dmg = idle_dmg\<lparr>isUDIF := (\<lambda>p w. True),
     unpackToTemp := (\<lambda>p w. (Inr ''/tmp/u'', w\<lparr>files := (files w)(''/tmp/u'' \<mapsto> blank 512)\<rparr>))\<rparr>"

theorem failed_open_leaves_temp_witness:
  "files (snd (openFS unpacking_dmg tree_driver ''a.dmg'' 0 FSXfs [] demo_world)) ''/tmp/u'' = Some (blank 512)"
proof -
  let ?w1 = "demo_world\<lparr>files := (files demo_world)(''/tmp/u'' \<mapsto> blank 512)\<rparr>"
  have "openFS unpacking_dmg tree_driver ''a.dmg'' 0 FSXfs [] demo_world =
      (Inl (Msg ''unsupported filesystem''), ?w1)"
    by (simp add: openFS_def resolve_fs_def open_unpacked_def unpacking_dmg_def)
  from failed_open_leaves_temp [OF _ _ _ _ _ _ this, of "''/tmp/u''" ?w1 "blank 512"] this show ?thesis
    by (simp add: unpacking_dmg_def tree_driver_def)
qed

end
