(* ===== verification/Image_Ops.thy ===== *)
theory Image_Ops
  imports File_Ops
begin

text \<open>
  grow.go, dmg_ops.go and uefi.go: resizing and converting an image in place, and the UEFI
  variable store. The formats of UDIF and of the store are libraries.
\<close>

definition Grow :: "string \<Rightarrow> int \<Rightarrow> world \<Rightarrow> error option \<times> world" where
  "Grow path sizeBytes w =
     (if path = '''' then (Some (Msg ''diskimage: path is required''), w)
      else if sizeBytes \<le> 0 then (Some (Msg ''diskimage: size must be positive''), w)
      else
        (case sys_open path w of
           Some e \<Rightarrow> (Some (Wrap ''diskimage: open'' e), w)
         | None \<Rightarrow>
             (case sys_truncate path sizeBytes w of
                (Some e, w1) \<Rightarrow> (Some (Wrap ''diskimage: truncate'' e), w1)
              | (None, w1) \<Rightarrow> (None, w1))))"

text \<open>\<open>filepath.Dir\<close>, \<open>filepath.Base\<close> and \<open>filepath.Join\<close> agree with \<open>path\<close> on Unix.\<close>

definition ConvertImageFormat :: "dmg_lib \<Rightarrow> string \<Rightarrow> string \<Rightarrow> world \<Rightarrow> error option \<times> world" where
  "ConvertImageFormat dmg path dstFormat w =
     (if path = '''' then (Some (Msg ''diskimage: path is required''), w)
      else
        (let dir = path_dir path;
             tmpPath = path_join [dir, path_base path @ ''.convert.tmp'']
         in case convertUDIF dmg path tmpPath dstFormat w of
              (Some e, w1) \<Rightarrow> (Some (Wrap ''convert udif'' e), snd (sys_remove tmpPath w1))
            | (None, w1) \<Rightarrow>
                (case sys_rename tmpPath path w1 of
                   (Some e, w2) \<Rightarrow> (Some (Wrap ''replace original image'' e), snd (sys_remove tmpPath w2))
                 | (None, w2) \<Rightarrow> (None, w2))))"

definition ResizeImage :: "dmg_lib \<Rightarrow> string \<Rightarrow> int \<Rightarrow> world \<Rightarrow> error option \<times> world" where
  "ResizeImage dmg path newSizeBytes w =
     (if path = '''' then (Some (Msg ''diskimage: path is required''), w)
      else if newSizeBytes \<le> 0 then (Some (Msg ''diskimage: size must be positive''), w)
      else if isUDIF dmg path w then resizeUDRW dmg path newSizeBytes w
      else Grow path newSizeBytes w)"

text \<open>Package \<open>go-filesystems/uefi\<close>: a store is formatted or opened and used by its handle.\<close>

record uefi_var =
  uv_Name :: string
  uv_GUID :: bytes
  uv_Attributes :: "32 word"
  uv_Data :: bytes

record uefi_lib =
  uefiFormat :: "string \<Rightarrow> int \<Rightarrow> world \<Rightarrow> (error + nat) \<times> world"
  uefiOpen :: "string \<Rightarrow> world \<Rightarrow> (error + nat) \<times> world"
  uefiList :: "nat \<Rightarrow> world \<Rightarrow> uefi_var list"
  uefiGet :: "nat \<Rightarrow> string \<Rightarrow> bytes \<Rightarrow> world \<Rightarrow> error + uefi_var"
  uefiSet :: "nat \<Rightarrow> uefi_var \<Rightarrow> world \<Rightarrow> error option \<times> world"
  uefiDelete :: "nat \<Rightarrow> string \<Rightarrow> bytes \<Rightarrow> world \<Rightarrow> error option \<times> world"
  uefiClose :: "nat \<Rightarrow> world \<Rightarrow> error option \<times> world"
  uefiDefaultGUID :: bytes
  uefiAttrNonVolatile :: "32 word"
  uefiAttrBootService :: "32 word"
  uefiAttrRuntime :: "32 word"

definition CreateUEFIVarsStore :: "uefi_lib \<Rightarrow> string \<Rightarrow> int \<Rightarrow> world \<Rightarrow> (error + nat) \<times> world" where
  "CreateUEFIVarsStore u path sizeBytes w = uefiFormat u path sizeBytes w"

section \<open>Conversion keeps the original until it succeeds\<close>

text \<open>The converter writes its destination only, and leaves a file there when it succeeds.\<close>

definition convert_contract :: "dmg_lib \<Rightarrow> bool" where
  "convert_contract dmg \<longleftrightarrow>
     (\<forall>src dst fmt w e w'. convertUDIF dmg src dst fmt w = (e, w') \<longrightarrow>
        only_file dst w w' \<and> (e = None \<longrightarrow> files w' dst \<noteq> None))"

lemma convert_replace:
  assumes con: "convert_contract dmg" and rm: "no_remove_fault w" and ne: "tmp \<noteq> path"
    and cv: "convertUDIF dmg path tmp fmt w = (e, w1)" and rn: "sys_rename tmp path w1 = (r, w2)"
  shows "e = Some x \<Longrightarrow> files (snd (sys_remove tmp w1)) = (files w)(tmp := None)"
    and "e = None \<Longrightarrow> r = Some y \<Longrightarrow> files (snd (sys_remove tmp w2)) = (files w)(tmp := None)"
    and "e = None \<Longrightarrow> r = None \<Longrightarrow> files w2 = (files w)(tmp := None, path := files w1 tmp) \<and> files w1 tmp \<noteq> None"
proof -
  have o: "only_file tmp w w1" and f: "e = None \<Longrightarrow> files w1 tmp \<noteq> None"
    using con cv unfolding convert_contract_def by blast+
  then have n1: "no_remove_fault w1" and d: "(files w1)(tmp := None) = (files w)(tmp := None)"
    using rm by (auto simp: only_file_def no_remove_fault_def)
  show "e = Some x \<Longrightarrow> files (snd (sys_remove tmp w1)) = (files w)(tmp := None)"
    using sys_remove_gone [OF n1, of tmp] d by simp
  show "e = None \<Longrightarrow> r = Some y \<Longrightarrow> files (snd (sys_remove tmp w2)) = (files w)(tmp := None)"
  proof -
    assume "e = None" "r = Some y"
    then have "w2 = w1" using rn by (auto simp: sys_rename_def split: option.splits if_splits)
    then show "files (snd (sys_remove tmp w2)) = (files w)(tmp := None)"
      using sys_remove_gone [OF n1, of tmp] d by simp
  qed
  show "e = None \<Longrightarrow> r = None \<Longrightarrow> files w2 = (files w)(tmp := None, path := files w1 tmp) \<and> files w1 tmp \<noteq> None"
    using rn f d by (auto simp: sys_rename_def fun_eq_iff split: option.splits if_splits)
qed

section \<open>Properties\<close>

text \<open>C5: \<open>ConvertImageFormat\<close> replaces the image or leaves it alone: on any error every file is
  as before and the temporary file is gone; on success the image is what the converter wrote
  and the temporary file is gone.\<close>

theorem convert_image_atomic:
  assumes "convert_contract dmg" and "no_remove_fault w" and "path \<noteq> ''''"
    and "CHR ''/'' \<notin> set (path_base path)"
    and "ConvertImageFormat dmg path fmt w = (r, w')"
  defines "tmp \<equiv> path_join [path_dir path, path_base path @ ''.convert.tmp'']"
  shows "(r \<noteq> None \<longrightarrow> files w' = (files w)(tmp := None)) \<and>
    (r = None \<longrightarrow> (\<exists>img. files (snd (convertUDIF dmg path tmp fmt w)) tmp = Some img \<and>
       files w' = (files w)(tmp := None, path \<mapsto> img)))"
proof -
  have "good_comp (path_base path @ ''.convert.tmp'')" using assms(4) by (auto simp: good_comp_def)
  then have "path_base tmp = path_base path @ ''.convert.tmp''"
    unfolding tmp_def by (rule path_base_join)
  then have ne: "tmp \<noteq> path" by auto
  obtain e w1 where cv: "convertUDIF dmg path tmp fmt w = (e, w1)" by force
  obtain q w2 where rn: "sys_rename tmp path w1 = (q, w2)" by force
  note R = convert_replace [OF assms(1,2) ne cv rn]
  show ?thesis
  proof (cases e)
    case (Some x)
    then have "files w' = (files w)(tmp := None)" "r \<noteq> None"
      using assms(3,5) R(1) cv by (auto simp: ConvertImageFormat_def Let_def tmp_def [symmetric])
    then show ?thesis by auto
  next
    case None
    then show ?thesis
      using assms(3,5) R(2,3) cv rn
      by (cases q) (auto simp: ConvertImageFormat_def Let_def tmp_def [symmetric])
  qed
qed

theorem convert_image_atomic_witness:
  "files (snd (ConvertImageFormat idle_dmg ''d/a.dmg'' ''UDZO'' demo_world)) = (\<lambda>p. None)"
proof -
  have c: "convert_contract idle_dmg" by (simp add: convert_contract_def idle_dmg_def)
  obtain r w' where run: "ConvertImageFormat idle_dmg ''d/a.dmg'' ''UDZO'' demo_world = (r, w')" by force
  then have "r \<noteq> None" by (auto simp: ConvertImageFormat_def idle_dmg_def Let_def)
  moreover have "path_base ''d/a.dmg'' = ''a.dmg''" by (simp add: path_base_def)
  ultimately show ?thesis
    using convert_image_atomic [OF c quiet_no_remove_fault [OF quiet_demo_world] _ _ run] run
    by (auto simp: demo_world_def)
qed





end
