(* ===== verification/Size_Strings.thy ===== *)
theory Size_Strings
  imports Partitions Go_Strings
begin

text \<open>
  The three copies of \<open>parseSize\<close> (create/create.go, grow/grow.go, exec/exec_cmd_xfs.go) and
  the two copies of the integer \<open>humanSize\<close>. Each parser ranges over a Go map, so the order
  of the suffixes before the sort is not determined: it is an argument here, any list of the
  map's keys.
\<close>

section \<open>The suffix table and the sort\<close>

definition suffixes :: "(string \<times> int) list" where
  "suffixes =
     [(''b'', 1),
      (''k'', 1024), (''kb'', 1024), (''kib'', 1024),
      (''m'', 1024 * 1024), (''mb'', 1024 * 1024), (''mib'', 1024 * 1024),
      (''g'', 1024 * 1024 * 1024), (''gb'', 1024 * 1024 * 1024), (''gib'', 1024 * 1024 * 1024),
      (''t'', 1024 * 1024 * 1024 * 1024), (''tb'', 1024 * 1024 * 1024 * 1024),
      (''tib'', 1024 * 1024 * 1024 * 1024)]"

text \<open>A Go map read with a key that is in it.\<close>

definition suffix_mult :: "string \<Rightarrow> int" where
  "suffix_mult k = (case map_of suffixes k of Some m \<Rightarrow> m | None \<Rightarrow> 0)"

text \<open>The order in which \<open>for k := range suffixes\<close> may visit the keys.\<close>

definition map_order :: "string list \<Rightarrow> bool" where
  "map_order ks \<longleftrightarrow> distinct ks \<and> set ks = fst ` set suffixes"

text \<open>The inner and the outer loop of the sort by length, longest first.\<close>

fun sift :: "nat \<Rightarrow> string list \<Rightarrow> string list" where
  "sift 0 keys = keys"
| "sift (Suc j) keys =
     (if length (keys ! Suc j) > length (keys ! j) then sift j (swap_at (Suc j) j keys) else keys)"

lemma length_sift [simp]: "length (sift j keys) = length keys"
  by (induction j keys rule: sift.induct) (auto simp: swap_at_def)

function sort_keys :: "nat \<Rightarrow> string list \<Rightarrow> string list" where
  "sort_keys i keys = (if i < length keys then sort_keys (Suc i) (sift i keys) else keys)"
  by pat_completeness auto
termination by (relation "measure (\<lambda>(i, keys). length keys - i)") auto

declare sort_keys.simps [simp del]

text \<open>The loop over the sorted suffixes: the size for the first one that fits.\<close>

fun suffix_loop :: "string \<Rightarrow> string list \<Rightarrow> (error + int) option" where
  "suffix_loop lower [] = None"
| "suffix_loop lower (suf # sufs) =
     (if has_suffix lower suf then
        (let numStr = trim_space (trim_suffix lower suf) in
         case parse_int 10 64 numStr of
           None \<Rightarrow> Some (Inl (Msg ''cannot parse number''))
         | Some n \<Rightarrow>
             if n \<le> 0 then Some (Inl (Msg ''size must be positive''))
             else Some (Inr (i64 (n * suffix_mult suf))))
      else suffix_loop lower sufs)"

definition plain_size :: "string \<Rightarrow> error + int" where
  "plain_size s =
     (case parse_int 10 64 s of
        None \<Rightarrow> Inl (Msg ''cannot parse size'')
      | Some n \<Rightarrow> if n \<le> 0 then Inl (Msg ''size must be positive'') else Inr n)"

definition create_parseSize :: "string list \<Rightarrow> string \<Rightarrow> error + int" where
  "create_parseSize order s0 =
     (let s = trim_space s0 in
      if s = '''' then Inl (Msg ''empty size string'')
      else
        (let lower = to_lower s;
             keys = sort_keys 1 order
         in case suffix_loop lower keys of Some r \<Rightarrow> r | None \<Rightarrow> plain_size s))"

definition grow_parseSize :: "string list \<Rightarrow> string \<Rightarrow> error + int" where
  "grow_parseSize order s0 =
     (let s = trim_space s0 in
      if s = '''' then Inl (Msg ''empty size string'')
      else
        (let lower = to_lower s;
             keys = sort_keys 1 order
         in case suffix_loop lower keys of Some r \<Rightarrow> r | None \<Rightarrow> plain_size lower))"

definition exec_parseSize :: "string list \<Rightarrow> string \<Rightarrow> error + int" where
  "exec_parseSize order s0 =
     (let s = trim_space s0 in
      if s = '''' then Inl (Msg ''empty size string'')
      else
        (let lower = to_lower s;
             keys = sort_keys 1 order
         in case suffix_loop lower keys of Some r \<Rightarrow> r | None \<Rightarrow> plain_size lower))"

text \<open>\<open>humanSize\<close> of create.go and grow.go.\<close>

definition kib :: int where "kib = 1024"
definition mib :: int where "mib = 1024 * kib"
definition gib :: int where "gib = 1024 * mib"
definition tib :: int where "tib = 1024 * gib"

definition create_humanSize :: "int \<Rightarrow> string" where
  "create_humanSize b =
     (if b \<ge> tib \<and> b smod tib = 0 then itoa (b sdiv tib) @ ''TiB''
      else if b \<ge> gib \<and> b smod gib = 0 then itoa (b sdiv gib) @ ''GiB''
      else if b \<ge> mib \<and> b smod mib = 0 then itoa (b sdiv mib) @ ''MiB''
      else if b \<ge> kib \<and> b smod kib = 0 then itoa (b sdiv kib) @ ''KiB''
      else itoa b @ ''B'')"

definition grow_humanSize :: "int \<Rightarrow> string" where
  "grow_humanSize b =
     (if b \<ge> tib \<and> b smod tib = 0 then itoa (b sdiv tib) @ ''TiB''
      else if b \<ge> gib \<and> b smod gib = 0 then itoa (b sdiv gib) @ ''GiB''
      else if b \<ge> mib \<and> b smod mib = 0 then itoa (b sdiv mib) @ ''MiB''
      else if b \<ge> kib \<and> b smod kib = 0 then itoa (b sdiv kib) @ ''KiB''
      else itoa b @ ''B'')"

section \<open>The sort\<close>

abbreviation longer_first :: "string list \<Rightarrow> bool" where
  "longer_first \<equiv> sorted_wrt (\<lambda>x y. length y \<le> length x)"

definition insort_len :: "string \<Rightarrow> string list \<Rightarrow> string list" where
  "insort_len x xs = filter (\<lambda>y. length x \<le> length y) xs @ x # filter (\<lambda>y. length y < length x) xs"

lemma longer_first_snoc: "longer_first (xs @ [z]) \<longleftrightarrow> longer_first xs \<and> (\<forall>y\<in>set xs. length z \<le> length y)"
  by (auto simp: sorted_wrt_append)

lemma swap_at_append: "length xs = j \<Longrightarrow> swap_at (Suc j) j (xs @ z # x # ys) = xs @ x # z # ys"
  by (simp add: swap_at_def nth_append list_update_append)

lemma sift_insort:
  "longer_first xs \<Longrightarrow> sift (length xs) (xs @ x # ys) = insort_len x xs @ ys"
proof (induction xs arbitrary: ys rule: rev_induct)
  case Nil
  then show ?case by (simp add: insort_len_def)
next
  case (snoc z xs)
  then have s: "longer_first xs" "\<forall>y\<in>set xs. length z \<le> length y"
    by (simp_all add: longer_first_snoc)
  show ?case
  proof (cases "length x > length z")
    case True
    then have "sift (length (xs @ [z])) ((xs @ [z]) @ x # ys) = sift (length xs) (xs @ x # z # ys)"
      by (simp add: nth_append swap_at_append)
    also have "\<dots> = insort_len x xs @ z # ys" by (rule snoc.IH [OF s(1)])
    finally show ?thesis using True by (simp add: insort_len_def)
  next
    case False
    then have "\<forall>y\<in>set xs. length x \<le> length y" using s(2) by auto
    then have "filter (\<lambda>y. length x \<le> length y) xs = xs" "filter (\<lambda>y. length y < length x) xs = []"
      by (auto simp: filter_empty_conv not_less)
    then show ?thesis using False by (simp add: nth_append insort_len_def)
  qed
qed

lemma longer_first_insort: "longer_first xs \<Longrightarrow> longer_first (insort_len x xs)"
  by (auto simp: insort_len_def sorted_wrt_append sorted_wrt_filter)

lemma set_insort_len: "set (insort_len x xs) = insert x (set xs)"
  by (auto simp: insort_len_def)

lemma sort_keys_correct:
  assumes "longer_first (take i keys)" and "i \<le> length keys"
  shows "longer_first (sort_keys i keys) \<and> set (sort_keys i keys) = set keys"
  using assms
proof (induction i keys rule: sort_keys.induct)
  case (1 i keys)
  show ?case
  proof (cases "i < length keys")
    case True
    define x ys where "x = keys ! i" and "ys = drop (Suc i) keys"
    have split: "keys = take i keys @ x # ys" using True by (simp add: x_def ys_def id_take_nth_drop)
    have len: "length (take i keys) = i" using True by simp
    have sift: "sift i keys = insort_len x (take i keys) @ ys"
      using sift_insort [OF "1.prems"(1), of x ys] len split by simp
    have li: "length (insort_len x (take i keys)) = Suc i"
    proof -
      have "length (sift i keys) = length keys" by simp
      moreover have "length ys = length keys - Suc i" by (simp add: ys_def)
      ultimately show ?thesis using True unfolding sift by simp
    qed
    then have "take (Suc i) (sift i keys) = insort_len x (take i keys)" unfolding sift by simp
    then have "longer_first (take (Suc i) (sift i keys))" using longer_first_insort [OF "1.prems"(1)] by simp
    moreover have "set (sift i keys) = set keys"
    proof -
      have "set (sift i keys) = insert x (set (take i keys)) \<union> set ys" unfolding sift by (simp add: set_insort_len)
      also have "\<dots> = set (take i keys @ x # ys)" by simp
      also have "\<dots> = set keys" using split by simp
      finally show ?thesis .
    qed
    ultimately show ?thesis using "1.IH" [OF True] True by (simp add: sort_keys.simps [of i keys])
  next
    case False
    then have "sort_keys i keys = keys" by (subst sort_keys.simps) simp
    then show ?thesis using "1.prems" False by simp
  qed
qed

section \<open>The parsers do not depend on the order of the map\<close>

text \<open>The order the specification looks the suffixes up in.\<close>

definition sorted_suffixes :: "string list" where
  "sorted_suffixes =
     [''kib'', ''mib'', ''gib'', ''tib'', ''kb'', ''mb'', ''gb'', ''tb'', ''b'', ''k'', ''m'', ''g'', ''t'']"

lemma has_suffix_iff: "has_suffix s p \<longleftrightarrow> suffix p s"
  by (simp add: has_suffix_def has_prefix_iff suffix_to_prefix)

lemma longest_suffix_unique:
  assumes "longer_first ks" and "longer_first ls" and "set ks = set ls"
  shows "suffix_loop s ks = suffix_loop s ls"
proof -
  have first: "suffix_loop s ks = None \<and> (\<forall>k\<in>set ks. \<not> has_suffix s k) \<or>
      (\<exists>k\<in>set ks. has_suffix s k \<and> suffix_loop s ks = suffix_loop s [k] \<and>
        (\<forall>l\<in>set ks. has_suffix s l \<longrightarrow> length l \<le> length k))"
    if "longer_first ks" for ks
    using that
  proof (induction ks)
    case (Cons k ks)
    show ?case
    proof (cases "has_suffix s k")
      case True
      then show ?thesis using Cons.prems by auto
    next
      case False
      then show ?thesis using Cons by auto
    qed
  qed simp
  have same: "k = l" if "has_suffix s k" "has_suffix s l" "length k = length l" for k l
    using that by (auto simp: has_suffix_iff suffix_def)
  show ?thesis
    using first [OF assms(1)] first [OF assms(2)]
  proof (elim disjE bexE conjE)
    fix k l
    assume "k \<in> set ks" "has_suffix s k" "suffix_loop s ks = suffix_loop s [k]"
      "\<forall>m\<in>set ks. has_suffix s m \<longrightarrow> length m \<le> length k"
      "l \<in> set ls" "has_suffix s l" "suffix_loop s ls = suffix_loop s [l]"
      "\<forall>m\<in>set ls. has_suffix s m \<longrightarrow> length m \<le> length l"
    then show ?thesis using same [of k l] assms(3) by (metis order_antisym)
  qed (use assms(3) in auto)
qed

lemma sort_keys_suffix_loop:
  assumes "map_order order"
  shows "suffix_loop s (sort_keys 1 order) = suffix_loop s sorted_suffixes"
proof -
  have o: "set order = fst ` set suffixes" using assms by (simp add: map_order_def)
  then have "''b'' \<in> set order" by (simp add: suffixes_def)
  then obtain x xs where "order = x # xs" by (cases order) simp_all
  then have "longer_first (take 1 order)" and "1 \<le> length order" by simp_all
  note S = sort_keys_correct [OF this]
  then have "longer_first (sort_keys 1 order)" and "set (sort_keys 1 order) = set order"
    by (rule conjunct1, rule conjunct2)
  then show ?thesis
    using o by (intro longest_suffix_unique) (auto simp: sorted_suffixes_def suffixes_def)
qed

definition size_spec :: "string \<Rightarrow> error + int" where
  "size_spec s0 =
     (let s = trim_space s0 in
      if s = '''' then Inl (Msg ''empty size string'')
      else (case suffix_loop (to_lower s) sorted_suffixes of Some r \<Rightarrow> r | None \<Rightarrow> plain_size s))"

lemma digit_val_lower [simp]: "digit_val (lower_char c) = digit_val c"
  by (auto simp: digit_val_def lower_char_def Let_def of_char_of)

lemma str_nat_acc_lower: "str_nat_acc b acc (map lower_char s) = str_nat_acc b acc s"
  by (induction s arbitrary: acc) (auto split: option.splits)

lemma lower_char_sign: "lower_char c = CHR ''-'' \<longleftrightarrow> c = CHR ''-''" "lower_char c = CHR ''+'' \<longleftrightarrow> c = CHR ''+''"
proof -
  have up: "(of_char (lower_char c) :: nat) = of_char c \<or> (97 \<le> (of_char (lower_char c) :: nat) \<and> 65 \<le> (of_char c :: nat))"
    by (auto simp: lower_char_def of_char_of)
  have m: "(of_char (CHR ''-'') :: nat) = 45" "(of_char (CHR ''+'') :: nat) = 43" by simp_all
  have inj: "x = y \<longleftrightarrow> (of_char x :: nat) = of_char y" for x y :: char by simp
  show "lower_char c = CHR ''-'' \<longleftrightarrow> c = CHR ''-''" "lower_char c = CHR ''+'' \<longleftrightarrow> c = CHR ''+''"
    using up m unfolding inj by auto
qed

lemma parse_int_lower: "parse_int b n (to_lower s) = parse_int b n s"
proof (cases s)
  case (Cons c cs)
  then show ?thesis
    by (auto simp: parse_int_def Let_def to_lower_def lower_char_sign str_nat_def str_nat_acc_lower
        split: option.splits)
qed (simp add: to_lower_def)

lemma plain_size_lower: "plain_size (to_lower s) = plain_size s"
  by (simp add: plain_size_def parse_int_lower)

section \<open>Printing and parsing a size\<close>

lemma set_nat_str: "set (nat_str 10 n) \<subseteq> digit_char ` {0..<10}"
proof (induction n rule: less_induct)
  case (less n)
  show ?case
  proof (cases "n < 10")
    case True
    then show ?thesis by (subst nat_str.simps) auto
  next
    case False
    then have "n div 10 < n" by simp
    from less.IH [OF this] False show ?thesis by (subst nat_str.simps) auto
  qed
qed

lemma digits_are_digits:
  assumes "c \<in> digit_char ` {0..<10}"
  shows "\<not> is_space c" and "lower_char c = c" and "c \<notin> {CHR ''k'', CHR ''m'', CHR ''g'', CHR ''t'', CHR ''i''}"
proof -
  obtain d where d: "c = digit_char d" "d < 10" using assms by auto
  then have v: "digit_val c = Some d" by (simp add: digit_val_char)
  have n: "(of_char c :: nat) = 48 + d" using d by (simp add: digit_char_def of_char_of)
  show "\<not> is_space c" "lower_char c = c" using n d(2) by (auto simp: is_space_def lower_char_def)
  show "c \<notin> {CHR ''k'', CHR ''m'', CHR ''g'', CHR ''t'', CHR ''i''}"
    using v d(2) by (auto simp: digit_val_def Let_def)
qed

lemma digits_string:
  fixes n :: nat
  defines "s \<equiv> nat_str 10 n"
  shows "to_lower s = s" and "trim_space s = s" and "last s \<notin> {CHR ''k'', CHR ''m'', CHR ''g'', CHR ''t'', CHR ''i''}"
    and "\<not> is_space (hd s)"
proof -
  have all: "c \<in> digit_char ` {0..<10}" if "c \<in> set s" for c
    using set_nat_str [of n] that by (auto simp: s_def)
  have ne: "s \<noteq> []" by (simp add: s_def)
  show "to_lower s = s" using digits_are_digits(2) [OF all] by (simp add: to_lower_def map_idI)
  show hd: "\<not> is_space (hd s)" using digits_are_digits(1) [OF all [OF hd_in_set [OF ne]]] .
  have last: "\<not> is_space (last s)" using digits_are_digits(1) [OF all [OF last_in_set [OF ne]]] .
  show "last s \<notin> {CHR ''k'', CHR ''m'', CHR ''g'', CHR ''t'', CHR ''i''}"
    by (rule digits_are_digits(3) [OF all [OF last_in_set [OF ne]]])
  have "dropWhile is_space s = s" using hd ne by (cases s) auto
  moreover have "dropWhile is_space (rev s) = rev s" using last ne by (cases "rev s") (auto simp: last_rev [symmetric] hd_rev)
  ultimately show "trim_space s = s" by (simp add: trim_space_def trim_func_def)
qed

lemma lower_suffixes:
  "to_lower ''TiB'' = ''tib''" "to_lower ''GiB'' = ''gib''" "to_lower ''MiB'' = ''mib''"
  "to_lower ''KiB'' = ''kib''" "to_lower ''B'' = ''b''"
  by code_simp+

lemma suffix_loop_find:
  "suffix_loop s ks = (case find (has_suffix s) ks of None \<Rightarrow> None | Some k \<Rightarrow> suffix_loop s [k])"
  by (induction ks) auto

lemma find_printed_suffix:
  assumes "t \<in> {''tib'', ''gib'', ''mib'', ''kib'', ''b''}"
    and "z \<notin> {CHR ''k'', CHR ''m'', CHR ''g'', CHR ''t'', CHR ''i''}"
  shows "find (has_suffix (xs @ [z] @ t)) sorted_suffixes = Some t"
  using assms(1)
  by (elim insertE emptyE)
    (use assms(2) in \<open>simp_all add: sorted_suffixes_def has_suffix_def has_prefix_def\<close>)

text \<open>A number in front of one of the suffixes that \<open>humanSize\<close> prints.\<close>

lemma size_spec_digits:
  assumes "suf \<in> {''TiB'', ''GiB'', ''MiB'', ''KiB'', ''B''}" and "0 < n" and "n < 2 ^ 63"
  shows "size_spec (nat_str 10 n @ suf) = Inr (i64 (int n * suffix_mult (to_lower suf)))"
proof -
  let ?d = "nat_str 10 n"
  note D = digits_string [of n]
  have ne: "?d \<noteq> []" by simp
  have t: "trim_space (?d @ suf) = ?d @ suf"
  proof -
    have "dropWhile is_space (?d @ suf) = ?d @ suf" using D(4) by (cases ?d) auto
    moreover have "dropWhile is_space (rev (?d @ suf)) = rev (?d @ suf)" using assms(1) by (auto simp: is_space_def)
    ultimately show ?thesis by (simp add: trim_space_def trim_func_def)
  qed
  have l: "to_lower (?d @ suf) = ?d @ to_lower suf" using D(1) by (simp add: to_lower_def)
  have p: "parse_int 10 64 ?d = Some (int n)"
    using parse_int_itoa [of "int n"] assms(3) by (simp add: itoa_def)
  obtain xs z where d: "?d = xs @ [z]" "z \<notin> {CHR ''k'', CHR ''m'', CHR ''g'', CHR ''t'', CHR ''i''}"
    using D(3) by (metis append_butlast_last_id ne)
  have suf: "to_lower suf \<in> {''tib'', ''gib'', ''mib'', ''kib'', ''b''}"
    using assms(1) lower_suffixes by auto
  have "find (has_suffix (xs @ [z] @ to_lower suf)) sorted_suffixes = Some (to_lower suf)"
    by (rule find_printed_suffix [OF suf d(2)])
  then have "suffix_loop (?d @ to_lower suf) sorted_suffixes = suffix_loop (?d @ to_lower suf) [to_lower suf]"
    unfolding d(1) append_assoc by (subst suffix_loop_find) (simp only: option.case)
  also have "\<dots> = Some (Inr (i64 (int n * suffix_mult (to_lower suf))))"
    using p D(2) assms(2) by (simp add: has_suffix_iff trim_suffix_def suffix_def)
  finally show ?thesis using ne by (simp add: size_spec_def Let_def t l)
qed

lemma size_spec_humanSize:
  assumes "0 < b" and "b < 2 ^ 63"
  shows "size_spec (create_humanSize b) = Inr b"
proof -
  have unit: "size_spec (itoa (b sdiv u) @ suf) = Inr b"
    if "suf \<in> {''TiB'', ''GiB'', ''MiB'', ''KiB'', ''B''}" "suffix_mult (to_lower suf) = u" "0 < u" "u \<le> b" "b smod u = 0"
    for u suf
  proof -
    have m: "b mod u = 0" "b sdiv u = b div u" using that(3,5) assms(1) by (simp_all add: smod_pos sdiv_pos)
    have bu: "b div u * u = b" using m(1) div_mult_mod_eq [of b u] by simp
    have "0 < b div u" using that(3,4) by (simp add: pos_imp_zdiv_pos_iff)
    moreover have "b div u \<le> b" using assms(1) that(3) zdiv_mono2 [of b 1 u] by simp
    ultimately have "0 < nat (b div u)" "nat (b div u) < 2 ^ 63" using assms(2) by auto
    from size_spec_digits [OF that(1) this] show ?thesis
      using that(2) m(2) bu \<open>0 < b div u\<close> assms by (simp add: itoa_def)
  qed
  have m: "suffix_mult (to_lower ''TiB'') = tib" "suffix_mult (to_lower ''GiB'') = gib"
    "suffix_mult (to_lower ''MiB'') = mib" "suffix_mult (to_lower ''KiB'') = kib" "suffix_mult (to_lower ''B'') = 1"
    by (simp_all add: suffix_mult_def suffixes_def lower_suffixes tib_def gib_def mib_def kib_def)
  have pos: "0 < tib" "0 < gib" "0 < mib" "0 < kib"
    by (simp_all add: tib_def gib_def mib_def kib_def)
  have one: "size_spec (itoa b @ ''B'') = Inr b"
    using unit [of "''B''" 1] m(5) assms(1) by (simp add: sdiv_pos smod_pos)
  show ?thesis
    unfolding create_humanSize_def
    using unit [OF _ m(1) pos(1)] unit [OF _ m(2) pos(2)] unit [OF _ m(3) pos(3)] unit [OF _ m(4) pos(4)] one
    by simp
qed

section \<open>The contract of a size parser\<close>

text \<open>
  What the commands rely on when they parse a size: the result is that of \<open>size_spec\<close>,
  however the Go map was ordered.
\<close>

locale size_parser =
  fixes parse :: "string list \<Rightarrow> string \<Rightarrow> error + int"
  assumes parse_law: "map_order order \<Longrightarrow> parse order s = size_spec s"
begin

lemma order_irrelevant: "map_order o1 \<Longrightarrow> map_order o2 \<Longrightarrow> parse o1 s = parse o2 s"
  by (simp add: parse_law)

lemma parse_printed: "map_order order \<Longrightarrow> 0 < b \<Longrightarrow> b < 2 ^ 63 \<Longrightarrow> parse order (create_humanSize b) = Inr b"
  by (simp add: parse_law size_spec_humanSize)

end

lemma case_plain_size: "(case x of Some r \<Rightarrow> r | None \<Rightarrow> plain_size (to_lower s)) = (case x of Some r \<Rightarrow> r | None \<Rightarrow> plain_size s)"
  by (cases x) (simp_all add: plain_size_lower)

interpretation create_size: size_parser create_parseSize
  by unfold_locales (simp only: create_parseSize_def size_spec_def Let_def sort_keys_suffix_loop)

interpretation grow_size: size_parser grow_parseSize
  by unfold_locales (simp only: grow_parseSize_def size_spec_def Let_def sort_keys_suffix_loop case_plain_size)

interpretation exec_size: size_parser exec_parseSize
  by unfold_locales (simp only: exec_parseSize_def size_spec_def Let_def sort_keys_suffix_loop case_plain_size)

section \<open>Properties\<close>

text \<open>C18: The three copies of \<open>parseSize\<close> are one function, and none of them depends on the order
  in which Go ranges over the suffix map.\<close>

theorem size_parsers_agree:
  assumes "map_order o1" and "map_order o2" and "map_order o3"
  shows "create_parseSize o1 s = grow_parseSize o2 s \<and> grow_parseSize o2 s = exec_parseSize o3 s"
  using create_size.parse_law [OF assms(1)] grow_size.parse_law [OF assms(2)] exec_size.parse_law [OF assms(3)]
  by simp

theorem size_parsers_agree_witness:
  "create_parseSize sorted_suffixes ''10G'' = exec_parseSize (rev sorted_suffixes) ''10G''"
proof -
  have "map_order sorted_suffixes" "map_order (rev sorted_suffixes)"
    by (auto simp: map_order_def sorted_suffixes_def suffixes_def)
  then show ?thesis using size_parsers_agree [of sorted_suffixes sorted_suffixes "rev sorted_suffixes" "''10G''"] by simp
qed

text \<open>C19: What \<open>humanSize\<close> prints for a positive size, \<open>parseSize\<close> reads back to the same number.\<close>

theorem parse_printed_size:
  assumes "map_order order" and "0 < b" and "b < 2 ^ 63"
  shows "create_parseSize order (create_humanSize b) = Inr b \<and> grow_parseSize order (grow_humanSize b) = Inr b"
proof -
  have "grow_humanSize b = create_humanSize b" by (simp add: grow_humanSize_def create_humanSize_def)
  then show ?thesis
    using create_size.parse_printed [OF assms] grow_size.parse_printed [OF assms] by simp
qed

theorem parse_printed_size_witness:
  "create_parseSize sorted_suffixes (create_humanSize 10737418240) = Inr 10737418240"
proof -
  have "map_order sorted_suffixes"
    by (auto simp: map_order_def sorted_suffixes_def suffixes_def)
  from parse_printed_size [OF this, of 10737418240] show ?thesis by simp
qed

text \<open>C25: \<open>parseSize\<close> multiplies in 64 bits without a check: a size of \<open>n\<close> TiB is taken modulo
  2^64, so that \<open>16777217TiB\<close> is accepted as 1 TiB.\<close>

theorem parse_size_wraps:
  assumes "map_order order" and "0 < n" and "n < 2 ^ 63"
  shows "create_parseSize order (nat_str 10 n @ ''TiB'') = Inr (i64 (int n * 2 ^ 40))"
  using create_size.parse_law [OF assms(1)] size_spec_digits [of "''TiB''" n] assms(2,3)
  by (simp add: lower_suffixes suffix_mult_def suffixes_def)

theorem parse_size_wraps_witness:
  "create_parseSize sorted_suffixes ''16777217TiB'' = Inr (2 ^ 40)"
proof -
  have o: "map_order sorted_suffixes"
    by (auto simp: map_order_def sorted_suffixes_def suffixes_def)
  have "nat_str 10 16777217 = ''16777217''"
    by (simp add: nat_str.simps digit_char_def char_of_def bit_Suc_0_iff)
  moreover have "create_parseSize sorted_suffixes (nat_str 10 16777217 @ ''TiB'') = Inr (i64 (int 16777217 * 2 ^ 40))"
    by (rule parse_size_wraps [OF o]) simp_all
  moreover have "i64 (int 16777217 * 2 ^ 40) = 2 ^ 40" by (simp add: i64_def)
  moreover have "''16777217'' @ ''TiB'' = ''16777217TiB''" by simp
  ultimately show ?thesis by argo
qed

end
