(* ===== verification/Exec_Utils.thy ===== *)
theory Exec_Utils
  imports File_Ops
begin

text \<open>
  exec_utils.go: the mode string and the type indicator of a directory entry, and the
  human-readable size, with the \<open>float64\<close> arithmetic and the rounding of \<open>%.1f\<close> written
  out over integers.
\<close>

section \<open>Modes\<close>

type_synonym mode = "16 word"

definition mode_type :: "mode \<Rightarrow> mode" where
  "mode_type m = drop_bit 12 m AND 0xF"

definition byteIf :: "bool \<Rightarrow> char \<Rightarrow> char \<Rightarrow> char" where
  "byteIf cond t f = (if cond then t else f)"

definition indicator_of :: "mode \<Rightarrow> byte \<Rightarrow> string" where
  "indicator_of m ftype =
     (if mode_type m = 0x4 then ''/''
      else if mode_type m = 0xA then ''@''
      else if mode_type m = 0x1 then ''|''
      else if mode_type m = 0xC then ''=''
      else if mode_type m = 0x8 \<and> m AND 0x49 \<noteq> 0 then ''*''
      else if m = 0 \<and> ftype = 2 then ''/''
      else '''')"

definition indicator :: "ListEntry \<Rightarrow> bool \<Rightarrow> string" where
  "indicator e classify = (if \<not> classify then '''' else indicator_of (le_Mode e) (le_FileType e))"

text \<open>The first letter, by the file type.\<close>

definition type_char :: "mode \<Rightarrow> char" where
  "type_char t =
     (if t = 0x4 then CHR ''d'' else if t = 0xA then CHR ''l''
      else if t = 0x6 then CHR ''b'' else if t = 0x2 then CHR ''c''
      else if t = 0x1 then CHR ''p'' else if t = 0xC then CHR ''s'' else CHR ''-'')"

definition modeString :: "mode \<Rightarrow> string" where
  "modeString m =
     (if m = 0 then ''??????????''
      else
        (let c0 = type_char (mode_type m);
             owner = drop_bit 6 m AND 7;
             group = drop_bit 3 m AND 7;
             other = m AND 7
         in [c0,
             byteIf (owner AND 4 \<noteq> 0) (CHR ''r'') (CHR ''-''),
             byteIf (owner AND 2 \<noteq> 0) (CHR ''w'') (CHR ''-''),
             (if m AND 0x800 \<noteq> 0 then byteIf (owner AND 1 \<noteq> 0) (CHR ''s'') (CHR ''S'')
              else byteIf (owner AND 1 \<noteq> 0) (CHR ''x'') (CHR ''-'')),
             byteIf (group AND 4 \<noteq> 0) (CHR ''r'') (CHR ''-''),
             byteIf (group AND 2 \<noteq> 0) (CHR ''w'') (CHR ''-''),
             (if m AND 0x400 \<noteq> 0 then byteIf (group AND 1 \<noteq> 0) (CHR ''s'') (CHR ''S'')
              else byteIf (group AND 1 \<noteq> 0) (CHR ''x'') (CHR ''-'')),
             byteIf (other AND 4 \<noteq> 0) (CHR ''r'') (CHR ''-''),
             byteIf (other AND 2 \<noteq> 0) (CHR ''w'') (CHR ''-''),
             (if m AND 0x200 \<noteq> 0 then byteIf (other AND 1 \<noteq> 0) (CHR ''t'') (CHR ''T'')
              else byteIf (other AND 1 \<noteq> 0) (CHR ''x'') (CHR ''-''))]))"

section \<open>Human-readable sizes\<close>

text \<open>
  \<open>float64(b)\<close> of a 64-bit number: exact below 2^53, otherwise rounded to a multiple of a
  power of two, ties to even. Dividing by a power of two is exact, and \<open>%.1f\<close> rounds the
  exact quotient to a tenth, ties to even.
\<close>

definition round_div :: "nat \<Rightarrow> nat \<Rightarrow> nat" where
  "round_div n d =
     (let q = n div d; r = n mod d
      in if 2 * r < d then q else if d < 2 * r then Suc q else if even q then q else Suc q)"

function f64_shift :: "nat \<Rightarrow> nat" where
  "f64_shift n = (if n < 2 ^ 53 then 0 else Suc (f64_shift (n div 2)))"
  by pat_completeness auto
termination by (relation "measure id") auto

declare f64_shift.simps [simp del]

definition float64 :: "nat \<Rightarrow> nat" where
  "float64 n = round_div n (2 ^ f64_shift n) * 2 ^ f64_shift n"

definition tenths :: "nat \<Rightarrow> nat \<Rightarrow> nat" where
  "tenths b k = round_div (10 * float64 b) (2 ^ k)"

definition fmt_tenths :: "nat \<Rightarrow> string" where
  "fmt_tenths t = nat_str 10 (t div 10) @ ''.'' @ nat_str 10 (t mod 10)"

definition exec_humanSize :: "nat \<Rightarrow> string" where
  "exec_humanSize b =
     (if b \<ge> 2 ^ 40 then fmt_tenths (tenths b 40) @ ''T''
      else if b \<ge> 2 ^ 30 then fmt_tenths (tenths b 30) @ ''G''
      else if b \<ge> 2 ^ 20 then fmt_tenths (tenths b 20) @ ''M''
      else if b \<ge> 2 ^ 10 then fmt_tenths (tenths b 10) @ ''K''
      else nat_str 10 b)"

lemma round_div_error:
  assumes "0 < d"
  shows "2 * (round_div n d * d) \<le> 2 * n + d" and "2 * n \<le> 2 * (round_div n d * d) + d"
proof -
  define a where "a = n div d * d"
  have n: "n = a + n mod d" by (simp add: a_def)
  have r: "n mod d < d" using assms by simp
  have "round_div n d * d = (if 2 * (n mod d) < d \<or> 2 * (n mod d) = d \<and> even (n div d) then a else a + d)"
    by (auto simp: round_div_def Let_def a_def)
  then have "2 * (round_div n d * d) \<le> 2 * n + d \<and> 2 * n \<le> 2 * (round_div n d * d) + d"
    using n r by (auto split: if_splits)
  then show "2 * (round_div n d * d) \<le> 2 * n + d" "2 * n \<le> 2 * (round_div n d * d) + d" by auto
qed

lemma float64_exact: "n < 2 ^ 53 \<Longrightarrow> float64 n = n"
  by (simp add: float64_def f64_shift.simps [of n] round_div_def)

section \<open>The bits a mode string shows\<close>

lemma and_pow2: "(drop_bit k m AND 2 ^ j \<noteq> 0) = bit m (k + j)" for m :: "16 word"
  by (simp add: and_exp_eq_0_iff_not_bit bit_drop_bit_eq)

lemma mode_bits:
  fixes m :: mode
  shows "((drop_bit 6 m AND 7) AND 4 \<noteq> 0) = bit m 8" "((drop_bit 6 m AND 7) AND 2 \<noteq> 0) = bit m 7"
    "((drop_bit 6 m AND 7) AND 1 \<noteq> 0) = bit m 6"
    "((drop_bit 3 m AND 7) AND 4 \<noteq> 0) = bit m 5" "((drop_bit 3 m AND 7) AND 2 \<noteq> 0) = bit m 4"
    "((drop_bit 3 m AND 7) AND 1 \<noteq> 0) = bit m 3"
    "((m AND 7) AND 4 \<noteq> 0) = bit m 2" "((m AND 7) AND 2 \<noteq> 0) = bit m 1" "((m AND 7) AND 1 \<noteq> 0) = bit m 0"
    "(m AND 0x800 \<noteq> 0) = bit m 11" "(m AND 0x400 \<noteq> 0) = bit m 10" "(m AND 0x200 \<noteq> 0) = bit m 9"
  using and_pow2 [of 6 m 2] and_pow2 [of 6 m 1] and_pow2 [of 6 m 0]
    and_pow2 [of 3 m 2] and_pow2 [of 3 m 1] and_pow2 [of 3 m 0]
    and_pow2 [of 0 m 2] and_pow2 [of 0 m 1] and_pow2 [of 0 m 0]
    and_pow2 [of 0 m 11] and_pow2 [of 0 m 10] and_pow2 [of 0 m 9]
  by (simp_all add: and.assoc numeral_2_eq_2)

lemma bit_mode_type: "bit (mode_type m) n = (n < 4 \<and> bit m (n + 12))"
proof -
  have "mode_type m = drop_bit 12 m AND mask 4" by (simp add: mode_type_def mask_eq_exp_minus_1)
  then show ?thesis
    by (auto simp: bit_and_iff bit_drop_bit_eq bit_mask_iff add.commute)
qed

lemma mode_eqI:
  fixes m m' :: mode
  assumes "mode_type m = mode_type m'" and "\<And>n. n < 12 \<Longrightarrow> bit m n = bit m' n"
  shows "m = m'"
proof (rule bit_word_eqI)
  fix n assume n: "n < LENGTH(16)"
  show "bit m n = bit m' n"
  proof (cases "n < 12")
    case True
    then show ?thesis by (rule assms(2))
  next
    case False
    then have "n - 12 < 4" "n - 12 + 12 = n" using n by auto
    then have "bit (mode_type m) (n - 12) = bit m n" "bit (mode_type m') (n - 12) = bit m' n"
      unfolding bit_mode_type by simp_all
    then show ?thesis using assms(1) by simp
  qed
qed

definition exec_char :: "bool \<Rightarrow> bool \<Rightarrow> char \<Rightarrow> char \<Rightarrow> char" where
  "exec_char special x lower upper =
     (if special then (if x then lower else upper) else (if x then CHR ''x'' else CHR ''-''))"

lemma letter_eq:
  "((if a then CHR ''r'' else CHR ''-'') = (if b then CHR ''r'' else CHR ''-'')) = (a = b)"
  "((if a then CHR ''w'' else CHR ''-'') = (if b then CHR ''w'' else CHR ''-'')) = (a = b)"
  by (cases a; cases b; simp)+

lemma exec_char_eq:
  "(exec_char a x (CHR ''s'') (CHR ''S'') = exec_char b y (CHR ''s'') (CHR ''S'')) = (a = b \<and> x = y)"
  "(exec_char a x (CHR ''t'') (CHR ''T'') = exec_char b y (CHR ''t'') (CHR ''T'')) = (a = b \<and> x = y)"
  by (cases a; cases b; cases x; cases y; simp add: exec_char_def)+

section \<open>Properties\<close>

text \<open>The types of file that POSIX has, each of which gets a letter of its own.\<close>

definition posix_type :: "mode \<Rightarrow> bool" where
  "posix_type m \<longleftrightarrow> mode_type m \<in> {0x1, 0x2, 0x4, 0x6, 0x8, 0xA, 0xC}"

text \<open>C22: The mode string shows the whole mode: two modes of POSIX file types that print alike
  are equal.\<close>

theorem modeString_injective:
  assumes "posix_type m" and "posix_type m'" and "modeString m = modeString m'"
  shows "m = m'"
proof -
  have nz: "m \<noteq> 0" "m' \<noteq> 0" using assms(1,2) by (auto simp: posix_type_def mode_type_def)
  have E: "modeString m = modeString m' \<longleftrightarrow>
      type_char (mode_type m) = type_char (mode_type m') \<and>
      (if bit m 8 then CHR ''r'' else CHR ''-'') = (if bit m' 8 then CHR ''r'' else CHR ''-'') \<and>
      (if bit m 7 then CHR ''w'' else CHR ''-'') = (if bit m' 7 then CHR ''w'' else CHR ''-'') \<and>
      exec_char (bit m 11) (bit m 6) (CHR ''s'') (CHR ''S'') = exec_char (bit m' 11) (bit m' 6) (CHR ''s'') (CHR ''S'') \<and>
      (if bit m 5 then CHR ''r'' else CHR ''-'') = (if bit m' 5 then CHR ''r'' else CHR ''-'') \<and>
      (if bit m 4 then CHR ''w'' else CHR ''-'') = (if bit m' 4 then CHR ''w'' else CHR ''-'') \<and>
      exec_char (bit m 10) (bit m 3) (CHR ''s'') (CHR ''S'') = exec_char (bit m' 10) (bit m' 3) (CHR ''s'') (CHR ''S'') \<and>
      (if bit m 2 then CHR ''r'' else CHR ''-'') = (if bit m' 2 then CHR ''r'' else CHR ''-'') \<and>
      (if bit m 1 then CHR ''w'' else CHR ''-'') = (if bit m' 1 then CHR ''w'' else CHR ''-'') \<and>
      exec_char (bit m 9) (bit m 0) (CHR ''t'') (CHR ''T'') = exec_char (bit m' 9) (bit m' 0) (CHR ''t'') (CHR ''T'')"
    using nz unfolding modeString_def Let_def mode_bits(1-6) unfolding mode_bits(7-12)
    by (simp only: byteIf_def exec_char_def if_False list.inject simp_thms)
  note E = assms(3) [unfolded E]
  have t: "mode_type m = mode_type m'"
    using E assms(1,2) unfolding posix_type_def
    by (elim insertE emptyE) (simp_all add: type_char_def)
  have bits: "bit m 8 = bit m' 8" "bit m 7 = bit m' 7" "bit m 5 = bit m' 5" "bit m 4 = bit m' 4"
    "bit m 2 = bit m' 2" "bit m 1 = bit m' 1"
    "bit m 11 = bit m' 11 \<and> bit m 6 = bit m' 6" "bit m 10 = bit m' 10 \<and> bit m 3 = bit m' 3"
    "bit m 9 = bit m' 9 \<and> bit m 0 = bit m' 0"
    using E by (simp_all only: letter_eq exec_char_eq)
  have "bit m n = bit m' n" if "n < 12" for n
  proof -
    have "n = 0 \<or> n = 1 \<or> n = 2 \<or> n = 3 \<or> n = 4 \<or> n = 5 \<or> n = 6 \<or> n = 7 \<or> n = 8 \<or> n = 9 \<or> n = 10 \<or> n = 11"
      using that by arith
    then show ?thesis using bits by (elim disjE) simp_all
  qed
  with t show ?thesis by (rule mode_eqI)
qed

theorem modeString_injective_witness:
  "modeString 0x81A4 \<noteq> modeString 0x81ED"
  using modeString_injective [of "0x81A4" "0x81ED"] by (auto simp: posix_type_def mode_type_def)



end
