(* ===== verification/Part_Print.thy ===== *)
theory Part_Print
  imports Exec_Utils
begin

text \<open>
  exec_cmd_part.go: listing the partitions of an image. The parser indexes its buffers with
  sizes taken from the image, so a run can end in a Go panic, which is an outcome of its own.
\<close>

datatype 'a outcome = Ok 'a | Err error | Panic

definition partSectorSize :: int where [simp]: "partSectorSize = 512"

record partitionEntry =
  pe_Index :: int
  pe_Start :: int
  pe_Size :: int
  pe_Type :: string

definition upper_hex_byte :: "byte \<Rightarrow> string" where
  "upper_hex_byte b =
     (let up = (\<lambda>d. if d < 10 then char_of (48 + d) else char_of (55 + d :: nat))
      in [up (unat b div 16), up (unat b mod 16)])"

fun mbr_entries :: "bytes \<Rightarrow> nat list \<Rightarrow> partitionEntry list" where
  "mbr_entries table [] = []"
| "mbr_entries table (i # is) =
     (let e = chunk (i * 16) 16 table;
          start = le_val (chunk 8 4 e);
          count = le_val (chunk 12 4 e)
      in if start = 0 \<or> count = 0 then mbr_entries table is
         else \<lparr>pe_Index = int i, pe_Start = start * partSectorSize, pe_Size = count * partSectorSize,
               pe_Type = ''0x'' @ upper_hex_byte (e ! 4)\<rparr> # mbr_entries table is)"

definition parseMBR :: "reader \<Rightarrow> error + partitionEntry list" where
  "parseMBR r =
     (case r 446 64 of
        (table, Some e) \<Rightarrow> Inl (Wrap ''read MBR table'' e)
      | (table, None) \<Rightarrow> Inr (mbr_entries table [0, 1, 2, 3]))"

text \<open>
  The loop of \<open>parseGPT\<close>. A buffer of \<open>entrySize\<close> bytes is sliced at 16 for the type and
  read at 32 and 40 for the two block addresses.
\<close>

function gpt_parts :: "reader \<Rightarrow> int \<Rightarrow> int \<Rightarrow> int \<Rightarrow> int \<Rightarrow> partitionEntry list \<Rightarrow> partitionEntry list outcome" where
  "gpt_parts r tableOff entrySize numParts i parts =
     (if i < numParts then
        (case r (i64 (tableOff + i64 (i * entrySize))) (nat entrySize) of
           (buf, Some e) \<Rightarrow> Ok parts
         | (buf, None) \<Rightarrow>
             if entrySize < 16 then Panic
             else if chunk 0 16 buf = replicate 16 0 then
               gpt_parts r tableOff entrySize numParts (i + 1) parts
             else if entrySize < 48 then Panic
             else
               (let start = le_val (chunk 32 8 buf);
                    end' = le_val (chunk 40 8 buf)
                in if start = 0 \<and> end' = 0 then
                     gpt_parts r tableOff entrySize numParts (i + 1) parts
                   else
                     (let sectors = u64 (end' - start + 1)
                      in gpt_parts r tableOff entrySize numParts (i + 1)
                           (parts @ [\<lparr>pe_Index = i, pe_Start = i64 (i64 start * partSectorSize),
                                      pe_Size = i64 (i64 sectors * partSectorSize),
                                      pe_Type = hex_encode (chunk 0 16 buf)\<rparr>]))))
      else Ok parts)"
  by pat_completeness auto
termination
  by (relation "measure (\<lambda>(r, t, e, n, i, ps). nat (n - i))") auto

declare gpt_parts.simps [simp del]

definition parseGPT :: "reader \<Rightarrow> partitionEntry list outcome" where
  "parseGPT r =
     (case r 512 92 of
        (hdr, Some e) \<Rightarrow> Err (Wrap ''read GPT header'' e)
      | (hdr, None) \<Rightarrow>
          (let partEntryLBA = le_val (chunk 72 8 hdr);
               numParts = le_val (chunk 80 4 hdr);
               entrySize = le_val (chunk 84 4 hdr);
               tableOff = i64 (i64 partEntryLBA * partSectorSize)
           in gpt_parts r tableOff entrySize numParts 0 []))"

definition part_line :: "partitionEntry \<Rightarrow> string" where
  "part_line p =
     itoa (pe_Index p) @ [CHR 0x09] @ itoa (pe_Start p sdiv partSectorSize) @ [CHR 0x09] @
     exec_humanSize (nat (u64 (pe_Size p))) @ [CHR 0x09] @ pe_Type p"

definition part_header :: string where
  "part_header = ''Index'' @ [CHR 0x09] @ ''Start(LBA)'' @ [CHR 0x09] @ ''Size'' @ [CHR 0x09] @ ''Type''"

definition print_parts :: "partitionEntry list \<Rightarrow> world \<Rightarrow> world" where
  "print_parts parts w =
     (if parts = [] then print_line ''no partitions found'' w
      else foldl (\<lambda>w p. print_line (part_line p) w) (print_line part_header w) parts)"

definition PartPrintFromImage :: "string \<Rightarrow> world \<Rightarrow> unit outcome \<times> world" where
  "PartPrintFromImage file w =
     (case sys_open file w of
        Some e \<Rightarrow> (Err e, w)
      | None \<Rightarrow>
          (let f = sys_read_at file w; sig = fst (f 512 8)
           in if length sig = 8 \<and> bytes_str sig = ''EFI PART'' then
                (case parseGPT f of
                   Panic \<Rightarrow> (Panic, w)
                 | Err e \<Rightarrow> (Err e, w)
                 | Ok parts \<Rightarrow> (Ok (), print_parts parts w))
              else
                (let sig2 = fst (f 510 2)
                 in if length sig2 = 2 \<and> sig2 ! 0 = 0x55 \<and> sig2 ! 1 = 0xAA then
                      (case parseMBR f of
                         Inl e \<Rightarrow> (Err e, w)
                       | Inr parts \<Rightarrow> (Ok (), print_parts parts w))
                    else (Ok (), print_line ''no partition table'' w))))"

section \<open>The parser and the offset search\<close>

lemma gpt_parts_sound:
  assumes "gpt_parts r t e n i ps = Ok qs"
    and "\<forall>p\<in>set ps. gpt_search r (pe_Index p) t e n j = Inr (pe_Start p) \<and> j \<le> pe_Index p"
    and "\<And>p. i \<le> p \<Longrightarrow> gpt_search r p t e n j = gpt_search r p t e n i" and "j \<le> i"
  shows "\<forall>p\<in>set qs. gpt_search r (pe_Index p) t e n j = Inr (pe_Start p) \<and> j \<le> pe_Index p"
  using assms
proof (induction r t e n i ps rule: gpt_parts.induct)
  case (1 r t e n i ps)
  show ?case
  proof (cases "i < n")
    case False
    then have "gpt_parts r t e n i ps = Ok ps" by (subst gpt_parts.simps) simp
    then show ?thesis using "1.prems" by simp
  next
    case True
    obtain buf er where rd: "r (i64 (t + i64 (i * e))) (nat e) = (buf, er)" by force
    show ?thesis
    proof (cases er)
      case (Some err)
      then have "gpt_parts r t e n i ps = Ok ps" using True rd by (subst gpt_parts.simps) simp
      then show ?thesis using "1.prems" by simp
    next
      case None
      have e16: "\<not> e < 16"
      proof
        assume "e < 16"
        then have "gpt_parts r t e n i ps = Panic" using True rd None by (subst gpt_parts.simps) simp
        then show False using "1.prems"(1) by simp
      qed
      have step: "gpt_search r p t e n i = gpt_search r p t e n (i + 1)" if "i + 1 \<le> p" for p
        using True rd None that by (subst gpt_search.simps) simp
      have jnext: "gpt_search r p t e n j = gpt_search r p t e n (i + 1)" if "i + 1 \<le> p" for p
        using "1.prems"(3) [of p] step [OF that] that by simp
      have j1: "j \<le> i + 1" using "1.prems"(4) by simp
      show ?thesis
      proof (cases "chunk 0 16 buf = replicate 16 0")
        case zero: True
        then have "gpt_parts r t e n i ps = gpt_parts r t e n (i + 1) ps"
          using True rd None e16 by (subst gpt_parts.simps) simp
        then show ?thesis
          using "1.IH"(1) [OF True rd [symmetric] None e16 zero _ "1.prems"(2) jnext j1] "1.prems"(1) by simp
      next
        case typed: False
        have e48: "\<not> e < 48"
        proof
          assume "e < 48"
          then have "gpt_parts r t e n i ps = Panic"
            using True rd None typed e16 by (subst gpt_parts.simps) simp
          then show False using "1.prems"(1) by simp
        qed
        let ?s = "le_val (chunk 32 8 buf)" and ?z = "le_val (chunk 40 8 buf)"
        show ?thesis
        proof (cases "?s = 0 \<and> ?z = 0")
          case skip: True
          then have "gpt_parts r t e n i ps = gpt_parts r t e n (i + 1) ps"
            using True rd None typed e16 e48 by (subst gpt_parts.simps) (simp add: Let_def)
          then show ?thesis
            using "1.IH"(2) [OF True rd [symmetric] None e16 typed e48 refl refl skip _ "1.prems"(2) jnext j1]
              "1.prems"(1) by simp
        next
          case keep: False
          let ?p = "\<lparr>pe_Index = i, pe_Start = i64 (i64 ?s * partSectorSize),
            pe_Size = i64 (i64 (u64 (?z - ?s + 1)) * partSectorSize), pe_Type = hex_encode (chunk 0 16 buf)\<rparr>"
          have eq: "gpt_parts r t e n i ps = gpt_parts r t e n (i + 1) (ps @ [?p])"
            using True rd None typed e16 e48 keep by (subst gpt_parts.simps) (auto simp: Let_def)
          have "gpt_search r i t e n i = Inr (i64 (i64 ?s * 512))"
            using True rd None typed by (subst gpt_search.simps) simp
          then have "gpt_search r i t e n j = Inr (pe_Start ?p)" using "1.prems"(3) [of i] by simp
          then have new: "\<forall>p\<in>set (ps @ [?p]). gpt_search r (pe_Index p) t e n j = Inr (pe_Start p) \<and> j \<le> pe_Index p"
            using "1.prems"(2,4) by auto
          show ?thesis
            by (rule "1.IH"(3) [OF True rd [symmetric] None e16 typed e48 refl refl keep refl])
              (use "1.prems"(1) eq new jnext j1 in simp_all)
        qed
      qed
    qed
  qed
qed

text \<open>Entries without a type, up to the last, add nothing.\<close>

lemma gpt_parts_empty:
  assumes "\<And>j. i \<le> j \<Longrightarrow> j < n \<Longrightarrow>
      \<exists>buf. r (i64 (t + i64 (j * e))) (nat e) = (buf, None) \<and> chunk 0 16 buf = replicate 16 0"
    and "16 \<le> e"
  shows "gpt_parts r t e n i ps = Ok ps"
  using assms
proof (induction "nat (n - i)" arbitrary: i)
  case 0
  then show ?case by (subst gpt_parts.simps) simp
next
  case (Suc d)
  then have "i < n" by simp
  with Suc.prems(1) [of i] obtain buf where b: "r (i64 (t + i64 (i * e))) (nat e) = (buf, None)"
      "chunk 0 16 buf = replicate 16 0" by auto
  have "gpt_parts r t e n i ps = gpt_parts r t e n (i + 1) ps"
    using b \<open>i < n\<close> assms(2) by (subst gpt_parts.simps) simp
  also have "\<dots> = Ok ps"
    using Suc \<open>i < n\<close> by (intro Suc.hyps(1)) auto
  finally show ?case .
qed

lemma parseGPT_laid_out:
  assumes lay: "gpt_laid_out n t d g im" and big: "2082 \<le> n" and small: "int n * 512 < 2 ^ 63"
    and type: "t \<noteq> replicate 16 0"
  shows "parseGPT (img_read im) =
    Ok [\<lparr>pe_Index = 0, pe_Start = 1048576, pe_Size = (int n - 2081) * 512, pe_Type = hex_encode t\<rparr>]"
proof -
  let ?e = "gpt_entries t g 2048 (int n - 34)"
  let ?h = "img_bytes im 512 92"
  have len: "length t = 16" "length d = 16" "length g = 16" and size: "n * 512 \<le> isize im"
    and R: "img_bytes im 512 512 = buildHeader d 2048 (int n - 34) (checksum_ieee ?e) 1 (int n - 1) 2"
      "img_bytes im 1024 16384 = ?e"
    using lay by (simp_all add: gpt_laid_out_def Let_def)
  have h: "?h = chunk 0 92 (buildHeader d 2048 (int n - 34) (checksum_ieee ?e) 1 (int n - 1) 2)"
    by (rule header_on_disk) (rule R(1))
  have hd: "img_read im 512 92 = (?h, None)"
    using img_read_inside [of 512 92 im] size big by simp
  have fields: "le_val (chunk 72 8 ?h) = 2" "le_val (chunk 80 4 ?h) = 128" "le_val (chunk 84 4 ?h) = 128"
    unfolding h using len(2) by (simp_all add: chunk_chunk buildHeader_fields)
  have entry: "img_read im (i64 (1024 + i64 (j * 128))) 128 = (chunk (128 * nat j) 128 ?e, None)"
    if "0 \<le> j" "j < 128" for j
  proof -
    have "i64 (1024 + i64 (j * 128)) = int (1024 + 128 * nat j)" using that by simp
    moreover have "img_bytes im (1024 + 128 * nat j) 128 = chunk (128 * nat j) 128 ?e"
      unfolding R(2) [symmetric] using that by (simp add: chunk_img_bytes)
    moreover have "img_read im (int (1024 + 128 * nat j)) 128 = (img_bytes im (1024 + 128 * nat j) 128, None)"
      by (rule img_read_inside) (use size big that in simp)
    ultimately show ?thesis by (simp only:)
  qed
  have empty: "gpt_parts (img_read im) 1024 128 128 1 ps = Ok ps" for ps
  proof (rule gpt_parts_empty)
    fix j :: int assume "1 \<le> j" "j < 128"
    then show "\<exists>buf. img_read im (i64 (1024 + i64 (j * 128))) (nat 128) = (buf, None) \<and>
        chunk 0 16 buf = replicate 16 0"
      using entry [of j] len by (simp add: chunk_chunk gpt_entries_rest chunk_replicate)
  qed simp
  have first: "le_val (chunk 32 8 (chunk 0 128 ?e)) = 2048" "le_val (chunk 40 8 (chunk 0 128 ?e)) = int n - 34"
    "chunk 0 16 (chunk 0 128 ?e) = t"
    using len big small by (simp_all add: chunk_chunk gpt_entries_first)
  have "gpt_parts (img_read im) 1024 128 128 0 [] = gpt_parts (img_read im) 1024 128 128 1
      [\<lparr>pe_Index = 0, pe_Start = 1048576, pe_Size = (int n - 2081) * 512, pe_Type = hex_encode t\<rparr>]"
    using entry [of 0] type big small
    by (subst gpt_parts.simps) (simp add: Let_def first)
  then show ?thesis by (simp add: parseGPT_def hd Let_def fields empty)
qed

text \<open>A 4 MiB image with a written table.\<close>

definition demo_gpt :: image where
  "demo_gpt = write_all (gpt_regions 4194304 (gptPartTypeGUID FSXfs) (replicate 16 7) (replicate 16 9)) (blank 4194304)"

lemma demo_gpt_laid_out:
  "gpt_laid_out 8192 (gptPartTypeGUID FSXfs) (replicate 16 7) (replicate 16 9) demo_gpt"
  unfolding demo_gpt_def by (rule gpt_laid_out_write_all) simp_all

lemma demo_gpt_header:
  "\<exists>h. img_read demo_gpt 512 92 = (h, None) \<and> le_val (chunk 84 4 h) = 128"
proof -
  let ?e = "gpt_entries (gptPartTypeGUID FSXfs) (replicate 16 9) 2048 (int 8192 - 34)"
  have R: "img_bytes demo_gpt 512 512 =
      buildHeader (replicate 16 7) 2048 (int 8192 - 34) (checksum_ieee ?e) 1 (int 8192 - 1) 2"
    and size: "8192 * 512 \<le> isize demo_gpt"
    using demo_gpt_laid_out by (simp_all add: gpt_laid_out_def Let_def)
  have "img_read demo_gpt (int 512) 92 = (img_bytes demo_gpt 512 92, None)"
    by (rule img_read_inside) (use size in simp)
  moreover have "le_val (chunk 84 4 (img_bytes demo_gpt 512 92)) = 128"
    unfolding header_on_disk [OF R] by (simp add: chunk_chunk buildHeader_fields)
  ultimately show ?thesis by auto
qed

section \<open>Properties\<close>



text \<open>The table that \<open>writeGPT\<close> lays out on an image of \<open>n\<close> sectors lists as one partition: index
  0, from 1 MiB to the last sector before the backup table, with the type that was asked for.\<close>

lemma parse_written_gpt:
  assumes "gpt_laid_out n t d g im" and "2082 \<le> n" and "int n * 512 < 2 ^ 63" and "t \<noteq> replicate 16 0"
  shows "parseGPT (img_read im) =
    Ok [\<lparr>pe_Index = 0, pe_Start = 1048576, pe_Size = (int n - 2081) * 512, pe_Type = hex_encode t\<rparr>]"
  by (rule parseGPT_laid_out [OF assms])

lemma parse_written_gpt_demo:
  "parseGPT (img_read demo_gpt) =
    Ok [\<lparr>pe_Index = 0, pe_Start = 1048576, pe_Size = 3128832, pe_Type = hex_encode (gptPartTypeGUID FSXfs)\<rparr>]"
  using parse_written_gpt [OF demo_gpt_laid_out _ _ gpt_type_nonzero] by simp

text \<open>C10: The MBR that \<open>writeMBR\<close> builds lists as one partition from 1 MiB, with the sector count of
  the image taken modulo 2^32 and the partition type asked for.\<close>

theorem parse_written_mbr:
  assumes mbr: "mbr_sector sz pt = Inr mbr" and on: "img_bytes im 0 512 = mbr" and size: "512 \<le> isize im"
  shows "parseMBR (img_read im) =
    Inr [\<lparr>pe_Index = 0, pe_Start = 1048576, pe_Size = (u32 (sz sdiv 512) - 2048) * 512,
          pe_Type = ''0x'' @ upper_hex_byte pt\<rparr>]"
proof -
  note F = mbr_sector_Inr [OF mbr]
  have sub: "chunk off k (img_bytes im 446 64) = chunk (446 + off) k mbr" if "off + k \<le> 64" for off k
    using chunk_img_bytes [of "446 + off" k 512 im 0] that on by (simp add: chunk_img_bytes)
  have rd: "img_read im 446 64 = (img_bytes im 446 64, None)"
    using img_read_inside [of 446 64 im] size by simp
  have e0: "chunk 8 4 (chunk 0 16 (img_bytes im 446 64)) = le_bytes 4 2048"
    "chunk 12 4 (chunk 0 16 (img_bytes im 446 64)) = le_bytes 4 (u32 (sz sdiv 512) - 2048)"
    using sub [of 8 4] sub [of 12 4] F(4,5) by (simp_all add: chunk_chunk)
  have ty: "chunk 0 16 (img_bytes im 446 64) ! 4 = pt"
  proof -
    have "chunk 0 16 (img_bytes im 446 64) ! 4 = chunk 0 8 (img_bytes im 446 64) ! 4"
      by (simp add: nth_chunk)
    also have "\<dots> = pt" using sub [of 0 8] F(3) by simp
    finally show ?thesis .
  qed
  have rest: "chunk 8 4 (chunk (k * 16) 16 (img_bytes im 446 64)) = replicate 4 0" if "0 < k" "k < 4" for k
  proof -
    have "chunk 8 4 (chunk (k * 16) 16 (img_bytes im 446 64)) = chunk (k * 16 - 8) 4 (chunk 462 48 mbr)"
      using that sub [of "k * 16 + 8" 4] by (simp add: chunk_chunk algebra_simps)
    then show ?thesis using that by (simp add: F(6) chunk_replicate)
  qed
  have v: "u32 (u32 (sz sdiv 512) - 2048) = u32 (sz sdiv 512) - 2048"
    using F(1) u32_range [of "sz sdiv 512"] by simp
  show ?thesis
    using rest [of 1] rest [of 2] rest [of 3] F(1)
    by (simp add: parseMBR_def rd Let_def e0 ty v)
qed

theorem parse_written_mbr_witness:
  "\<exists>mbr. mbr_sector 4194304 0x83 = Inr mbr \<and> parseMBR (img_read (img_write 0 mbr (blank 4194304))) =
     Inr [\<lparr>pe_Index = 0, pe_Start = 1048576, pe_Size = 3145728, pe_Type = ''0x'' @ upper_hex_byte 0x83\<rparr>]"
proof -
  have "\<nexists>e. mbr_sector 4194304 0x83 = Inl e" by (simp add: mbr_sector_Inl_iff sdiv_pos)
  then obtain mbr where m: "mbr_sector 4194304 0x83 = Inr mbr" by (metis obj_sumE)
  have "img_bytes (img_write 0 mbr (blank 4194304)) 0 512 = mbr"
    using mbr_sector_Inr(2) [OF m] by (simp add: img_bytes_write_same)
  moreover have "512 \<le> isize (img_write 0 mbr (blank 4194304))" using mbr_sector_Inr(2) [OF m] by auto
  ultimately show ?thesis using parse_written_mbr [OF m] m by (simp add: sdiv_pos)
qed

text \<open>C26: A GPT whose header claims entries shorter than 16 bytes ends the listing in a panic as soon as
  one entry can be read, where \<open>DetectFilesystem\<close> reports an error.\<close>

theorem short_gpt_entries_panic:
  assumes "r 512 92 = (hdr, None)" and "le_val (chunk 84 4 hdr) < 16" and "0 < le_val (chunk 80 4 hdr)"
    and "r (i64 (i64 (le_val (chunk 72 8 hdr)) * 512)) (nat (le_val (chunk 84 4 hdr))) = (buf, None)"
  shows "parseGPT r = Panic \<and> detectGPTOffset r p = Inl (Msg ''unexpected GPT entry size'')"
  using assms i64_range [of "i64 (le_val (chunk 72 8 hdr)) * 512"]
  by (auto simp: parseGPT_def detectGPTOffset_def Let_def gpt_parts.simps
      [of r "i64 (i64 (le_val (chunk 72 8 hdr)) * 512)" "le_val (chunk 84 4 hdr)" "le_val (chunk 80 4 hdr)" 0])

theorem short_gpt_entries_panic_witness:
  "parseGPT (\<lambda>off n. if n = 92 then (put 80 [1, 0, 0, 0] (replicate 92 0), None) else ([], None)) = Panic"
    (is "parseGPT ?r = Panic")
proof -
  let ?h = "put 80 [1, 0, 0, 0] (replicate 92 0) :: bytes"
  have size: "le_val (chunk 84 4 ?h) = 0" by (simp add: codec_simps)
  have "chunk 80 4 ?h = [1, 0, 0, 0]" by (rule chunk_put_same) simp_all
  then have num: "le_val (chunk 80 4 ?h) = 1" by simp
  show ?thesis
    using short_gpt_entries_panic [of ?r ?h "[]"] size num by simp
qed

end
