(* ===== verification/Listing.thy ===== *)
theory Listing
  imports Exec_Utils
begin

text \<open>
  exec_cmd_ls.go, exec_cmd_df.go, exec_cmd_du.go and exec_helpers.go: listing a directory of an
  image and adding up the sizes below one. The commands call the variable \<open>listFunc\<close>, which is
  an argument here and is \<open>List\<close> outside the tests.
\<close>

type_synonym lister = "ListOptions \<Rightarrow> world \<Rightarrow> (error + ListEntry list) \<times> world"

section \<open>ls\<close>

record ls_flags =
  ls_all :: bool
  ls_long :: bool
  ls_classify :: bool
  ls_human :: bool
  ls_dir :: string

fun ls_letters :: "string \<Rightarrow> ls_flags \<Rightarrow> ls_flags" where
  "ls_letters [] f = f"
| "ls_letters (c # cs) f =
     ls_letters cs
       (if c = CHR ''a'' then f\<lparr>ls_all := True\<rparr>
        else if c = CHR ''l'' then f\<lparr>ls_long := True\<rparr>
        else if c = CHR ''F'' then f\<lparr>ls_classify := True\<rparr>
        else if c = CHR ''h'' then f\<lparr>ls_human := True\<rparr>
        else f)"

fun ls_args :: "string list \<Rightarrow> ls_flags \<Rightarrow> ls_flags" where
  "ls_args [] f = f"
| "ls_args (arg # args) f =
     ls_args args (if has_prefix arg ''-'' then ls_letters (tl arg) f else f\<lparr>ls_dir := arg\<rparr>)"

definition parseLSArgs :: "string list \<Rightarrow> string \<Rightarrow> ls_flags" where
  "parseLSArgs argv defaultDir =
     ls_args (tl argv)
       \<lparr>ls_all = False, ls_long = False, ls_classify = False, ls_human = False, ls_dir = defaultDir\<rparr>"

text \<open>\<open>testEntries\<close> is nil outside the tests.\<close>

definition fetchEntries ::
    "ListEntry list option \<Rightarrow> lister \<Rightarrow> string \<Rightarrow> string \<Rightarrow> int \<Rightarrow> string \<Rightarrow> bool \<Rightarrow> world
     \<Rightarrow> (error + ListEntry list) \<times> world" where
  "fetchEntries testEntries listFunc file filesystemArg partIndex dirPath fetchStat w =
     (case testEntries of
        Some es \<Rightarrow> (Inr es, w)
      | None \<Rightarrow>
          listFunc \<lparr>lo_Path = file, lo_Filesystem = to_lower filesystemArg, lo_PartIndex = partIndex,
                    lo_DirPath = dirPath, lo_FetchStat = fetchStat, lo_UnlockKeys = []\<rparr> w)"

fun filterHidden :: "ListEntry list \<Rightarrow> ListEntry list" where
  "filterHidden [] = []"
| "filterHidden (e # es) =
     (if \<not> has_prefix (le_Name e) ''.'' then e # filterHidden es else filterHidden es)"

definition pad_left :: "nat \<Rightarrow> string \<Rightarrow> string" where
  "pad_left n s = replicate (n - length s) (CHR '' '') @ s"

fun printShortWrite :: "ListEntry list \<Rightarrow> bool \<Rightarrow> world \<Rightarrow> world" where
  "printShortWrite [] classify w = w"
| "printShortWrite (e # es) classify w =
     printShortWrite es classify (print_line (le_Name e @ indicator e classify) w)"

fun printLongWrite :: "ListEntry list \<Rightarrow> bool \<Rightarrow> bool \<Rightarrow> world \<Rightarrow> world" where
  "printLongWrite [] human classify w = w"
| "printLongWrite (e # es) human classify w =
     (let perm = modeString (le_Mode e);
          sz = (if human then pad_left 8 (exec_humanSize (nat (le_Size e)))
                else pad_left 8 (itoa (le_Size e)))
      in printLongWrite es human classify
           (print_line (perm @ '' '' @ sz @ '' '' @ le_Name e @ indicator e classify) w))"

definition lsExecute ::
    "ListEntry list option \<Rightarrow> lister \<Rightarrow> string \<Rightarrow> string \<Rightarrow> int \<Rightarrow> ls_flags \<Rightarrow> world \<Rightarrow> error option \<times> world" where
  "lsExecute testEntries listFunc file filesystemArg partIndex f w =
     (if file = '''' then (Some (Msg ''--file is required for 'ls' ''), w)
      else
        (case fetchEntries testEntries listFunc file filesystemArg partIndex (ls_dir f)
                (ls_long f \<or> ls_classify f) w of
           (Inl e, w1) \<Rightarrow> (Some e, w1)
         | (Inr entries, w1) \<Rightarrow>
             (let entries = (if \<not> ls_all f then filterHidden entries else entries) in
              if entries = [] then (None, print_line ''(empty directory)'' w1)
              else if ls_long f then (None, printLongWrite entries (ls_human f) (ls_classify f) w1)
              else (None, printShortWrite entries (ls_classify f) w1))))"

definition handleLS ::
    "ListEntry list option \<Rightarrow> lister \<Rightarrow> string list \<Rightarrow> string \<Rightarrow> string \<Rightarrow> int \<Rightarrow> string \<Rightarrow> world
     \<Rightarrow> error option \<times> world" where
  "handleLS testEntries listFunc argv file filesystemArg partIndex dirPath w =
     lsExecute testEntries listFunc file filesystemArg partIndex (parseLSArgs argv dirPath) w"

section \<open>The walk of df and du\<close>

definition entry_is_dir :: "ListEntry \<Rightarrow> bool" where
  "entry_is_dir e =
     (if le_Mode e \<noteq> 0 then mode_type (le_Mode e) = 0x4 else le_FileType e = 2)"

text \<open>
  \<open>computeUsedListingWalk\<close> and \<open>computeUsedFromPathWalk\<close> have the same body: the set of
  visited paths is shared by the whole walk. A walk over a cyclic or endless directory does not
  return, so it has fuel, one unit for a level of directories; \<open>None\<close> is a walk that has not
  returned.
\<close>

function usage_walk :: "lister \<Rightarrow> string \<Rightarrow> FilesystemType \<Rightarrow> int \<Rightarrow> nat \<Rightarrow> string set \<Rightarrow> string \<Rightarrow> world
     \<Rightarrow> ((error + int) \<times> string set \<times> world) option" and
  usage_loop :: "lister \<Rightarrow> string \<Rightarrow> FilesystemType \<Rightarrow> int \<Rightarrow> nat \<Rightarrow> string \<Rightarrow> ListEntry list \<Rightarrow> int
     \<Rightarrow> string set \<Rightarrow> world \<Rightarrow> ((error + int) \<times> string set \<times> world) option" where
  "usage_walk listFunc file fs part 0 visited p w = None"
| "usage_walk listFunc file fs part (Suc fuel) visited p w =
     (if p \<in> visited then Some (Inr 0, visited, w)
      else
        (case listFunc \<lparr>lo_Path = file, lo_Filesystem = fs, lo_PartIndex = part, lo_DirPath = p,
                        lo_FetchStat = True, lo_UnlockKeys = []\<rparr> w of
           (Inl e, w1) \<Rightarrow> Some (Inl e, insert p visited, w1)
         | (Inr entries, w1) \<Rightarrow>
             usage_loop listFunc file fs part fuel p entries 0 (insert p visited) w1))"
| "usage_loop listFunc file fs part fuel p [] tot visited w = Some (Inr tot, visited, w)"
| "usage_loop listFunc file fs part fuel p (e # es) tot visited w =
     (if le_Name e = ''.'' \<or> le_Name e = ''..'' then
        usage_loop listFunc file fs part fuel p es tot visited w
      else
        (let np = (if p = ''/'' then ''/'' @ le_Name e else path_join [p, le_Name e]) in
         if entry_is_dir e then
           (case usage_walk listFunc file fs part fuel visited np w of
              None \<Rightarrow> None
            | Some (Inl err, v, w1) \<Rightarrow> Some (Inl err, v, w1)
            | Some (Inr sub, v, w1) \<Rightarrow>
                usage_loop listFunc file fs part fuel p es (u64 (tot + sub)) v w1)
         else usage_loop listFunc file fs part fuel p es (u64 (tot + le_Size e)) visited w))"
  by pat_completeness auto
termination
  by (relation "measures
       [\<lambda>x. case x of Inl (l, f, fs, pt, fuel, v, p, w) \<Rightarrow> 2 * fuel
                    | Inr (l, f, fs, pt, fuel, p, es, t, v, w) \<Rightarrow> 2 * fuel + 1,
        \<lambda>x. case x of Inl y \<Rightarrow> 0 | Inr (l, f, fs, pt, fuel, p, es, t, v, w) \<Rightarrow> length es]") auto

definition computeUsedListing ::
    "lister \<Rightarrow> nat \<Rightarrow> string \<Rightarrow> FilesystemType \<Rightarrow> int \<Rightarrow> world \<Rightarrow> ((error + int) \<times> world) option" where
  "computeUsedListing listFunc fuel file fs part w =
     map_option (\<lambda>(r, v, w1). (r, w1)) (usage_walk listFunc file fs part fuel {} ''/'' w)"

definition computeUsedFromPath ::
    "lister \<Rightarrow> nat \<Rightarrow> string \<Rightarrow> FilesystemType \<Rightarrow> int \<Rightarrow> string \<Rightarrow> world \<Rightarrow> ((error + int) \<times> world) option" where
  "computeUsedFromPath listFunc fuel file fs part startPath w =
     (let startPath = (if startPath = '''' then ''/'' else startPath)
      in map_option (\<lambda>(r, v, w1). (r, w1)) (usage_walk listFunc file fs part fuel {} startPath w))"

section \<open>df and du\<close>

definition tab :: string where "tab = [CHR 0x09]"

definition df_header :: string where
  "df_header = ''Filesystem'' @ tab @ ''Size'' @ tab @ ''Used'' @ tab @ ''Avail'' @ tab @ ''Use%'' @ tab @ ''Mounted on''"

definition df_line :: "string \<Rightarrow> int \<Rightarrow> int \<Rightarrow> bool \<Rightarrow> string" where
  "df_line file tot used human =
     (let avail = (if tot > used then u64 (tot - used) else 0);
          pct = (if tot > 0 then u64 (used * 100) div tot else 0)
      in if human then
           path_base file @ tab @ exec_humanSize (nat used) @ tab @ exec_humanSize (nat (u64 (tot - used))) @ tab @
           exec_humanSize (nat avail) @ tab @ itoa pct @ ''%'' @ tab @ ''/''
         else
           path_base file @ tab @ itoa tot @ tab @ itoa used @ tab @ itoa avail @ tab @ itoa pct @ ''%'' @ tab @ ''/'')"

definition DFFromImage ::
    "lister \<Rightarrow> nat \<Rightarrow> string \<Rightarrow> string \<Rightarrow> int \<Rightarrow> bool \<Rightarrow> world \<Rightarrow> (error option \<times> world) option" where
  "DFFromImage listFunc fuel file filesystemArg partIndex human w =
     (case computeUsedListing listFunc fuel file (to_lower filesystemArg) partIndex w of
        None \<Rightarrow> None
      | Some (r, w1) \<Rightarrow>
          (let used = (case r of Inl e \<Rightarrow> 0 | Inr n \<Rightarrow> n) in
           case sys_stat_size file w1 of
             Inl e \<Rightarrow> Some (Some e, w1)
           | Inr sz \<Rightarrow>
               Some (None, print_line (df_line file (u64 sz) used human) (print_line df_header w1))))"

definition DUSummaryFromImage ::
    "lister \<Rightarrow> nat \<Rightarrow> string \<Rightarrow> string \<Rightarrow> int \<Rightarrow> string \<Rightarrow> bool \<Rightarrow> world \<Rightarrow> (error option \<times> world) option" where
  "DUSummaryFromImage listFunc fuel file filesystemArg partIndex pathArg human w =
     (case computeUsedFromPath listFunc fuel file (to_lower filesystemArg) partIndex pathArg w of
        None \<Rightarrow> None
      | Some (Inl e, w1) \<Rightarrow> Some (Some e, w1)
      | Some (Inr used, w1) \<Rightarrow>
          Some (None,
            (if human then print_line (exec_humanSize (nat used) @ tab @ pathArg) w1
             else print_line (itoa used @ tab @ pathArg) w1)))"

section \<open>The flags of ls\<close>

lemma ls_letters_flags:
  "ls_all (ls_letters s f) \<longleftrightarrow> ls_all f \<or> CHR ''a'' \<in> set s"
  "ls_long (ls_letters s f) \<longleftrightarrow> ls_long f \<or> CHR ''l'' \<in> set s"
  "ls_classify (ls_letters s f) \<longleftrightarrow> ls_classify f \<or> CHR ''F'' \<in> set s"
  "ls_human (ls_letters s f) \<longleftrightarrow> ls_human f \<or> CHR ''h'' \<in> set s"
  "ls_dir (ls_letters s f) = ls_dir f"
  by (induction s arbitrary: f) auto

definition has_flag :: "char \<Rightarrow> string list \<Rightarrow> bool" where
  "has_flag c args \<longleftrightarrow> (\<exists>a\<in>set args. has_prefix a ''-'' \<and> c \<in> set (tl a))"

lemma has_flag_Nil: "has_flag c [] = False"
  by (simp add: has_flag_def)

lemma has_flag_Cons:
  "has_flag c (a # as) \<longleftrightarrow> (has_prefix a ''-'' \<and> c \<in> set (tl a)) \<or> has_flag c as"
  by (auto simp: has_flag_def)

lemma ls_args_flags:
  "ls_all (ls_args args f) \<longleftrightarrow> ls_all f \<or> has_flag (CHR ''a'') args"
  "ls_long (ls_args args f) \<longleftrightarrow> ls_long f \<or> has_flag (CHR ''l'') args"
  "ls_classify (ls_args args f) \<longleftrightarrow> ls_classify f \<or> has_flag (CHR ''F'') args"
  "ls_human (ls_args args f) \<longleftrightarrow> ls_human f \<or> has_flag (CHR ''h'') args"
  "ls_dir (ls_args args f) = last (ls_dir f # filter (\<lambda>a. \<not> has_prefix a ''-'') args)"
  by (induction args arbitrary: f; simp only: ls_args.simps has_flag_Nil has_flag_Cons ls_letters_flags;
      simp add: ls_letters_flags)+

lemma filterHidden_filter: "filterHidden es = filter (\<lambda>e. \<not> has_prefix (le_Name e) ''.'') es"
  by (induction es) auto

section \<open>A finite tree of files\<close>

text \<open>What \<open>df\<close> and \<open>du\<close> are meant to add up: the sizes of the files of a tree.\<close>

datatype fs_tree =
    FFile int
  | FDir "(string \<times> fs_tree) list"

fun tree_total :: "fs_tree \<Rightarrow> int" where
  "tree_total (FFile n) = n"
| "tree_total (FDir es) = sum_list (map (\<lambda>(n, t). tree_total t) es)"

fun tree_depth :: "fs_tree \<Rightarrow> nat" where
  "tree_depth (FFile n) = 0"
| "tree_depth (FDir es) = Suc (foldr (\<lambda>(n, t) d. max (tree_depth t) d) es 0)"

fun wf_tree :: "fs_tree \<Rightarrow> bool" where
  "wf_tree (FFile n) = True"
| "wf_tree (FDir es) = (distinct (map fst es) \<and> (\<forall>(n, t)\<in>set es. good_comp n \<and> wf_tree t))"

fun tree_at :: "fs_tree \<Rightarrow> string list \<Rightarrow> fs_tree option" where
  "tree_at t [] = Some t"
| "tree_at (FFile n) (c # cs) = None"
| "tree_at (FDir es) (c # cs) = (case map_of es c of None \<Rightarrow> None | Some t \<Rightarrow> tree_at t cs)"

fun tree_entry :: "string \<times> fs_tree \<Rightarrow> ListEntry" where
  "tree_entry (n, FFile s) = \<lparr>le_Name = n, le_FileType = 0, le_Mode = 0x81A4, le_Size = s, le_Inode = 0\<rparr>"
| "tree_entry (n, FDir es) = \<lparr>le_Name = n, le_FileType = 0, le_Mode = 0x41ED, le_Size = 0, le_Inode = 0\<rparr>"

text \<open>The directory \<open>t\<close> at \<open>cs\<close> is listed as it is, and listing changes nothing.\<close>

definition lists_tree :: "lister \<Rightarrow> string \<Rightarrow> FilesystemType \<Rightarrow> int \<Rightarrow> world \<Rightarrow> fs_tree \<Rightarrow> string list \<Rightarrow> bool" where
  "lists_tree listFunc file fs part w t cs \<longleftrightarrow>
     (\<forall>ds es. tree_at t ds = Some (FDir es) \<longrightarrow>
        listFunc \<lparr>lo_Path = file, lo_Filesystem = fs, lo_PartIndex = part, lo_DirPath = root_path (cs @ ds),
                  lo_FetchStat = True, lo_UnlockKeys = []\<rparr> w = (Inr (map tree_entry es), w))"

lemma u64_add: "u64 (u64 a + b) = u64 (a + b)" "u64 (a + u64 b) = u64 (a + b)"
  by (simp_all add: u64_def mod_add_left_eq mod_add_right_eq)

lemma root_path_inj:
  assumes "\<forall>c\<in>set cs. good_comp c" and "\<forall>c\<in>set ds. good_comp c" and "root_path cs = root_path ds"
  shows "cs = ds"
proof -
  have "[] # (if cs = [] then [[]] else cs) = [] # (if ds = [] then [[]] else ds)"
    unfolding split_root_path [OF assms(1), symmetric] split_root_path [OF assms(2), symmetric] assms(3) ..
  then have e: "(if cs = [] then [[]] else cs) = (if ds = [] then [[]] else ds)" by (rule list.inject [THEN iffD1, THEN conjunct2])
  have g: "\<not> good_comp []" by (simp add: good_comp_def)
  show ?thesis
  proof (cases "cs = [] \<or> ds = []")
    case True
    then show ?thesis using e g assms(1,2) by (elim disjE) (auto split: if_splits)
  next
    case False
    then show ?thesis using e by simp
  qed
qed

definition below :: "string list \<Rightarrow> string set" where
  "below cs = {root_path (cs @ ds) | ds. \<forall>d\<in>set ds. good_comp d}"

lemma below_self: "root_path cs \<in> below cs"
  unfolding below_def by (rule CollectI, rule exI [of _ "[]"]) simp

lemma below_step: "good_comp n \<Longrightarrow> below (cs @ [n]) \<subseteq> below cs"
proof
  fix p assume n: "good_comp n" and "p \<in> below (cs @ [n])"
  then obtain ds where "p = root_path ((cs @ [n]) @ ds)" "\<forall>d\<in>set ds. good_comp d" by (auto simp: below_def)
  then have "p = root_path (cs @ (n # ds)) \<and> (\<forall>d\<in>set (n # ds). good_comp d)" using n by simp
  then show "p \<in> below cs" unfolding below_def by blast
qed

lemma belowE:
  assumes "p \<in> below cs"
  obtains ds where "p = root_path (cs @ ds)" and "\<forall>d\<in>set ds. good_comp d"
  using assms unfolding below_def by blast

lemma below_disjoint:
  assumes "\<forall>c\<in>set cs. good_comp c" and "good_comp m" and "good_comp n" and "m \<noteq> n"
    and "p \<in> below (cs @ [m])"
  shows "p \<notin> below (cs @ [n])"
proof
  assume "p \<in> below (cs @ [n])"
  then obtain es where e: "p = root_path ((cs @ [n]) @ es)" "\<forall>d\<in>set es. good_comp d" by (rule belowE)
  obtain ds where d: "p = root_path ((cs @ [m]) @ ds)" "\<forall>d\<in>set ds. good_comp d" using assms(5) by (rule belowE)
  have "\<forall>c\<in>set ((cs @ [m]) @ ds). good_comp c" "\<forall>c\<in>set ((cs @ [n]) @ es). good_comp c"
    using assms(1-3) d(2) e(2) unfolding set_append ball_Un by simp_all
  then have "(cs @ [m]) @ ds = (cs @ [n]) @ es" by (rule root_path_inj) (simp only: d(1) [symmetric] e(1) [symmetric])
  then show False using assms(4) by simp
qed

lemma below_strict:
  assumes "\<forall>c\<in>set cs. good_comp c" and "good_comp n"
  shows "root_path cs \<notin> below (cs @ [n])"
proof
  assume "root_path cs \<in> below (cs @ [n])"
  then obtain ds where d: "root_path cs = root_path ((cs @ [n]) @ ds)" "\<forall>d\<in>set ds. good_comp d" by (rule belowE)
  have "\<forall>c\<in>set ((cs @ [n]) @ ds). good_comp c" using assms d(2) unfolding set_append ball_Un by simp
  then have "cs = (cs @ [n]) @ ds" by (rule root_path_inj [OF assms(1) _ d(1)])
  then show False by simp
qed

lemma lists_tree_sub:
  assumes "lists_tree l file fs part w (FDir es) cs" and "map_of es n = Some t"
  shows "lists_tree l file fs part w t (cs @ [n])"
  unfolding lists_tree_def
proof (intro allI impI)
  fix ds es' assume "tree_at t ds = Some (FDir es')"
  then have "tree_at (FDir es) (n # ds) = Some (FDir es')" using assms(2) by simp
  with assms(1) have "l \<lparr>lo_Path = file, lo_Filesystem = fs, lo_PartIndex = part, lo_DirPath = root_path (cs @ n # ds),
      lo_FetchStat = True, lo_UnlockKeys = []\<rparr> w = (Inr (map tree_entry es'), w)"
    unfolding lists_tree_def by blast
  then show "l \<lparr>lo_Path = file, lo_Filesystem = fs, lo_PartIndex = part, lo_DirPath = root_path ((cs @ [n]) @ ds),
      lo_FetchStat = True, lo_UnlockKeys = []\<rparr> w = (Inr (map tree_entry es'), w)" by simp
qed

lemma tree_entry_simps [simp]:
  "le_Name (tree_entry (n, t)) = n"
  "entry_is_dir (tree_entry (n, FDir es))" "\<not> entry_is_dir (tree_entry (n, FFile s))"
  "le_Size (tree_entry (n, FFile s)) = s"
  by (cases t) (simp_all add: entry_is_dir_def mode_type_def)

lemma depth_member: "(n, t) \<in> set es \<Longrightarrow> tree_depth t \<le> foldr (\<lambda>(n, t) d. max (tree_depth t) d) es 0"
  by (induction es) auto

lemma next_path: "\<forall>c\<in>set cs. good_comp c \<Longrightarrow> good_comp n \<Longrightarrow>
    (if root_path cs = ''/'' then ''/'' @ n else path_join [root_path cs, n]) = root_path (cs @ [n])"
  using path_join_root_path [of cs n] root_path_eq_root [of cs] by (auto simp: root_path_def)

declare usage_walk.simps [simp del] usage_loop.simps [simp del]

lemma loop_file:
  assumes "\<forall>c\<in>set cs. good_comp c" and "good_comp n"
  shows "usage_loop l file fs part fuel (root_path cs) (tree_entry (n, FFile s) # es) tot v w =
    usage_loop l file fs part fuel (root_path cs) es (u64 (tot + s)) v w"
  using assms(2) by (simp add: usage_loop.simps good_comp_def Let_def del: tree_entry.simps)

lemma loop_dir:
  assumes "\<forall>c\<in>set cs. good_comp c" and "good_comp n"
    and "usage_walk l file fs part fuel v (root_path (cs @ [n])) w = Some (Inr sub, v1, w)"
  shows "usage_loop l file fs part fuel (root_path cs) (tree_entry (n, FDir ds) # es) tot v w =
    usage_loop l file fs part fuel (root_path cs) es (u64 (tot + sub)) v1 w"
  unfolding usage_loop.simps tree_entry_simps Let_def next_path [OF assms(1,2)] assms(3)
  using assms(2) by (simp add: good_comp_def del: tree_entry.simps)

lemma usage_loop_tree:
  assumes "\<forall>c\<in>set cs. good_comp c"
    and "\<And>n ds v. (n, FDir ds) \<in> set es \<Longrightarrow> v \<inter> below (cs @ [n]) = {} \<Longrightarrow>
      \<exists>v1. usage_walk l file fs part fuel v (root_path (cs @ [n])) w = Some (Inr (u64 (tree_total (FDir ds))), v1, w) \<and>
        v1 \<subseteq> v \<union> below (cs @ [n])"
    and "distinct (map fst es)" and "\<forall>(n, t)\<in>set es. good_comp n \<and> v \<inter> below (cs @ [n]) = {}"
  shows "\<exists>v1. usage_loop l file fs part fuel (root_path cs) (map tree_entry es) (u64 tot) v w =
      Some (Inr (u64 (tot + tree_total (FDir es))), v1, w) \<and> v1 \<subseteq> v \<union> below cs"
  using assms(2-)
proof (induction es arbitrary: v tot)
  case Nil
  then show ?case by (simp add: usage_loop.simps)
next
  case (Cons e es)
  obtain n t where e: "e = (n, t)" by (cases e)
  have n: "good_comp n" and free: "v \<inter> below (cs @ [n]) = {}" using Cons.prems(3) e by simp_all
  have others: "good_comp m" "v \<inter> below (cs @ [m]) = {}" "m \<noteq> n" if "(m, u) \<in> set es" for m u
    using Cons.prems(2,3) that e by force+
  have inner: "\<exists>v2. usage_loop l file fs part fuel (root_path cs) (map tree_entry es) (u64 tot') v1 w =
      Some (Inr (u64 (tot' + tree_total (FDir es))), v2, w) \<and> v2 \<subseteq> v1 \<union> below cs"
    if "v1 \<subseteq> v \<union> below (cs @ [n])" for v1 tot'
  proof (rule Cons.IH)
    show "distinct (map fst es)" using Cons.prems(2) by simp
    show "\<forall>(m, u)\<in>set es. good_comp m \<and> v1 \<inter> below (cs @ [m]) = {}"
      using others below_disjoint [OF assms(1) n] that by fast
  qed (rule Cons.prems(1); simp)
  show ?case
  proof (cases t)
    case (FFile s)
    then show ?thesis using inner [of v "tot + s"]
      by (simp add: e loop_file [OF assms(1) n] u64_add add.assoc del: tree_entry.simps)
  next
    case (FDir ds)
    then obtain v1 where v1: "usage_walk l file fs part fuel v (root_path (cs @ [n])) w =
        Some (Inr (u64 (tree_total (FDir ds))), v1, w)" "v1 \<subseteq> v \<union> below (cs @ [n])"
      using Cons.prems(1) [OF _ free] e by (metis list.set_intros(1))
    then obtain v2 where v2: "usage_loop l file fs part fuel (root_path cs) (map tree_entry es)
          (u64 (tot + tree_total (FDir ds))) v1 w =
        Some (Inr (u64 (tot + tree_total (FDir ds) + tree_total (FDir es))), v2, w)" "v2 \<subseteq> v1 \<union> below cs"
      using inner by blast
    have "v2 \<subseteq> v \<union> below cs" using v1(2) v2(2) below_step [OF n] by fast
    then show ?thesis using v2(1)
      by (simp add: e FDir loop_dir [OF assms(1) n v1(1)] u64_add add.assoc del: tree_entry.simps)
  qed
qed

lemma usage_walk_tree:
  "tree_depth (FDir es) \<le> fuel \<Longrightarrow> wf_tree (FDir es) \<Longrightarrow> \<forall>c\<in>set cs. good_comp c \<Longrightarrow>
   lists_tree l file fs part w (FDir es) cs \<Longrightarrow> v \<inter> below cs = {} \<Longrightarrow>
   \<exists>v1. usage_walk l file fs part fuel v (root_path cs) w = Some (Inr (u64 (tree_total (FDir es))), v1, w) \<and>
     v1 \<subseteq> v \<union> below cs"
proof (induction fuel arbitrary: es cs v)
  case 0
  then show ?case by simp
next
  case (Suc fuel)
  let ?v = "insert (root_path cs) v"
  have call: "l \<lparr>lo_Path = file, lo_Filesystem = fs, lo_PartIndex = part, lo_DirPath = root_path cs,
      lo_FetchStat = True, lo_UnlockKeys = []\<rparr> w = (Inr (map tree_entry es), w)"
    using Suc.prems(4) [unfolded lists_tree_def, rule_format, of "[]" es] by simp
  have wf: "distinct (map fst es)" "\<And>n t. (n, t) \<in> set es \<Longrightarrow> good_comp n \<and> wf_tree t"
    using Suc.prems(2) by auto
  have "\<exists>v1. usage_loop l file fs part fuel (root_path cs) (map tree_entry es) (u64 0) ?v w =
      Some (Inr (u64 (0 + tree_total (FDir es))), v1, w) \<and> v1 \<subseteq> ?v \<union> below cs"
  proof (rule usage_loop_tree [OF Suc.prems(3)])
    show "distinct (map fst es)" by (rule wf(1))
    show "\<forall>(n, t)\<in>set es. good_comp n \<and> ?v \<inter> below (cs @ [n]) = {}"
      using wf(2) below_strict [OF Suc.prems(3)] Suc.prems(5) below_step by fast
    fix n ds u assume n: "(n, FDir ds) \<in> set es" and u: "u \<inter> below (cs @ [n]) = {}"
    have "map_of es n = Some (FDir ds)" using wf(1) n by simp
    then show "\<exists>v1. usage_walk l file fs part fuel u (root_path (cs @ [n])) w =
        Some (Inr (u64 (tree_total (FDir ds))), v1, w) \<and> v1 \<subseteq> u \<union> below (cs @ [n])"
      using Suc.IH [OF _ _ _ lists_tree_sub [OF Suc.prems(4)] u] wf(2) [OF n] Suc.prems(1,3) depth_member [OF n]
      by simp
  qed
  moreover have "root_path cs \<notin> v" using Suc.prems(5) below_self [of cs] by blast
  ultimately show ?case using below_self [of cs]
    by (simp add: usage_walk.simps call u64_def insert_absorb)
qed

lemma tree_at_good: "wf_tree t \<Longrightarrow> tree_at t ds = Some u \<Longrightarrow> \<forall>d\<in>set ds. good_comp d"
proof (induction t ds rule: tree_at.induct)
  case (3 es c cs)
  then obtain t where t: "map_of es c = Some t" "tree_at t cs = Some u" by (auto split: option.splits)
  then have "good_comp c \<and> wf_tree t" using 3(2) map_of_SomeD [OF t(1)] by auto
  then show ?case using 3(1) t by auto
qed auto

text \<open>A lister that serves a tree.\<close>

definition tree_lister :: "fs_tree \<Rightarrow> lister" where
  "tree_lister t opts w =
     (case tree_at t (filter (\<lambda>c. c \<noteq> []) (split_on (CHR ''/'') (lo_DirPath opts))) of
        Some (FDir es) \<Rightarrow> (Inr (map tree_entry es), w)
      | _ \<Rightarrow> (Inl (Lib ''not a directory''), w))"

lemma tree_lister_lists: "wf_tree t \<Longrightarrow> lists_tree (tree_lister t) file fs part w t []"
  unfolding lists_tree_def
proof (intro allI impI)
  fix ds es assume wf: "wf_tree t" and at: "tree_at t ds = Some (FDir es)"
  have good: "\<forall>d\<in>set ds. good_comp d" by (rule tree_at_good [OF wf at])
  have "filter (\<lambda>c. c \<noteq> []) (if ds = [] then [[]] else ds) = ds"
    using good by (auto simp: good_comp_def filter_id_conv)
  then show "tree_lister t \<lparr>lo_Path = file, lo_Filesystem = fs, lo_PartIndex = part, lo_DirPath = root_path ([] @ ds),
      lo_FetchStat = True, lo_UnlockKeys = []\<rparr> w = (Inr (map tree_entry es), w)"
    using at by (simp add: tree_lister_def split_root_path [OF good])
qed

lemma lists_tree_at:
  "lists_tree l file fs part w t [] \<Longrightarrow> tree_at t cs = Some u \<Longrightarrow> lists_tree l file fs part w u cs"
proof -
  have at: "tree_at t (cs @ ds) = (case tree_at t cs of None \<Rightarrow> None | Some u \<Rightarrow> tree_at u ds)" for t ds
    by (induction t cs rule: tree_at.induct) (auto split: option.splits)
  show "lists_tree l file fs part w t [] \<Longrightarrow> tree_at t cs = Some u \<Longrightarrow> ?thesis"
    unfolding lists_tree_def using at by simp
qed

lemma tree_at_wf: "wf_tree t \<Longrightarrow> tree_at t cs = Some u \<Longrightarrow> wf_tree u"
proof (induction t cs rule: tree_at.induct)
  case (3 es c cs)
  then obtain t where t: "map_of es c = Some t" "tree_at t cs = Some u" by (auto split: option.splits)
  then have "wf_tree t" using 3(2) map_of_SomeD [OF t(1)] by auto
  then show ?case using 3(1) t by auto
qed auto

lemma walk_of_tree:
  assumes "wf_tree t" and "lists_tree l file fs part w t []" and "tree_at t cs = Some (FDir es)"
    and "tree_depth (FDir es) \<le> fuel"
  shows "\<exists>v. usage_walk l file fs part fuel {} (root_path cs) w = Some (Inr (u64 (tree_total (FDir es))), v, w)"
  using usage_walk_tree [OF assms(4) tree_at_wf [OF assms(1,3)] tree_at_good [OF assms(1,3)]
      lists_tree_at [OF assms(2,3)], of "{}"] by auto

section \<open>Properties\<close>


definition demo_tree :: fs_tree where
  "demo_tree = FDir [(''etc'', FDir [(''hosts'', FFile 120), (''x'', FDir [])]), (''boot'', FFile 4000)]"


text \<open>C24: On such a filesystem in an image file of \<open>sz\<close> bytes, \<open>df\<close> prints its header and one line
  with the size of the image, the sum of the file sizes, what is left and the percentage. With
  human sizes the size of the image is missing: the column \<open>Size\<close> holds the sum and the column
  \<open>Used\<close> holds \<open>sz - used\<close>, the same value as \<open>Avail\<close>.\<close>

theorem df_columns:
  assumes "wf_tree t" and "t = FDir es" and "lists_tree l file (to_lower fsArg) part w t []"
    and "tree_depth t \<le> fuel" and "sys_stat_size file w = Inr sz" and "sz < 2 ^ 57"
    and "used = tree_total t" and "0 \<le> used" and "used \<le> sz" and "0 < sz"
  shows "DFFromImage l fuel file fsArg part human w =
    Some (None, w\<lparr>stdout := stdout w @ [df_header, join_with tab
      ([path_base file] @
       (if human then [exec_humanSize (nat used), exec_humanSize (nat (sz - used)), exec_humanSize (nat (sz - used))]
        else [itoa sz, itoa used, itoa (sz - used)]) @
       [itoa (used * 100 div sz) @ ''%'', ''/''])]\<rparr>)"
proof -
  obtain v where v: "usage_walk l file (to_lower fsArg) part fuel {} ''/'' w = Some (Inr (u64 used), v, w)"
    using walk_of_tree [OF assms(1,3), where cs = "[]" and es = es and fuel = fuel] assms(2,4,7)
    by (auto simp: root_path_def)
  have u: "u64 used = used" "u64 sz = sz" "u64 (sz - used) = sz - used" "u64 (used * 100) = used * 100"
    using assms(6,8,9,10) by (simp_all add: u64_def)
  have "df_line file sz used human = join_with tab
      ([path_base file] @
       (if human then [exec_humanSize (nat used), exec_humanSize (nat (sz - used)), exec_humanSize (nat (sz - used))]
        else [itoa sz, itoa used, itoa (sz - used)]) @
       [itoa (used * 100 div sz) @ ''%'', ''/''])"
    using assms(9,10) u by (cases "used = sz") (simp_all add: df_line_def Let_def)
  then show ?thesis
    by (simp add: DFFromImage_def computeUsedListing_def v u assms(5) print_line_def)
qed

theorem df_columns_witness:
  "let w = demo_world\<lparr>files := [''disk.img'' \<mapsto> \<lparr>isize = 8240, icont = (\<lambda>i. 0)\<rparr>]\<rparr> in
   DFFromImage (tree_lister demo_tree) 3 ''disk.img'' ''ext4'' 0 False w =
     Some (None, w\<lparr>stdout := stdout w @ [df_header, join_with tab
       [path_base ''disk.img'', itoa 8240, itoa 4120, itoa 4120, itoa 50 @ ''%'', ''/'']]\<rparr>)"
proof -
  have wf: "wf_tree demo_tree" by (simp add: demo_tree_def good_comp_def)
  let ?w = "demo_world\<lparr>files := [''disk.img'' \<mapsto> \<lparr>isize = 8240, icont = (\<lambda>i. 0)\<rparr>]\<rparr>"
  have st: "sys_stat_size ''disk.img'' ?w = Inr 8240" by (simp add: sys_stat_size_def demo_world_def)
  have tot: "4120 = tree_total demo_tree" "tree_depth demo_tree \<le> 3" by (simp_all add: demo_tree_def)
  show ?thesis
    using df_columns [OF wf demo_tree_def tree_lister_lists [OF wf] tot(2) st _ tot(1), where human = False] by simp
qed

lemma printShortWrite_lines:
  "printShortWrite es classify w = w\<lparr>stdout := stdout w @ map (\<lambda>e. le_Name e @ indicator e classify) es\<rparr>"
  by (induction es arbitrary: w) (simp_all add: print_line_def)

definition long_line :: "bool \<Rightarrow> bool \<Rightarrow> ListEntry \<Rightarrow> string" where
  "long_line human classify e =
     modeString (le_Mode e) @ '' '' @
     pad_left 8 (if human then exec_humanSize (nat (le_Size e)) else itoa (le_Size e)) @ '' '' @
     le_Name e @ indicator e classify"

lemma printLongWrite_lines:
  "printLongWrite es human classify w = w\<lparr>stdout := stdout w @ map (long_line human classify) es\<rparr>"
  by (induction es arbitrary: w) (simp_all add: print_line_def long_line_def)

text \<open>C21: \<open>ls\<close> prints one line for every entry of the directory it is given, in the order of the
  listing, leaving out the names that start with a dot unless a flag \<open>a\<close> is among its arguments;
  the letters of all arguments that start with \<open>-\<close> count, the last other argument is the
  directory, and an empty result prints \<open>(empty directory)\<close>.\<close>

theorem ls_prints_the_visible_entries:
  assumes "file \<noteq> ''''"
    and "dir = last (dirPath # filter (\<lambda>a. \<not> has_prefix a ''-'') args)"
    and "lst \<lparr>lo_Path = file, lo_Filesystem = to_lower fsArg, lo_PartIndex = part, lo_DirPath = dir,
        lo_FetchStat = (has_flag (CHR ''l'') args \<or> has_flag (CHR ''F'') args), lo_UnlockKeys = []\<rparr> w = (Inr es, w1)"
    and "visible = filter (\<lambda>e. has_flag (CHR ''a'') args \<or> \<not> has_prefix (le_Name e) ''.'') es"
  shows "handleLS None lst (cmd # args) file fsArg part dirPath w =
    (None, w1\<lparr>stdout := stdout w1 @
      (if visible = [] then [''(empty directory)'']
       else if has_flag (CHR ''l'') args
       then map (long_line (has_flag (CHR ''h'') args) (has_flag (CHR ''F'') args)) visible
       else map (\<lambda>e. le_Name e @ indicator e (has_flag (CHR ''F'') args)) visible)\<rparr>)"
proof -
  have v: "(if \<not> has_flag (CHR ''a'') args then filterHidden es else es) = visible"
    using assms(4) by (simp add: filterHidden_filter)
  show ?thesis using assms(1-3)
    by (simp add: handleLS_def lsExecute_def fetchEntries_def parseLSArgs_def ls_args_flags v print_line_def
        printShortWrite_lines printLongWrite_lines del: filterHidden.simps)
qed

theorem ls_prints_the_visible_entries_witness:
  "stdout (snd (handleLS None (tree_lister (FDir [(''.git'', FDir []), (''src'', FDir []), (''README'', FFile 9)]))
     [''ls'', ''-F'', ''/''] ''disk.img'' ''xfs'' 0 '''' demo_world)) = [''src/'', ''README'']"
proof -
  have ind: "indicator_of 16877 0 = ''/''" "indicator_of 33188 0 = ''''" by code_simp+
  let ?l = "tree_lister (FDir [(''.git'', FDir []), (''src'', FDir []), (''README'', FFile 9)])"
  have "?l \<lparr>lo_Path = ''disk.img'', lo_Filesystem = to_lower ''xfs'', lo_PartIndex = 0, lo_DirPath = ''/'',
      lo_FetchStat = (has_flag (CHR ''l'') [''-F'', ''/''] \<or> has_flag (CHR ''F'') [''-F'', ''/'']), lo_UnlockKeys = []\<rparr> demo_world =
     (Inr [tree_entry (''.git'', FDir []), tree_entry (''src'', FDir []), tree_entry (''README'', FFile 9)], demo_world)"
    by (simp add: tree_lister_def has_flag_def has_prefix_def)
  note ls = ls_prints_the_visible_entries [of "''disk.img''" "''/''" "''''" "[''-F'', ''/'']" ?l "''xfs''" 0,
      OF _ _ this refl, of "''ls''"]
  show ?thesis using ls ind by (simp add: has_flag_def has_prefix_def demo_world_def indicator_def)
qed

end
