(* ===== verification/Cli_Commands.thy ===== *)
theory Cli_Commands
  imports Image_Ops Size_Strings
begin

text \<open>
  The commands of cmd/diskimage/create, grow and copy: each is the \<open>RunE\<close> function of its
  command over the values of the flags, which the package \<open>cobra\<close> has parsed. The variables
  that the tests replace (\<open>rawCreateFunc\<close>, \<open>growFunc\<close>, \<open>copyReadFunc\<close>, \<open>copyWriteFunc\<close>) are the
  functions they are initialised with. \<open>order\<close> is the order in which the suffix map of
  \<open>parseSize\<close> is visited.
\<close>

section \<open>create\<close>

definition runCreate ::
    "dmg_lib \<Rightarrow> format_lib \<Rightarrow> string list \<Rightarrow> string \<Rightarrow> string \<Rightarrow> ImageFormat \<Rightarrow> string \<Rightarrow> string \<Rightarrow> string
     \<Rightarrow> string \<Rightarrow> string \<Rightarrow> world \<Rightarrow> error option \<times> world" where
  "runCreate dmg lib order file sizeStr format part filesystem label udif passphrase w =
     (case create_parseSize order sizeStr of
        Inl e \<Rightarrow> (Some (Wrap ''invalid --size'' e), w)
      | Inr sizeBytes \<Rightarrow>
          (let opts = \<lparr>co_Path = file, co_SizeBytes = sizeBytes, co_Format = format,
                       co_Partition = to_lower part, co_Filesystem = to_lower filesystem,
                       co_Label = label, co_DmgUDIFFormat = udif, co_DmgPassphrase = []\<rparr>;
               opts = (if passphrase \<noteq> '''' then opts\<lparr>co_DmgPassphrase := str_bytes passphrase\<rparr> else opts)
           in case Create dmg lib opts w of
                (Some e, w1) \<Rightarrow> (Some e, w1)
              | (None, w1) \<Rightarrow>
                  (None, print_line (''created '' @ file @ '': size='' @ create_humanSize sizeBytes @
                     '' format='' @ format @ '' part='' @ part @ '' filesystem='' @ filesystem) w1)))"

definition rawCmd ::
    "dmg_lib \<Rightarrow> format_lib \<Rightarrow> string list \<Rightarrow> string \<Rightarrow> string \<Rightarrow> string \<Rightarrow> string \<Rightarrow> string
     \<Rightarrow> world \<Rightarrow> error option \<times> world" where
  "rawCmd dmg lib order file sizeStr part filesystem label w =
     runCreate dmg lib order file sizeStr FormatRaw part filesystem label '''' '''' w"

definition dmgCmd ::
    "dmg_lib \<Rightarrow> format_lib \<Rightarrow> string list \<Rightarrow> string \<Rightarrow> string \<Rightarrow> string \<Rightarrow> string \<Rightarrow> string \<Rightarrow> string
     \<Rightarrow> string \<Rightarrow> world \<Rightarrow> error option \<times> world" where
  "dmgCmd dmg lib order file sizeStr part filesystem label udif password w =
     (let fs = to_lower filesystem in
      if \<not> IsDmgSupportedFilesystem fs then
        (Some (Msg ''filesystem is not supported in DMG images''), w)
      else if password \<noteq> '''' \<and> fs \<noteq> FSApfs then
        (Some (Msg ''--password requires --filesystem apfs''), w)
      else runCreate dmg lib order file sizeStr FormatDmg part filesystem label udif password w)"

text \<open>\<open>efiVarsCreateFunc\<close> formats the store and closes it.\<close>

definition efiVarsCreate :: "uefi_lib \<Rightarrow> string \<Rightarrow> int \<Rightarrow> world \<Rightarrow> error option \<times> world" where
  "efiVarsCreate u path sizeBytes w =
     (case CreateUEFIVarsStore u path sizeBytes w of
        (Inl e, w1) \<Rightarrow> (Some e, w1)
      | (Inr s, w1) \<Rightarrow> uefiClose u s w1)"

definition runEfi ::
    "uefi_lib \<Rightarrow> string list \<Rightarrow> string \<Rightarrow> string \<Rightarrow> world \<Rightarrow> error option \<times> world" where
  "runEfi u order file sizeStr w =
     (case create_parseSize order sizeStr of
        Inl e \<Rightarrow> (Some (Wrap ''invalid --size'' e), w)
      | Inr sizeBytes \<Rightarrow>
          (case efiVarsCreate u file sizeBytes w of
             (Some e, w1) \<Rightarrow> (Some e, w1)
           | (None, w1) \<Rightarrow>
               (None, print_line (''created '' @ file @ '': size='' @ create_humanSize sizeBytes @
                  '' format=efivars'') w1)))"

text \<open>\<open>image_qcow2.Create\<close> is a library function.\<close>

definition runQCOW2Create ::
    "(string \<Rightarrow> int \<Rightarrow> world \<Rightarrow> error option \<times> world) \<Rightarrow> string list \<Rightarrow> string \<Rightarrow> string
     \<Rightarrow> world \<Rightarrow> error option \<times> world" where
  "runQCOW2Create qcow2Create order file sizeStr w =
     (case create_parseSize order sizeStr of
        Inl e \<Rightarrow> (Some (Wrap ''invalid --size'' e), w)
      | Inr sizeBytes \<Rightarrow>
          (case qcow2Create file sizeBytes w of
             (Some e, w1) \<Rightarrow> (Some e, w1)
           | (None, w1) \<Rightarrow>
               (None, print_line (''created '' @ file @ '': size='' @ create_humanSize sizeBytes @
                  '' format=qcow2'') w1)))"

section \<open>grow\<close>

definition growCmd :: "string list \<Rightarrow> string \<Rightarrow> string \<Rightarrow> world \<Rightarrow> error option \<times> world" where
  "growCmd order file sizeStr w =
     (case grow_parseSize order sizeStr of
        Inl e \<Rightarrow> (Some (Wrap ''invalid --size'' e), w)
      | Inr sizeBytes \<Rightarrow>
          if file = '''' then (Some (Msg ''--file is required''), w)
          else
            (case Grow file sizeBytes w of
               (Some e, w1) \<Rightarrow> (Some e, w1)
             | (None, w1) \<Rightarrow>
                 (None, print_line (''resized '' @ file @ '' -> '' @ grow_humanSize sizeBytes) w1)))"

section \<open>copy\<close>

text \<open>\<open>os.ReadFile\<close>, and the permission bits that \<open>os.Stat\<close> reports, which the host keeps.\<close>

definition sys_read_file :: "string \<Rightarrow> world \<Rightarrow> error + bytes" where
  "sys_read_file path w =
     (case sys_open path w of
        Some e \<Rightarrow> Inl e
      | None \<Rightarrow>
          (case sys_read_at path w 0 (case files w path of None \<Rightarrow> 0 | Some img \<Rightarrow> isize img) of
             (data, Some e) \<Rightarrow> Inl e
           | (data, None) \<Rightarrow> Inr data))"

definition copyCmd ::
    "dmg_lib \<Rightarrow> fs_lib \<Rightarrow> (string \<Rightarrow> world \<Rightarrow> error + int) \<Rightarrow> string \<Rightarrow> string \<Rightarrow> int \<Rightarrow> bool \<Rightarrow> bool
     \<Rightarrow> string \<Rightarrow> string \<Rightarrow> world \<Rightarrow> error option \<times> world" where
  "copyCmd dmg lib statPerm file filesystem part toImage fromImage arg0 arg1 w =
     (if toImage \<and> fromImage then (Some (Msg ''cannot set both --to-image and --from-image''), w)
      else if \<not> toImage \<and> \<not> fromImage then (Some (Msg ''must set either --to-image or --from-image''), w)
      else
        (let fsType = to_lower filesystem in
         if toImage then
           (case sys_read_file arg0 w of
              Inl e \<Rightarrow> (Some e, w)
            | Inr data \<Rightarrow>
                (let perm = (case statPerm arg0 w of Inl e \<Rightarrow> 420 | Inr m \<Rightarrow> m mod 512);
                     opts = \<lparr>fo_Path = file, fo_Filesystem = fsType, fo_PartIndex = part,
                             fo_FilePath = arg1, fo_UnlockKeys = []\<rparr>
                 in case WriteFile dmg lib opts data perm w of
                      (Some e, w1) \<Rightarrow> (Some e, w1)
                    | (None, w1) \<Rightarrow> (None, print_line ''copied to image'' w1)))
         else
           (let opts = \<lparr>fo_Path = file, fo_Filesystem = fsType, fo_PartIndex = part,
                        fo_FilePath = arg0, fo_UnlockKeys = []\<rparr>
            in case ReadFile dmg lib opts w of
                 (Inl e, w1) \<Rightarrow> (Some e, w1)
               | (Inr data, w1) \<Rightarrow>
                   (case sys_write_file arg1 data w1 of
                      (Some e, w2) \<Rightarrow> (Some e, w2)
                    | (None, w2) \<Rightarrow> (None, print_line ''copied from image'' w2)))))"

section \<open>The contents of files\<close>

definition file_data :: "world \<Rightarrow> string \<Rightarrow> bytes option" where
  "file_data w p = map_option (\<lambda>im. img_bytes im 0 (isize im)) (files w p)"

lemma file_data_print [simp]: "files (print_line s w) = files w"
  by (simp add: print_line_def)

lemma sys_read_file_data: "sys_read_file p w = Inr d \<Longrightarrow> file_data w p = Some d"
  by (auto simp: sys_read_file_def sys_open_def sys_read_at_def img_read_def file_data_def Let_def
      split: if_splits option.splits prod.splits)

lemma sys_write_file_data: "sys_write_file p d w = (None, w') \<Longrightarrow> file_data w' p = Some d"
  by (auto simp: sys_write_file_def sys_create_def sys_write_at_def file_data_def img_write_def empty_image_def
      img_bytes_def intro!: nth_equalityI split: if_splits option.splits prod.splits)

text \<open>
  What the driver of a raw image promises of the files in it: \<open>st\<close>, what the image stores,
  depends on the bytes of the image only; opening and closing keep it, a write that succeeds
  stores its data, and a read that succeeds returns what is stored.
\<close>

definition stores_files ::
    "fs_lib \<Rightarrow> string \<Rightarrow> FilesystemType \<Rightarrow> int \<Rightarrow> (world \<Rightarrow> string \<Rightarrow> bytes option) \<Rightarrow> bool" where
  "stores_files lib img fs part st \<longleftrightarrow>
     (\<forall>v h v1. fsOpen lib fs img part v = (Inr h, v1) \<longrightarrow> st v1 = st v \<and>
        (\<forall>w p d m w'. fsWriteFile lib h p d m w = (None, w') \<longrightarrow> st w' p = Some d) \<and>
        (\<forall>w p d w'. fsReadFile lib h p w = (Inr d, w') \<longrightarrow> st w p = Some d) \<and>
        (\<forall>w. st (snd (fsClose lib h w)) = st w)) \<and>
     (\<forall>w w'. files w img = files w' img \<longrightarrow> st w = st w')"

definition driver_types :: "FilesystemType set" where
  "driver_types = {FSExt4, FSFat32, FSBtrfs, FSXfs, FSZfs, FSExFAT, FSNTFS, FSApfs}"

lemma openFS_raw:
  assumes "fs \<in> driver_types" and "\<not> isUDIF dmg img w"
  shows "openFS dmg lib img part fs [] w = plain_open (fsOpen lib fs img part w)"
  using assms by (auto simp: driver_types_def openFS_def resolve_fs_def open_raw_def open_apfs_def)

lemma WriteFile_stores:
  assumes "stores_files lib (fo_Path opts) (fo_Filesystem opts) (fo_PartIndex opts) st"
    and "fo_Filesystem opts \<in> driver_types" and "\<not> isUDIF dmg (fo_Path opts) w" and "fo_UnlockKeys opts = []"
    and "WriteFile dmg lib opts d m w = (None, w')"
  shows "st w' (fo_FilePath opts) = Some d"
proof -
  obtain h v1 where h: "fsOpen lib (fo_Filesystem opts) (fo_Path opts) (fo_PartIndex opts) w = (Inr h, v1)"
    using assms(5) openFS_raw [OF assms(2,3)] assms(4)
    by (auto simp: WriteFile_def with_fs_def plain_open_def split: if_splits prod.splits sum.splits)
  obtain v2 where v2: "write_with_retry lib (fo_FilePath opts) d m h v1 = (None, v2)" "w' = snd (fsClose lib h v2)"
    using assms(5) openFS_raw [OF assms(2,3)] assms(4) h
    by (auto simp: WriteFile_def with_fs_def plain_open_def split: if_splits prod.splits)
  have "\<exists>u. fsWriteFile lib h (fo_FilePath opts) d m u = (None, v2)"
    using v2(1) by (auto simp: write_with_retry_def split: prod.splits option.splits)
  then show ?thesis using assms(1) h v2(2) unfolding stores_files_def by metis
qed

lemma ReadFile_stored:
  assumes "stores_files lib (fo_Path opts) (fo_Filesystem opts) (fo_PartIndex opts) st"
    and "fo_Filesystem opts \<in> driver_types" and "\<not> isUDIF dmg (fo_Path opts) w" and "fo_UnlockKeys opts = []"
    and "ReadFile dmg lib opts w = (Inr d, w')"
  shows "st w (fo_FilePath opts) = Some d"
proof -
  obtain h v1 where h: "fsOpen lib (fo_Filesystem opts) (fo_Path opts) (fo_PartIndex opts) w = (Inr h, v1)"
    using assms(5) openFS_raw [OF assms(2,3)] assms(4)
    by (auto simp: ReadFile_def with_fs_def plain_open_def split: if_splits prod.splits sum.splits)
  obtain v2 where "fsReadFile lib h (fo_FilePath opts) v1 = (Inr d, v2)"
    using assms(5) openFS_raw [OF assms(2,3)] assms(4) h
    by (auto simp: ReadFile_def with_fs_def plain_open_def split: if_splits prod.splits)
  then show ?thesis using assms(1) h unfolding stores_files_def by metis
qed

lemma copy_to_image:
  assumes "stores_files lib img (to_lower fs) part st" and "to_lower fs \<in> driver_types" and "\<not> isUDIF dmg img w"
    and "copyCmd dmg lib statPerm img fs part True False src p w = (None, w1)"
  shows "\<exists>d. file_data w src = Some d \<and> st w1 p = Some d"
proof -
  let ?opts = "\<lparr>fo_Path = img, fo_Filesystem = to_lower fs, fo_PartIndex = part, fo_FilePath = p, fo_UnlockKeys = []\<rparr>"
  let ?m = "case statPerm src w of Inl e \<Rightarrow> 420 | Inr m \<Rightarrow> m mod 512"
  obtain d where d1: "sys_read_file src w = Inr d"
    using assms(4) by (cases "sys_read_file src w") (simp_all add: copyCmd_def Let_def)
  obtain r v where rv: "WriteFile dmg lib ?opts d ?m w = (r, v)" by (metis surj_pair)
  have run: "copyCmd dmg lib statPerm img fs part True False src p w =
      (case r of Some e \<Rightarrow> (Some e, v) | None \<Rightarrow> (None, print_line ''copied to image'' v))"
    unfolding copyCmd_def Let_def by (simp add: d1 rv)
  have d: "sys_read_file src w = Inr d" "WriteFile dmg lib ?opts d ?m w = (None, v)"
      "w1 = print_line ''copied to image'' v"
    using assms(4) d1 rv unfolding run by (simp_all split: option.splits)
  have "st v p = Some d" using WriteFile_stores [of lib ?opts st dmg w d ?m v] assms(1-3) d(2) by simp
  moreover have "files w1 img = files v img \<Longrightarrow> st w1 = st v"
    using assms(1) unfolding stores_files_def by blast
  then have "st w1 = st v" using d(3) by (simp add: print_line_def)
  ultimately show ?thesis using sys_read_file_data [OF d(1)] by (intro exI [of _ d] conjI) simp_all
qed

lemma copy_from_image:
  assumes "stores_files lib img (to_lower fs) part st" and "to_lower fs \<in> driver_types" and "\<not> isUDIF dmg img w"
    and "copyCmd dmg lib statPerm img fs part False True p dst w = (None, w1)"
  shows "\<exists>d. st w p = Some d \<and> file_data w1 dst = Some d"
proof -
  let ?opts = "\<lparr>fo_Path = img, fo_Filesystem = to_lower fs, fo_PartIndex = part, fo_FilePath = p, fo_UnlockKeys = []\<rparr>"
  obtain r v where rv: "ReadFile dmg lib ?opts w = (r, v)" by (metis surj_pair)
  obtain d where r: "r = Inr d" using assms(4) rv by (cases r) (simp_all add: copyCmd_def Let_def)
  obtain e u where eu: "sys_write_file dst d v = (e, u)" by (metis surj_pair)
  have d: "ReadFile dmg lib ?opts w = (Inr d, v)" "sys_write_file dst d v = (None, u)"
      "w1 = print_line ''copied from image'' u"
    using assms(4) rv r eu by (cases e; simp add: copyCmd_def Let_def)+
  have "st w p = Some d" using ReadFile_stored [of lib ?opts st dmg w d v] assms(1-3) d(1) by simp
  moreover have "file_data w1 dst = Some d"
    using sys_write_file_data [OF d(2)] d(3) by (simp add: file_data_def)
  ultimately show ?thesis by blast
qed

section \<open>Properties\<close>

text \<open>C31: A file copied into a raw image and copied out again is the file: when both runs of
  \<open>copy\<close> report success, the second destination holds exactly the bytes of the first source,
  on every driver that stores files in its image.\<close>

theorem copy_round_trip:
  assumes "stores_files lib img (to_lower fs) part st" and "to_lower fs \<in> driver_types" and "\<And>v. \<not> isUDIF dmg img v"
    and "copyCmd dmg lib statPerm img fs part True False src p w = (None, w1)"
    and "copyCmd dmg lib statPerm img fs part False True p dst w1 = (None, w2)"
  shows "file_data w2 dst = file_data w src \<and> file_data w src \<noteq> None"
  using copy_to_image [OF assms(1-4)] copy_from_image [OF assms(1-3,5)] by auto

text \<open>A driver whose image is the contents of its one file, \<open>/a\<close>.\<close>

definition one_file_driver :: fs_lib where
  "one_file_driver =
     tree_driver\<lparr>
      fsReadFile := (\<lambda>h p w. case file_data w ''disk.img'' of
        Some d \<Rightarrow> if p = ''/a'' then (Inr d, w) else (Inl (Lib ''read''), w)
      | None \<Rightarrow> (Inl (Lib ''read''), w)),
      fsWriteFile := (\<lambda>h p d m w. if p = ''/a'' then sys_write_file ''disk.img'' d w else (Some (Lib ''write''), w))\<rparr>"

definition one_file :: "world \<Rightarrow> string \<Rightarrow> bytes option" where
  "one_file w p = (if p = ''/a'' then file_data w ''disk.img'' else None)"

lemma one_file_driver_stores: "stores_files one_file_driver ''disk.img'' fs part one_file"
proof -
  have w: "sys_write_file ''disk.img'' d w = (None, w') \<Longrightarrow> file_data w' ''disk.img'' = Some d" for d w w'
    by (rule sys_write_file_data)
  have f: "files w ''disk.img'' = files w' ''disk.img'' \<Longrightarrow> one_file w = one_file w'" for w w'
    by (rule ext) (simp add: one_file_def file_data_def)
  show ?thesis
    unfolding stores_files_def
    by (auto simp: one_file_driver_def tree_driver_def one_file_def w intro: f split: if_splits option.splits)
qed

definition copy_world :: world where
  "copy_world = demo_world\<lparr>files :=
     [''disk.img'' \<mapsto> empty_image, ''in.txt'' \<mapsto> img_write 0 [0x68, 0x69] empty_image]\<rparr>"

theorem copy_round_trip_witness:
  "\<exists>w1 w2. copyCmd idle_dmg one_file_driver (\<lambda>p w. Inr 420) ''disk.img'' ''XFS'' 0 True False ''in.txt'' ''/a'' copy_world
       = (None, w1) \<and>
     copyCmd idle_dmg one_file_driver (\<lambda>p w. Inr 420) ''disk.img'' ''XFS'' 0 False True ''/a'' ''out.txt'' w1 = (None, w2) \<and>
     file_data w2 ''out.txt'' = Some [0x68, 0x69]"
proof -
  let ?to = "copyCmd idle_dmg one_file_driver (\<lambda>p w. Inr 420) ''disk.img'' ''XFS'' 0 True False ''in.txt'' ''/a'' copy_world"
  let ?from = "copyCmd idle_dmg one_file_driver (\<lambda>p w. Inr 420) ''disk.img'' ''XFS'' 0 False True ''/a'' ''out.txt''"
  have fs: "to_lower ''XFS'' = FSXfs" by code_simp
  have data: "file_data copy_world ''in.txt'' = Some [0x68, 0x69]"
    by (simp add: file_data_def copy_world_def demo_world_def img_write_def empty_image_def img_bytes_def upt_rec)
  have t: "\<exists>w1. ?to = (None, w1) \<and> file_data w1 ''disk.img'' = Some [0x68, 0x69] \<and> (\<forall>s p x. fault w1 s p x = None)"
    by (simp add: copyCmd_def fs sys_read_file_def sys_open_def copy_world_def demo_world_def sys_read_at_def
        img_read_def img_write_def empty_image_def img_bytes_def WriteFile_def with_fs_def openFS_def resolve_fs_def
        open_raw_def plain_open_def idle_dmg_def one_file_driver_def tree_driver_def write_with_retry_def
        sys_write_file_def sys_create_def sys_write_at_def file_data_def upt_rec print_line_def)
  then obtain w1 where w1: "?to = (None, w1)" "file_data w1 ''disk.img'' = Some [0x68, 0x69]"
    "\<And>s p x. fault w1 s p x = None" by blast
  have "\<exists>w2. ?from w1 = (None, w2)"
    using w1(2,3) by (simp add: copyCmd_def fs ReadFile_def with_fs_def openFS_def resolve_fs_def
        open_raw_def plain_open_def idle_dmg_def one_file_driver_def tree_driver_def
        sys_write_file_def sys_create_def sys_write_at_def)
  then obtain w2 where w2: "?from w1 = (None, w2)" by blast
  have "file_data w2 ''out.txt'' = file_data copy_world ''in.txt''"
    using copy_round_trip [OF one_file_driver_stores _ _ w1(1) w2] fs
    by (simp add: driver_types_def idle_dmg_def)
  then show ?thesis using w1(1) w2 data by metis
qed



end
