(* ===== verification/Uefi_Commands.thy ===== *)
theory Uefi_Commands
  imports Cli_Commands Exec_Utils
begin

text \<open>
  exec_cmd_uefi.go: listing, reading, setting and deleting the variables of a UEFI variable
  store. The store is the library record \<open>uefi_lib\<close>; the deferred \<open>Close\<close> runs after the
  operation and its error is dropped.
\<close>

section \<open>Commands\<close>

text \<open>A width of \<open>fmt\<close> counts the runes of a UTF-8 text: the bytes that continue none.\<close>

definition rune_count :: "string \<Rightarrow> nat" where
  "rune_count s = length (filter (\<lambda>c. \<not> (128 \<le> (of_char c :: nat) \<and> (of_char c :: nat) < 192)) s)"

definition pad_right :: "nat \<Rightarrow> string \<Rightarrow> string" where
  "pad_right n s = s @ replicate (n - rune_count s) (CHR '' '')"

definition formatUEFIAttrs :: "uefi_lib \<Rightarrow> 32 word \<Rightarrow> string" where
  "formatUEFIAttrs u a =
     (let parts = [];
          parts = (if a AND uefiAttrNonVolatile u \<noteq> 0 then parts @ [''NV''] else parts);
          parts = (if a AND uefiAttrBootService u \<noteq> 0 then parts @ [''BS''] else parts);
          parts = (if a AND uefiAttrRuntime u \<noteq> 0 then parts @ [''RT''] else parts)
      in if parts = [] then ''-'' else join_with ''+'' parts)"

definition uefi_line :: "uefi_lib \<Rightarrow> uefi_var \<Rightarrow> string" where
  "uefi_line u v =
     pad_right 40 (uv_Name v) @ ''  '' @ pad_right 8 (formatUEFIAttrs u (uv_Attributes v)) @ ''  '' @
     itoa (int (length (uv_Data v)))"

definition handleUefiList :: "uefi_lib \<Rightarrow> string \<Rightarrow> world \<Rightarrow> error option \<times> world" where
  "handleUefiList u file w =
     (case uefiOpen u file w of
        (Inl e, w1) \<Rightarrow> (Some (Wrap ''uefi: open'' e), w1)
      | (Inr s, w1) \<Rightarrow>
          (let vars = uefiList u s w1;
               w2 = (if vars = [] then print_line ''(no variables)'' w1
                     else foldl (\<lambda>w v. print_line (uefi_line u v) w)
                            (print_line (pad_right 40 ''Name'' @ ''  '' @ pad_right 8 ''Attrs'' @ ''  '' @ ''Size'') w1)
                            vars)
           in (None, snd (uefiClose u s w2))))"

definition handleUefiGet :: "uefi_lib \<Rightarrow> string \<Rightarrow> string \<Rightarrow> world \<Rightarrow> error option \<times> world" where
  "handleUefiGet u file name w =
     (case uefiOpen u file w of
        (Inl e, w1) \<Rightarrow> (Some (Wrap ''uefi: open'' e), w1)
      | (Inr s, w1) \<Rightarrow>
          (case uefiGet u s name (uefiDefaultGUID u) w1 of
             Inl e \<Rightarrow> (Some (Wrap ''uefi: get'' e), snd (uefiClose u s w1))
           | Inr v \<Rightarrow> (None, snd (uefiClose u s (print_line (hex_encode (uv_Data v)) w1)))))"

definition handleUefiSet :: "uefi_lib \<Rightarrow> string \<Rightarrow> string \<Rightarrow> string \<Rightarrow> world \<Rightarrow> error option \<times> world" where
  "handleUefiSet u file name dataHex w =
     (case hex_decode dataHex of
        None \<Rightarrow> (Some (Wrap ''uefi: invalid hex data'' (Msg ''encoding/hex'')), w)
      | Some data \<Rightarrow>
          (case uefiOpen u file w of
             (Inl e, w1) \<Rightarrow> (Some (Wrap ''uefi: open'' e), w1)
           | (Inr s, w1) \<Rightarrow>
               (case uefiSet u s
                       \<lparr>uv_Name = name, uv_GUID = uefiDefaultGUID u,
                        uv_Attributes = uefiAttrNonVolatile u OR uefiAttrBootService u OR uefiAttrRuntime u,
                        uv_Data = data\<rparr> w1 of
                  (Some e, w2) \<Rightarrow> (Some (Wrap ''uefi: set'' e), snd (uefiClose u s w2))
                | (None, w2) \<Rightarrow>
                    (None, snd (uefiClose u s
                       (print_line (''set '' @ name @ '' ('' @ itoa (int (length data)) @ '' bytes)'') w2))))))"

definition handleUefiDelete :: "uefi_lib \<Rightarrow> string \<Rightarrow> string \<Rightarrow> world \<Rightarrow> error option \<times> world" where
  "handleUefiDelete u file name w =
     (case uefiOpen u file w of
        (Inl e, w1) \<Rightarrow> (Some (Wrap ''uefi: open'' e), w1)
      | (Inr s, w1) \<Rightarrow>
          (case uefiDelete u s name (uefiDefaultGUID u) w1 of
             (Some e, w2) \<Rightarrow> (Some (Wrap ''uefi: delete'' e), snd (uefiClose u s w2))
           | (None, w2) \<Rightarrow> (None, snd (uefiClose u s (print_line (''deleted '' @ name) w2)))))"

text \<open>The loop over the arguments after the name; \<open>i++\<close> in it skips the value of \<open>--data\<close>.\<close>

fun uefi_set_args :: "string list \<Rightarrow> string \<Rightarrow> string" where
  "uefi_set_args [] dataHex = dataHex"
| "uefi_set_args (a # as) dataHex =
     (if has_prefix a ''--data='' then uefi_set_args as (trim_prefix a ''--data='')
      else if a = ''--data'' \<and> as \<noteq> [] then uefi_set_args (tl as) (hd as)
      else uefi_set_args as dataHex)"

definition handleUefiSetDispatch :: "uefi_lib \<Rightarrow> string list \<Rightarrow> string \<Rightarrow> world \<Rightarrow> error option \<times> world" where
  "handleUefiSetDispatch u args file w =
     (if args = [] then (Some (Msg ''uefi set requires a variable name''), w)
      else handleUefiSet u file (hd args) (uefi_set_args (tl args) '''') w)"

definition handleUefi :: "uefi_lib \<Rightarrow> string list \<Rightarrow> string \<Rightarrow> world \<Rightarrow> error option \<times> world" where
  "handleUefi u argv file w =
     (if length argv < 2 then (Some (Msg ''uefi requires a sub-command: list, get, set, delete''), w)
      else if file = '''' then (Some (Msg ''--file is required for 'uefi' ''), w)
      else if argv ! 1 = ''list'' then handleUefiList u file w
      else if argv ! 1 = ''get'' then
        (if length argv < 3 then (Some (Msg ''uefi get requires a variable name''), w)
         else handleUefiGet u file (argv ! 2) w)
      else if argv ! 1 = ''set'' then handleUefiSetDispatch u (drop 2 argv) file w
      else if argv ! 1 = ''delete'' then
        (if length argv < 3 then (Some (Msg ''uefi delete requires a variable name''), w)
         else handleUefiDelete u file (argv ! 2) w)
      else (Some (Msg ''unsupported uefi sub-command''), w))"

section \<open>What a store keeps\<close>

text \<open>
  What the library promises of a variable store: \<open>st\<close>, the variables of the default name
  space, depends on the bytes of the store's file only; opening and closing keep it, setting
  a variable stores it, and reading one returns what is stored.
\<close>

definition keeps_vars :: "uefi_lib \<Rightarrow> string \<Rightarrow> (world \<Rightarrow> string \<Rightarrow> uefi_var option) \<Rightarrow> bool" where
  "keeps_vars u file st \<longleftrightarrow>
     (\<forall>v h v1. uefiOpen u file v = (Inr h, v1) \<longrightarrow> st v1 = st v \<and>
        (\<forall>w x w'. uefiSet u h x w = (None, w') \<and> uv_GUID x = uefiDefaultGUID u \<longrightarrow>
           st w' = (st w)(uv_Name x \<mapsto> x)) \<and>
        (\<forall>w n x. uefiGet u h n (uefiDefaultGUID u) w = Inr x \<longrightarrow> st w n = Some x) \<and>
        (\<forall>w n w'. uefiDelete u h n (uefiDefaultGUID u) w = (None, w') \<longrightarrow> st w' = (st w)(n := None)) \<and>
        (\<forall>w. st (snd (uefiClose u h w)) = st w \<and> stdout (snd (uefiClose u h w)) = stdout w)) \<and>
     (\<forall>w w'. files w file = files w' file \<longrightarrow> st w = st w')"

lemma keeps_vars_open:
  assumes "keeps_vars u file st" and "uefiOpen u file v = (Inr h, v1)"
  shows "st v1 = st v"
    and "uefiSet u h x w = (None, w') \<Longrightarrow> uv_GUID x = uefiDefaultGUID u \<Longrightarrow> st w' = (st w)(uv_Name x \<mapsto> x)"
    and "uefiGet u h n (uefiDefaultGUID u) w = Inr x \<Longrightarrow> st w n = Some x"
    and "uefiDelete u h n (uefiDefaultGUID u) w = (None, w') \<Longrightarrow> st w' = (st w)(n := None)"
    and "st (snd (uefiClose u h w)) = st w" and "stdout (snd (uefiClose u h w)) = stdout w"
  using assms unfolding keeps_vars_def by blast+

lemma keeps_vars_print: "keeps_vars u file st \<Longrightarrow> st (print_line s w) = st w"
proof -
  assume "keeps_vars u file st"
  then have "files (print_line s w) file = files w file \<Longrightarrow> st (print_line s w) = st w"
    unfolding keeps_vars_def by blast
  then show ?thesis by (simp add: print_line_def)
qed

lemma handleUefiSet_stores:
  assumes "keeps_vars u file st" and "handleUefiSet u file name h w = (None, w')"
  shows "\<exists>x. st w' = (st w)(name \<mapsto> x) \<and> hex_decode h = Some (uv_Data x)"
proof -
  obtain d where d: "hex_decode h = Some d"
    using assms(2) by (auto simp: handleUefiSet_def split: option.splits)
  obtain s w1 where s: "uefiOpen u file w = (Inr s, w1)"
    using assms(2) d by (auto simp: handleUefiSet_def split: prod.splits sum.splits)
  let ?x = "\<lparr>uv_Name = name, uv_GUID = uefiDefaultGUID u,
      uv_Attributes = uefiAttrNonVolatile u OR uefiAttrBootService u OR uefiAttrRuntime u, uv_Data = d\<rparr>"
  obtain w2 where w2: "uefiSet u s ?x w1 = (None, w2)"
    using assms(2) d s by (auto simp: handleUefiSet_def split: prod.splits option.splits)
  have "w' = snd (uefiClose u s (print_line (''set '' @ name @ '' ('' @ itoa (int (length d)) @ '' bytes)'') w2))"
    using assms(2) d s w2 by (simp add: handleUefiSet_def)
  then have "st w' = (st w)(name \<mapsto> ?x)"
    using keeps_vars_open(1,2,5) [OF assms(1) s] keeps_vars_print [OF assms(1)] w2 by simp
  then show ?thesis using d by (intro exI [of _ ?x]) simp
qed

lemma handleUefiGet_prints:
  assumes "keeps_vars u file st" and "handleUefiGet u file name w = (None, w')"
  shows "\<exists>x. st w name = Some x \<and> last (stdout w') = hex_encode (uv_Data x)"
proof -
  obtain s w1 where s: "uefiOpen u file w = (Inr s, w1)"
    using assms(2) by (auto simp: handleUefiGet_def split: prod.splits sum.splits)
  obtain x where x: "uefiGet u s name (uefiDefaultGUID u) w1 = Inr x"
    using assms(2) s by (auto simp: handleUefiGet_def split: sum.splits)
  have "w' = snd (uefiClose u s (print_line (hex_encode (uv_Data x)) w1))"
    using assms(2) s x by (simp add: handleUefiGet_def)
  then have "stdout w' = stdout w1 @ [hex_encode (uv_Data x)]"
    using keeps_vars_open(6) [OF assms(1) s] by (simp add: print_line_def)
  moreover have "st w name = Some x"
    using keeps_vars_open(3) [OF assms(1) s x] keeps_vars_open(1) [OF assms(1) s] by simp
  ultimately show ?thesis by auto
qed

section \<open>Properties\<close>

text \<open>C37: On a store that keeps its variables, \<open>uefi get\<close> after a successful \<open>uefi set\<close> with the
  data \<open>h\<close>, in either spelling of the flag, prints \<open>h\<close> in lower case; and what is not
  hexadecimal, or has an odd number of digits, is refused before the store is opened.\<close>

theorem uefi_set_then_get:
  assumes "keeps_vars u file st" and "file \<noteq> ''''"
    and "args = [''--data'', h] \<or> args = [''--data='' @ h]"
  shows "(hex_decode h = None \<longrightarrow> (\<exists>e. handleUefi u (''uefi'' # ''set'' # name # args) file w = (Some e, w))) \<and>
    (\<forall>w1 w2. handleUefi u (''uefi'' # ''set'' # name # args) file w = (None, w1) \<longrightarrow>
      handleUefi u [''uefi'', ''get'', name] file w1 = (None, w2) \<longrightarrow> last (stdout w2) = to_lower h)"
proof -
  have a: "uefi_set_args args '''' = h"
    using assms(3) by (auto simp: has_prefix_def trim_prefix_def)
  have set: "handleUefi u (''uefi'' # ''set'' # name # args) file w = handleUefiSet u file name h w"
    using assms(2) by (simp add: handleUefi_def handleUefiSetDispatch_def a)
  have get: "handleUefi u [''uefi'', ''get'', name] file w1 = handleUefiGet u file name w1" for w1
    using assms(2) by (simp add: handleUefi_def)
  have "last (stdout w2) = to_lower h"
    if "handleUefiSet u file name h w = (None, w1)" "handleUefiGet u file name w1 = (None, w2)" for w1 w2
    using handleUefiSet_stores [OF assms(1) that(1)] handleUefiGet_prints [OF assms(1) that(2)]
      hex_encode_decode [of h] by auto
  then show ?thesis unfolding set get by (auto simp: handleUefiSet_def)
qed

text \<open>A store that keeps one variable, its file being the data of it.\<close>

definition one_var_store :: uefi_lib where
  "one_var_store =
     \<lparr>uefiFormat = (\<lambda>p n w. (Inr 0, w)), uefiOpen = (\<lambda>p w. (Inr 0, w)), uefiList = (\<lambda>h w. []),
      uefiGet = (\<lambda>h n g w. case file_data w ''vars.fd'' of
        Some d \<Rightarrow> if n = ''Boot'' \<and> g = [1] then Inr \<lparr>uv_Name = ''Boot'', uv_GUID = [1], uv_Attributes = 7, uv_Data = d\<rparr>
                  else Inl (Lib ''not found'')
      | None \<Rightarrow> Inl (Lib ''not found'')),
      uefiSet = (\<lambda>h x w. if uv_Name x = ''Boot'' \<and> uv_GUID x = [1] \<and> uv_Attributes x = 7 then sys_write_file ''vars.fd'' (uv_Data x) w
        else (Some (Lib ''full''), w)),
      uefiDelete = (\<lambda>h n g w. (Some (Lib ''not found''), w)), uefiClose = (\<lambda>h w. (None, w)),
      uefiDefaultGUID = [1], uefiAttrNonVolatile = 1, uefiAttrBootService = 2, uefiAttrRuntime = 4\<rparr>"

definition one_var :: "world \<Rightarrow> string \<Rightarrow> uefi_var option" where
  "one_var w n = (if n = ''Boot'' then
     map_option (\<lambda>d. \<lparr>uv_Name = ''Boot'', uv_GUID = [1], uv_Attributes = 7, uv_Data = d\<rparr>) (file_data w ''vars.fd'') else None)"

lemma one_var_store_keeps: "keeps_vars one_var_store ''vars.fd'' one_var"
proof -
  have f: "files w ''vars.fd'' = files w' ''vars.fd'' \<Longrightarrow> one_var w = one_var w'" for w w'
    by (rule ext) (simp add: one_var_def file_data_def)
  have s: "one_var w' = (one_var w)(''Boot'' \<mapsto> x)"
    if "sys_write_file ''vars.fd'' (uv_Data x) w = (None, w')" "uv_Name x = ''Boot''" "uv_GUID x = [1]" "uv_Attributes x = 7"
    for w w' x
    using sys_write_file_data [OF that(1)] that(2-4) by (auto simp: one_var_def fun_eq_iff)
  show ?thesis unfolding keeps_vars_def
    by (auto simp: one_var_store_def s intro: f split: if_splits option.splits) (auto simp: one_var_def)
qed

theorem uefi_set_then_get_witness:
  "last (stdout (snd (handleUefi one_var_store [''uefi'', ''get'', ''Boot''] ''vars.fd''
     (snd (handleUefi one_var_store [''uefi'', ''set'', ''Boot'', ''--data=0A1f''] ''vars.fd'' demo_world))))) = ''0a1f''"
proof -
  have h: "hex_decode ''0A1f'' = Some [0x0A, 0x1F]" "to_lower ''0A1f'' = ''0a1f''" by code_simp+
  have s: "\<exists>w1. handleUefi one_var_store [''uefi'', ''set'', ''Boot'', ''--data=0A1f''] ''vars.fd'' demo_world = (None, w1) \<and>
      file_data w1 ''vars.fd'' = Some [0x0A, 0x1F]"
    by (simp add: handleUefi_def handleUefiSetDispatch_def has_prefix_def trim_prefix_def handleUefiSet_def h
        one_var_store_def sys_write_file_def sys_create_def sys_write_at_def demo_world_def print_line_def
        file_data_def img_write_def empty_image_def img_bytes_def upt_rec del: hex_decode.simps)
  then obtain w1 where w1: "handleUefi one_var_store [''uefi'', ''set'', ''Boot'', ''--data=0A1f''] ''vars.fd'' demo_world = (None, w1)"
    "file_data w1 ''vars.fd'' = Some [0x0A, 0x1F]" by blast
  have "\<exists>w2. handleUefi one_var_store [''uefi'', ''get'', ''Boot''] ''vars.fd'' w1 = (None, w2)"
    using w1(2) by (simp add: handleUefi_def handleUefiGet_def one_var_store_def)
  then show ?thesis
    using uefi_set_then_get [OF one_var_store_keeps, of "[''--data=0A1f'']" "''0A1f''" "''Boot''" demo_world] w1(1) h(2)
    by auto
qed

end
