(* ===== verification/Driver_Commands.thy ===== *)
theory Driver_Commands
  imports Uefi_Commands Listing
begin

text \<open>
  exec_cmd_xfs.go, exec_cmd_btrfs.go, exec_cmd_ext4.go, exec_cmd_fat32.go, exec_cmd_exfat.go,
  exec_cmd_ntfs.go and exec_cmd_zfs_grow.go: the commands that use what one driver offers
  beyond the common interface. Every command checks what file system the image holds, opens
  the driver, runs one operation, closes the driver whatever happened (dropping the error of
  the close) and reports. The writer of the source is the command's output and never nil.
\<close>

section \<open>The drivers\<close>

text \<open>What \<open>ExtendedStat\<close> returns; the times are as \<open>Format(time.RFC3339Nano)\<close> prints them.\<close>

record ext_stat =
  es_IsDir :: bool
  es_IsSymlink :: bool
  es_Inode :: nat
  es_Mode :: nat
  es_Size :: nat
  es_Blocks :: nat
  es_NLink :: nat
  es_UID :: nat
  es_GID :: nat
  es_Generation :: nat
  es_TransID :: nat
  es_Sequence :: nat
  es_Flags :: nat
  es_ATime :: string
  es_MTime :: string
  es_CTime :: string
  es_BTime :: string

record frag_stats =
  fr_Files :: int
  fr_Used :: nat
  fr_FreeExtents :: int
  fr_TotalFree :: nat
  fr_LargestFree :: nat

record drv_lib =
  drvOpen :: "FilesystemType \<Rightarrow> string \<Rightarrow> int \<Rightarrow> world \<Rightarrow> (error + nat) \<times> world"
  drvClose :: "nat \<Rightarrow> world \<Rightarrow> error option \<times> world"
  drvChmod :: "nat \<Rightarrow> string \<Rightarrow> int \<Rightarrow> world \<Rightarrow> error option \<times> world"
  drvChown :: "nat \<Rightarrow> string \<Rightarrow> int \<Rightarrow> int \<Rightarrow> world \<Rightarrow> error option \<times> world"
  drvChtimes :: "nat \<Rightarrow> string \<Rightarrow> int \<Rightarrow> int \<Rightarrow> world \<Rightarrow> error option \<times> world"
  drvLink :: "nat \<Rightarrow> string \<Rightarrow> string \<Rightarrow> world \<Rightarrow> error option \<times> world"
  drvSymlink :: "nat \<Rightarrow> string \<Rightarrow> string \<Rightarrow> world \<Rightarrow> error option \<times> world"
  drvSetXattr :: "nat \<Rightarrow> string \<Rightarrow> string \<Rightarrow> bytes \<Rightarrow> world \<Rightarrow> error option \<times> world"
  drvRemoveXattr :: "nat \<Rightarrow> string \<Rightarrow> string \<Rightarrow> world \<Rightarrow> error option \<times> world"
  drvTruncate :: "nat \<Rightarrow> string \<Rightarrow> int \<Rightarrow> world \<Rightarrow> error option \<times> world"
  drvExtendedStat :: "nat \<Rightarrow> string \<Rightarrow> world \<Rightarrow> error + ext_stat"
  drvIsLabeller :: "nat \<Rightarrow> world \<Rightarrow> bool"
  drvLabel :: "nat \<Rightarrow> world \<Rightarrow> string"
  drvSetLabel :: "nat \<Rightarrow> string \<Rightarrow> world \<Rightarrow> error option \<times> world"
  drvGrowTo :: "nat \<Rightarrow> int \<Rightarrow> world \<Rightarrow> error option \<times> world"
  drvFragmentationStats :: "nat \<Rightarrow> world \<Rightarrow> frag_stats"
  drvLayout :: "nat \<Rightarrow> world \<Rightarrow> (string \<times> nat \<times> nat) list"
  drvCompact :: "nat \<Rightarrow> world \<Rightarrow> error option \<times> world"

text \<open>Open, run, close.\<close>

definition with_handle ::
    "drv_lib \<Rightarrow> (error + nat) \<times> world \<Rightarrow> (nat \<Rightarrow> world \<Rightarrow> error option \<times> world) \<Rightarrow> error option \<times> world" where
  "with_handle lib r body =
     (case r of
        (Inl e, w) \<Rightarrow> (Some e, w)
      | (Inr h, w) \<Rightarrow> (case body h w of (e, w1) \<Rightarrow> (e, snd (drvClose lib h w1))))"

definition report :: "string \<Rightarrow> error option \<times> world \<Rightarrow> error option \<times> world" where
  "report s r = (case r of (Some e, w) \<Rightarrow> (Some e, w) | (None, w) \<Rightarrow> (None, print_line s w))"

text \<open>
  \<open>xfsOpen\<close>, \<open>btrfsOpen\<close> and the four \<open>OpenLabeller\<close> functions differ in the file system only,
  and the last four ask the handle for the \<open>Labeller\<close> capability.
\<close>

definition typed_open ::
    "dmg_lib \<Rightarrow> drv_lib \<Rightarrow> FilesystemType \<Rightarrow> string \<Rightarrow> int \<Rightarrow> world \<Rightarrow> (error + nat) \<times> world" where
  "typed_open dmg lib fs file partIndex w =
     (case DetectFilesystem dmg file partIndex w of
        (Inl e, w1) \<Rightarrow> (Inl (Wrap ''detect filesystem'' e), w1)
      | (Inr fsType, w1) \<Rightarrow>
          if fsType \<noteq> fs then (Inl (Msg (''expected '' @ fs @ '' image'')), w1)
          else
            (case drvOpen lib fs file partIndex w1 of
               (Inl e, w2) \<Rightarrow> (Inl (Wrap (''open '' @ fs @ '' image'') e), w2)
             | (Inr h, w2) \<Rightarrow> (Inr h, w2)))"

definition open_labeller ::
    "dmg_lib \<Rightarrow> drv_lib \<Rightarrow> FilesystemType \<Rightarrow> string \<Rightarrow> int \<Rightarrow> world \<Rightarrow> (error + nat) \<times> world" where
  "open_labeller dmg lib fs file partIndex w =
     (case typed_open dmg lib fs file partIndex w of
        (Inl e, w1) \<Rightarrow> (Inl e, w1)
      | (Inr h, w1) \<Rightarrow>
          if drvIsLabeller lib h w1 then (Inr h, w1)
          else (Inl (Msg (fs @ '' driver does not implement Labeller'')), snd (drvClose lib h w1)))"

definition xfsOpen :: "dmg_lib \<Rightarrow> drv_lib \<Rightarrow> string \<Rightarrow> int \<Rightarrow> world \<Rightarrow> (error + nat) \<times> world" where
  "xfsOpen dmg lib = typed_open dmg lib FSXfs"

definition btrfsOpen :: "dmg_lib \<Rightarrow> drv_lib \<Rightarrow> string \<Rightarrow> int \<Rightarrow> world \<Rightarrow> (error + nat) \<times> world" where
  "btrfsOpen dmg lib = typed_open dmg lib FSBtrfs"

definition ext4OpenLabeller :: "dmg_lib \<Rightarrow> drv_lib \<Rightarrow> string \<Rightarrow> int \<Rightarrow> world \<Rightarrow> (error + nat) \<times> world" where
  "ext4OpenLabeller dmg lib = open_labeller dmg lib FSExt4"

definition fat32OpenLabeller :: "dmg_lib \<Rightarrow> drv_lib \<Rightarrow> string \<Rightarrow> int \<Rightarrow> world \<Rightarrow> (error + nat) \<times> world" where
  "fat32OpenLabeller dmg lib = open_labeller dmg lib FSFat32"

definition exfatOpenLabeller :: "dmg_lib \<Rightarrow> drv_lib \<Rightarrow> string \<Rightarrow> int \<Rightarrow> world \<Rightarrow> (error + nat) \<times> world" where
  "exfatOpenLabeller dmg lib = open_labeller dmg lib FSExFAT"

definition ntfsOpenLabeller :: "dmg_lib \<Rightarrow> drv_lib \<Rightarrow> string \<Rightarrow> int \<Rightarrow> world \<Rightarrow> (error + nat) \<times> world" where
  "ntfsOpenLabeller dmg lib = open_labeller dmg lib FSNTFS"

section \<open>Text\<close>

text \<open>The verb \<open>%q\<close> on a string of ASCII characters; others are copied.\<close>

definition quote_char :: "char \<Rightarrow> string" where
  "quote_char c =
     (let n = of_char c :: nat; bs = CHR 0x5C in
      if n = 0x22 \<or> n = 0x5C then [bs, c]
      else if n = 7 then [bs, CHR ''a''] else if n = 8 then [bs, CHR ''b'']
      else if n = 12 then [bs, CHR ''f''] else if n = 10 then [bs, CHR ''n'']
      else if n = 13 then [bs, CHR ''r''] else if n = 9 then [bs, CHR ''t'']
      else if n = 11 then [bs, CHR ''v'']
      else if n < 32 \<or> n = 127 then [bs, CHR ''x'', digit_char (n div 16), digit_char (n mod 16)]
      else [c])"

definition go_quote :: "string \<Rightarrow> string" where
  "go_quote s = CHR 0x22 # concat (map quote_char s) @ [CHR 0x22]"

text \<open>The arrow of the messages, in UTF-8.\<close>

definition arrow :: string where "arrow = [CHR 0x20, CHR 0xE2, CHR 0x86, CHR 0x92, CHR 0x20]"

definition zero_pad :: "nat \<Rightarrow> string \<Rightarrow> string" where
  "zero_pad n s = replicate (n - length s) (CHR ''0'') @ s"

definition parseOctalMode :: "string \<Rightarrow> error + int" where
  "parseOctalMode s =
     (if s = '''' then Inl (Msg ''empty'')
      else
        (let stripped =
           (if length s \<ge> 2 \<and> (take 2 s = ''0o'' \<or> take 2 s = ''0O'') then drop 2 s
            else if length s > 1 \<and> hd s = CHR ''0'' then tl s
            else s)
         in case parse_uint 8 32 stripped of
              None \<Rightarrow> Inl (Msg ''strconv.ParseUint'')
            | Some n \<Rightarrow> Inr (n AND 0xFFF)))"

section \<open>The commands of xfs and btrfs\<close>

text \<open>
  The two files hold the same functions over the two drivers; each pair is one definition here
  over the function that opens the image and the name that the messages carry.
\<close>

type_synonym opener = "string \<Rightarrow> int \<Rightarrow> world \<Rightarrow> (error + nat) \<times> world"

definition chmod_on ::
    "opener \<Rightarrow> string \<Rightarrow> drv_lib \<Rightarrow> string \<Rightarrow> int \<Rightarrow> string \<Rightarrow> string \<Rightarrow> world \<Rightarrow> error option \<times> world" where
  "chmod_on opn nm lib file partIndex modeStr path w =
     (case parseOctalMode modeStr of
        Inl e \<Rightarrow> (Some (Wrap ''invalid mode'' e), w)
      | Inr mode \<Rightarrow>
          with_handle lib (opn file partIndex w)
            (\<lambda>h w. report (nm @ '' chmod '' @ modeStr @ '' '' @ path @ '' ok'') (drvChmod lib h path mode w)))"

definition chown_on ::
    "opener \<Rightarrow> string \<Rightarrow> drv_lib \<Rightarrow> string \<Rightarrow> int \<Rightarrow> string \<Rightarrow> string \<Rightarrow> string \<Rightarrow> world
     \<Rightarrow> error option \<times> world" where
  "chown_on opn nm lib file partIndex uidStr gidStr path w =
     (case parse_uint 10 32 uidStr of
        None \<Rightarrow> (Some (Wrap ''invalid uid'' (Msg ''strconv.ParseUint'')), w)
      | Some uid \<Rightarrow>
          (case parse_uint 10 32 gidStr of
             None \<Rightarrow> (Some (Wrap ''invalid gid'' (Msg ''strconv.ParseUint'')), w)
           | Some gid \<Rightarrow>
               with_handle lib (opn file partIndex w)
                 (\<lambda>h w. report (nm @ '' chown '' @ uidStr @ '':'' @ gidStr @ '' '' @ path @ '' ok'')
                          (drvChown lib h path (u32 uid) (u32 gid) w))))"

definition chtimes_on ::
    "opener \<Rightarrow> string \<Rightarrow> drv_lib \<Rightarrow> string \<Rightarrow> int \<Rightarrow> string \<Rightarrow> string \<Rightarrow> string \<Rightarrow> world
     \<Rightarrow> error option \<times> world" where
  "chtimes_on opn nm lib file partIndex atimeStr mtimeStr path w =
     (case parse_int 10 64 atimeStr of
        None \<Rightarrow> (Some (Wrap ''invalid atime'' (Msg ''strconv.ParseInt'')), w)
      | Some atimeSec \<Rightarrow>
          (case parse_int 10 64 mtimeStr of
             None \<Rightarrow> (Some (Wrap ''invalid mtime'' (Msg ''strconv.ParseInt'')), w)
           | Some mtimeSec \<Rightarrow>
               with_handle lib (opn file partIndex w)
                 (\<lambda>h w. report (nm @ '' chtimes atime='' @ atimeStr @ '' mtime='' @ mtimeStr @ '' '' @ path @ '' ok'')
                          (drvChtimes lib h path atimeSec mtimeSec w))))"

definition link_on ::
    "opener \<Rightarrow> string \<Rightarrow> drv_lib \<Rightarrow> string \<Rightarrow> int \<Rightarrow> string \<Rightarrow> string \<Rightarrow> world \<Rightarrow> error option \<times> world" where
  "link_on opn nm lib file partIndex oldPath newPath w =
     with_handle lib (opn file partIndex w)
       (\<lambda>h w. report (nm @ '' link '' @ oldPath @ arrow @ newPath @ '' ok'') (drvLink lib h oldPath newPath w))"

definition symlink_on ::
    "opener \<Rightarrow> string \<Rightarrow> drv_lib \<Rightarrow> string \<Rightarrow> int \<Rightarrow> string \<Rightarrow> string \<Rightarrow> world \<Rightarrow> error option \<times> world" where
  "symlink_on opn nm lib file partIndex target linkPath w =
     with_handle lib (opn file partIndex w)
       (\<lambda>h w. report (nm @ '' symlink '' @ linkPath @ arrow @ target @ '' ok'') (drvSymlink lib h target linkPath w))"

definition truncate_on ::
    "opener \<Rightarrow> string \<Rightarrow> drv_lib \<Rightarrow> string list \<Rightarrow> string \<Rightarrow> int \<Rightarrow> string \<Rightarrow> string \<Rightarrow> world
     \<Rightarrow> error option \<times> world" where
  "truncate_on opn nm lib order file partIndex sizeStr path w =
     (case exec_parseSize order sizeStr of
        Inl e \<Rightarrow> (Some (Wrap ''invalid size'' e), w)
      | Inr sizeBytes \<Rightarrow>
          with_handle lib (opn file partIndex w)
            (\<lambda>h w. report (nm @ '' truncate '' @ path @ arrow @ sizeStr @ '' ok'') (drvTruncate lib h path sizeBytes w)))"

text \<open>Reading and writing the label, for these two and for the four labellers below.\<close>

definition get_label_on ::
    "opener \<Rightarrow> drv_lib \<Rightarrow> string \<Rightarrow> int \<Rightarrow> world \<Rightarrow> error option \<times> world" where
  "get_label_on opn lib file partIndex w =
     with_handle lib (opn file partIndex w) (\<lambda>h w. (None, print_line (drvLabel lib h w) w))"

definition set_label_on ::
    "opener \<Rightarrow> string \<Rightarrow> drv_lib \<Rightarrow> string \<Rightarrow> int \<Rightarrow> string \<Rightarrow> world \<Rightarrow> error option \<times> world" where
  "set_label_on opn nm lib file partIndex newLabel w =
     with_handle lib (opn file partIndex w)
       (\<lambda>h w. report (nm @ '' label set '' @ go_quote newLabel @ '' ok'') (drvSetLabel lib h newLabel w))"

text \<open>The lines of \<open>ExtendedStat\<close>; the size, generation and last time lines differ.\<close>

definition stat_kind :: "ext_stat \<Rightarrow> string" where
  "stat_kind st =
     (if es_IsDir st then ''directory'' else if es_IsSymlink st then ''symlink'' else ''regular'')"

definition dec :: "nat \<Rightarrow> string" where "dec n = nat_str 10 n"

definition mode_line :: "ext_stat \<Rightarrow> string" where
  "mode_line st =
     ''Mode:       0o'' @ zero_pad 4 (nat_str 8 (es_Mode st)) @ '' (perm 0o'' @
     zero_pad 3 (nat_str 8 (es_Mode st AND 0xFFF)) @ '')''"

definition xfs_stat_lines :: "string \<Rightarrow> ext_stat \<Rightarrow> string list" where
  "xfs_stat_lines path st =
     [''Path:       '' @ path,
      ''Inode:      '' @ dec (es_Inode st),
      ''Type:       '' @ stat_kind st,
      mode_line st,
      ''Size:       '' @ dec (es_Size st) @ '' bytes (blocks: '' @ dec (es_Blocks st) @ '')'',
      ''Links:      '' @ dec (es_NLink st),
      ''Owner:      uid='' @ dec (es_UID st) @ '' gid='' @ dec (es_GID st),
      ''Generation: '' @ dec (es_Generation st),
      ''ATime:      '' @ es_ATime st,
      ''MTime:      '' @ es_MTime st,
      ''CTime:      '' @ es_CTime st,
      ''CRTime:     '' @ es_BTime st]"

definition btrfs_stat_lines :: "string \<Rightarrow> ext_stat \<Rightarrow> string list" where
  "btrfs_stat_lines path st =
     [''Path:       '' @ path,
      ''Inode:      '' @ dec (es_Inode st),
      ''Type:       '' @ stat_kind st,
      mode_line st,
      ''Size:       '' @ dec (es_Size st) @ '' bytes (on disk: '' @ dec (es_Blocks st) @ '')'',
      ''Links:      '' @ dec (es_NLink st),
      ''Owner:      uid='' @ dec (es_UID st) @ '' gid='' @ dec (es_GID st),
      ''Generation: '' @ dec (es_Generation st) @ '' (transid '' @ dec (es_TransID st) @ '', seq '' @
        dec (es_Sequence st) @ '')'',
      ''Flags:      0x'' @ nat_str 16 (es_Flags st),
      ''ATime:      '' @ es_ATime st,
      ''MTime:      '' @ es_MTime st,
      ''CTime:      '' @ es_CTime st,
      ''OTime:      '' @ es_BTime st]"

definition print_lines :: "string list \<Rightarrow> world \<Rightarrow> world" where
  "print_lines ls w = foldl (\<lambda>w s. print_line s w) w ls"

definition stat_on ::
    "opener \<Rightarrow> (string \<Rightarrow> ext_stat \<Rightarrow> string list) \<Rightarrow> drv_lib \<Rightarrow> string \<Rightarrow> int \<Rightarrow> string \<Rightarrow> world
     \<Rightarrow> error option \<times> world" where
  "stat_on opn ls lib file partIndex path w =
     with_handle lib (opn file partIndex w)
       (\<lambda>h w. case drvExtendedStat lib h path w of
                Inl e \<Rightarrow> (Some e, w)
              | Inr st \<Rightarrow> (None, print_lines (ls path st) w))"

definition XfsChmodOnImage where "XfsChmodOnImage dmg lib = chmod_on (xfsOpen dmg lib) ''xfs'' lib"
definition XfsChownOnImage where "XfsChownOnImage dmg lib = chown_on (xfsOpen dmg lib) ''xfs'' lib"
definition XfsChtimesOnImage where "XfsChtimesOnImage dmg lib = chtimes_on (xfsOpen dmg lib) ''xfs'' lib"
definition XfsLinkOnImage where "XfsLinkOnImage dmg lib = link_on (xfsOpen dmg lib) ''xfs'' lib"
definition XfsSymlinkOnImage where "XfsSymlinkOnImage dmg lib = symlink_on (xfsOpen dmg lib) ''xfs'' lib"
definition XfsTruncateOnImage where "XfsTruncateOnImage dmg lib = truncate_on (xfsOpen dmg lib) ''xfs'' lib"
definition XfsGetLabelOnImage where "XfsGetLabelOnImage dmg lib = get_label_on (xfsOpen dmg lib) lib"
definition XfsSetLabelOnImage where "XfsSetLabelOnImage dmg lib = set_label_on (xfsOpen dmg lib) ''xfs'' lib"
definition XfsExtendedStatOnImage where "XfsExtendedStatOnImage dmg lib = stat_on (xfsOpen dmg lib) xfs_stat_lines lib"

definition BtrfsChmodOnImage where "BtrfsChmodOnImage dmg lib = chmod_on (btrfsOpen dmg lib) ''btrfs'' lib"
definition BtrfsChownOnImage where "BtrfsChownOnImage dmg lib = chown_on (btrfsOpen dmg lib) ''btrfs'' lib"
definition BtrfsChtimesOnImage where "BtrfsChtimesOnImage dmg lib = chtimes_on (btrfsOpen dmg lib) ''btrfs'' lib"
definition BtrfsLinkOnImage where "BtrfsLinkOnImage dmg lib = link_on (btrfsOpen dmg lib) ''btrfs'' lib"
definition BtrfsSymlinkOnImage where "BtrfsSymlinkOnImage dmg lib = symlink_on (btrfsOpen dmg lib) ''btrfs'' lib"
definition BtrfsTruncateOnImage where "BtrfsTruncateOnImage dmg lib = truncate_on (btrfsOpen dmg lib) ''btrfs'' lib"
definition BtrfsGetLabelOnImage where "BtrfsGetLabelOnImage dmg lib = get_label_on (btrfsOpen dmg lib) lib"
definition BtrfsSetLabelOnImage where "BtrfsSetLabelOnImage dmg lib = set_label_on (btrfsOpen dmg lib) ''btrfs'' lib"
definition BtrfsExtendedStatOnImage where "BtrfsExtendedStatOnImage dmg lib = stat_on (btrfsOpen dmg lib) btrfs_stat_lines lib"

definition BtrfsSetXattrOnImage ::
    "dmg_lib \<Rightarrow> drv_lib \<Rightarrow> string \<Rightarrow> int \<Rightarrow> string \<Rightarrow> string \<Rightarrow> string \<Rightarrow> world \<Rightarrow> error option \<times> world" where
  "BtrfsSetXattrOnImage dmg lib file partIndex path name val w =
     with_handle lib (btrfsOpen dmg lib file partIndex w)
       (\<lambda>h w. report (''btrfs setxattr '' @ name @ '' = '' @ go_quote val @ '' on '' @ path @ '' ok'')
                (drvSetXattr lib h path name (str_bytes val) w))"

definition BtrfsRemoveXattrOnImage ::
    "dmg_lib \<Rightarrow> drv_lib \<Rightarrow> string \<Rightarrow> int \<Rightarrow> string \<Rightarrow> string \<Rightarrow> world \<Rightarrow> error option \<times> world" where
  "BtrfsRemoveXattrOnImage dmg lib file partIndex path name w =
     with_handle lib (btrfsOpen dmg lib file partIndex w)
       (\<lambda>h w. report (''btrfs removexattr '' @ name @ '' on '' @ path @ '' ok'') (drvRemoveXattr lib h path name w))"

text \<open>Growing opens the driver without the check, which the handler of \<open>xfs grow\<close> has made.\<close>

definition grow_on ::
    "FilesystemType \<Rightarrow> drv_lib \<Rightarrow> string list \<Rightarrow> string \<Rightarrow> int \<Rightarrow> string \<Rightarrow> world \<Rightarrow> error option \<times> world" where
  "grow_on fs lib order file partIndex sizeStr w =
     (case exec_parseSize order sizeStr of
        Inl e \<Rightarrow> (Some (Wrap ''invalid size'' e), w)
      | Inr sizeBytes \<Rightarrow>
          with_handle lib
            (case drvOpen lib fs file partIndex w of
               (Inl e, w1) \<Rightarrow> (Inl (Wrap (''open '' @ fs @ '' image'') e), w1)
             | (Inr h, w1) \<Rightarrow> (Inr h, w1))
            (\<lambda>h w. case drvGrowTo lib h sizeBytes w of
                     (Some e, w1) \<Rightarrow> (Some (Wrap (fs @ '' grow failed'') e), w1)
                   | (None, w1) \<Rightarrow>
                       (None, print_line (fs @ '' grown to '' @ exec_humanSize (nat (u64 sizeBytes))) w1)))"

definition XfsGrowFromImage where "XfsGrowFromImage = grow_on FSXfs"
definition ZfsGrowFromImage where "ZfsGrowFromImage = grow_on FSZfs"

section \<open>The labels of ext4, fat32, exfat and ntfs\<close>

definition Ext4GetLabelOnImage where "Ext4GetLabelOnImage dmg lib = get_label_on (ext4OpenLabeller dmg lib) lib"
definition Ext4SetLabelOnImage where "Ext4SetLabelOnImage dmg lib = set_label_on (ext4OpenLabeller dmg lib) ''ext4'' lib"
definition Fat32GetLabelOnImage where "Fat32GetLabelOnImage dmg lib = get_label_on (fat32OpenLabeller dmg lib) lib"
definition Fat32SetLabelOnImage where "Fat32SetLabelOnImage dmg lib = set_label_on (fat32OpenLabeller dmg lib) ''fat32'' lib"
definition ExfatGetLabelOnImage where "ExfatGetLabelOnImage dmg lib = get_label_on (exfatOpenLabeller dmg lib) lib"
definition ExfatSetLabelOnImage where "ExfatSetLabelOnImage dmg lib = set_label_on (exfatOpenLabeller dmg lib) ''exfat'' lib"
definition NtfsGetLabelOnImage where "NtfsGetLabelOnImage dmg lib = get_label_on (ntfsOpenLabeller dmg lib) lib"
definition NtfsSetLabelOnImage where "NtfsSetLabelOnImage dmg lib = set_label_on (ntfsOpenLabeller dmg lib) ''ntfs'' lib"

section \<open>ntfs compact\<close>

definition frag_line :: "string \<Rightarrow> bool \<Rightarrow> frag_stats \<Rightarrow> string" where
  "frag_line pre human s =
     (let num = (\<lambda>n. if human then exec_humanSize n else dec n) in
      pre @ '': files='' @ itoa (fr_Files s) @ '' used='' @ num (fr_Used s) @
      '' free_extents='' @ itoa (fr_FreeExtents s) @ '' total_free='' @ num (fr_TotalFree s) @
      '' largest_free='' @ num (fr_LargestFree s))"

text \<open>The loop that renders the rows and widens the columns.\<close>

fun layout_rows ::
    "bool \<Rightarrow> (string \<times> nat \<times> nat) list \<Rightarrow> nat \<Rightarrow> nat \<Rightarrow> nat \<Rightarrow> (string \<times> string \<times> string) list
     \<Rightarrow> nat \<times> nat \<times> nat \<times> (string \<times> string \<times> string) list" where
  "layout_rows human [] pathW offW sizeW rows = (pathW, offW, sizeW, rows)"
| "layout_rows human ((path, off, sz) # ls) pathW offW sizeW rows =
     (let offStr = (if human then exec_humanSize off else dec off);
          sizeStr = (if human then exec_humanSize sz else dec sz);
          pathW = (if length path > pathW then length path else pathW);
          offW = (if length offStr > offW then length offStr else offW);
          sizeW = (if length sizeStr > sizeW then length sizeStr else sizeW)
      in layout_rows human ls pathW offW sizeW (rows @ [(path, offStr, sizeStr)]))"

definition layout_line :: "nat \<Rightarrow> nat \<Rightarrow> nat \<Rightarrow> string \<times> string \<times> string \<Rightarrow> string" where
  "layout_line pathW offW sizeW r =
     (case r of (p, off, sz) \<Rightarrow> pad_right pathW p @ ''  '' @ pad_left offW off @ ''  '' @ pad_left sizeW sz)"

definition layout_lines :: "bool \<Rightarrow> (string \<times> nat \<times> nat) list \<Rightarrow> string list" where
  "layout_lines human layout =
     (case layout_rows human layout (length ''Path'') (length ''Offset'') (length ''Size'') [] of
        (pathW, offW, sizeW, rows) \<Rightarrow>
          layout_line pathW offW sizeW (''Path'', ''Offset'', ''Size'') # map (layout_line pathW offW sizeW) rows)"

definition compact_report :: "drv_lib \<Rightarrow> string \<Rightarrow> bool \<Rightarrow> bool \<Rightarrow> nat \<Rightarrow> world \<Rightarrow> world" where
  "compact_report lib pre human listFiles h w =
     print_lines (frag_line pre human (drvFragmentationStats lib h w) #
       (if listFiles then layout_lines human (drvLayout lib h w) else [])) w"

definition NtfsCompactFromImage ::
    "drv_lib \<Rightarrow> string \<Rightarrow> int \<Rightarrow> bool \<Rightarrow> bool \<Rightarrow> world \<Rightarrow> error option \<times> world" where
  "NtfsCompactFromImage lib file partIndex human listFiles w =
     with_handle lib
       (case drvOpen lib FSNTFS file partIndex w of
          (Inl e, w1) \<Rightarrow> (Inl (Wrap ''open ntfs image'' e), w1)
        | (Inr h, w1) \<Rightarrow> (Inr h, w1))
       (\<lambda>h w. case drvCompact lib h (compact_report lib ''Before'' human listFiles h w) of
                (Some e, w1) \<Rightarrow> (Some (Wrap ''compact ntfs image'' e), w1)
              | (None, w1) \<Rightarrow>
                  (None, print_line ''compacted'' (compact_report lib ''After'' human listFiles h w1)))"

section \<open>Octal modes\<close>

lemma nat_str_8_digits: "c \<in> set (nat_str 8 n) \<Longrightarrow> \<exists>d < 8. c = digit_char d"
proof (induction n rule: less_induct)
  case (less n)
  show ?case
  proof (cases "n < 8")
    case True
    then show ?thesis using less.prems by (auto simp: nat_str.simps [of 8 n])
  next
    case False
    then have "c \<in> set (nat_str 8 (n div 8)) \<or> c = digit_char (n mod 8)"
      using less.prems by (auto simp: nat_str.simps [of 8 n])
    moreover have "n div 8 < n" "n mod 8 < 8" using False by simp_all
    ultimately show ?thesis using less.IH by blast
  qed
qed

lemma nat_str_nonempty: "nat_str b n \<noteq> []"
  by (subst nat_str.simps) simp

lemma nat_str_8_head: "0 < n \<Longrightarrow> \<exists>d. 0 < d \<and> d < 8 \<and> hd (nat_str 8 n) = digit_char d"
proof (induction n rule: less_induct)
  case (less n)
  show ?case
  proof (cases "n < 8")
    case True
    then show ?thesis using less.prems by (auto simp: nat_str.simps [of 8 n])
  next
    case False
    then have "hd (nat_str 8 n) = hd (nat_str 8 (n div 8))" "0 < n div 8" "n div 8 < n"
      using nat_str_nonempty [of 8 "n div 8"] by (simp_all add: nat_str.simps [of 8 n])
    then show ?thesis using less.IH by simp
  qed
qed

lemma octal_digits:
  "d < 8 \<Longrightarrow> digit_char d \<noteq> CHR ''o'' \<and> digit_char d \<noteq> CHR ''O''"
  "d < 8 \<Longrightarrow> digit_char d = CHR ''0'' \<longleftrightarrow> d = 0"
proof -
  assume "d < 8"
  then have n: "of_char (digit_char d) = 48 + d" by (simp add: digit_char_def)
  show "digit_char d \<noteq> CHR ''o'' \<and> digit_char d \<noteq> CHR ''O''"
    using n \<open>d < 8\<close> by (intro conjI notI) simp_all
next
  assume "d < 8"
  then have n: "of_char (digit_char d) = 48 + d" by (simp add: digit_char_def)
  show "digit_char d = CHR ''0'' \<longleftrightarrow> d = 0"
  proof
    show "digit_char d = CHR ''0'' \<Longrightarrow> d = 0" using n by simp
    show "d = 0 \<Longrightarrow> digit_char d = CHR ''0''" by (simp add: digit_char_def) code_simp
  qed
qed

lemma nat_str_8_no_o: "CHR ''o'' \<notin> set (nat_str 8 n)" "CHR ''O'' \<notin> set (nat_str 8 n)"
  using nat_str_8_digits octal_digits(1) by metis+

lemma nat_str_8_zero: "nat_str 8 0 = ''0''"
  by (simp add: nat_str.simps digit_char_def char_of_def bit_Suc_0_iff)

lemma take_2_no_o: "CHR ''o'' \<notin> set s \<Longrightarrow> CHR ''O'' \<notin> set s \<Longrightarrow> take 2 s \<noteq> c # ''o'' \<and> take 2 s \<noteq> c # ''O''"
  using in_set_takeD [of _ 2 s] by (metis list.set_intros(1) list.set_intros(2))

lemma mask_mode: "n < 4096 \<Longrightarrow> int n AND 0xFFF = int n"
proof -
  assume "n < 4096"
  have "int n AND mask 12 = int n mod 2 ^ 12" by (simp add: take_bit_eq_mask [symmetric] take_bit_eq_mod)
  then show ?thesis using \<open>n < 4096\<close> by (simp add: mask_eq_exp_minus_1)
qed

lemma parseOctalMode_plain:
  assumes "n < 4096"
  shows "parseOctalMode (nat_str 8 n) = Inr (int n)"
proof -
  have p: "parse_uint 8 32 (nat_str 8 n) = Some (int n)"
    using assms by (intro parse_uint_nat_str) simp_all
  have h: "\<not> (length (nat_str 8 n) > 1 \<and> hd (nat_str 8 n) = CHR ''0'')"
  proof (cases "n = 0")
    case False
    then obtain d where "0 < d" "d < 8" "hd (nat_str 8 n) = digit_char d" using nat_str_8_head [of n] by auto
    then show ?thesis using octal_digits(2) [of d] by simp
  qed (simp add: nat_str_8_zero)
  show ?thesis
    using take_2_no_o [of "nat_str 8 n" "CHR ''0''"] nat_str_8_no_o [of n] h
    by (auto simp: parseOctalMode_def Let_def nat_str_nonempty p mask_mode [OF assms])
qed

lemma parseOctalMode_prefixed:
  assumes "n < 4096"
  shows "parseOctalMode (''0'' @ nat_str 8 n) = Inr (int n)"
    and "parseOctalMode (''0o'' @ nat_str 8 n) = Inr (int n)"
    and "parseOctalMode (''0O'' @ nat_str 8 n) = Inr (int n)"
proof -
  have p: "parse_uint 8 32 (nat_str 8 n) = Some (int n)"
    using assms by (intro parse_uint_nat_str) simp_all
  obtain c cs where c: "nat_str 8 n = c # cs" using nat_str_nonempty by (cases "nat_str 8 n") blast+
  have "c \<noteq> CHR ''o''" "c \<noteq> CHR ''O''" using nat_str_8_no_o [of n] c by auto
  then show "parseOctalMode (''0'' @ nat_str 8 n) = Inr (int n)"
    using p by (simp add: parseOctalMode_def Let_def c mask_mode [OF assms])
  show "parseOctalMode (''0o'' @ nat_str 8 n) = Inr (int n)" "parseOctalMode (''0O'' @ nat_str 8 n) = Inr (int n)"
    using p by (simp_all add: parseOctalMode_def Let_def mask_mode [OF assms])
qed

lemma parseOctalMode_range: "parseOctalMode s = Inr m \<Longrightarrow> 0 \<le> m \<and> m < 4096"
proof -
  have r: "0 \<le> x AND 0xFFF \<and> x AND 0xFFF < 4096" for x :: int
  proof -
    have "x AND mask 12 = x mod 2 ^ 12" by (simp add: take_bit_eq_mask [symmetric] take_bit_eq_mod)
    then have "x AND 0xFFF = x mod 4096" by (simp add: mask_eq_exp_minus_1)
    then show ?thesis by simp
  qed
  show "parseOctalMode s = Inr m \<Longrightarrow> 0 \<le> m \<and> m < 4096"
    using r by (auto simp: parseOctalMode_def Let_def split: if_splits option.splits)
qed

section \<open>The layout table\<close>

text \<open>Numbers and sizes are ASCII, so that their bytes are their runes.\<close>

lemma rune_count_append [simp]: "rune_count (s @ t) = rune_count s + rune_count t"
  by (simp add: rune_count_def)

lemma rune_count_blank [simp]: "rune_count (CHR 0x20 # s) = Suc (rune_count s)"
  by (simp add: rune_count_def)

lemma rune_count_le: "rune_count s \<le> length s"
  by (simp add: rune_count_def)

lemma rune_count_replicate [simp]: "rune_count (replicate n (CHR 0x20)) = n"
  by (simp add: rune_count_def filter_replicate)

definition ascii :: "string \<Rightarrow> bool" where
  "ascii s \<longleftrightarrow> (\<forall>c\<in>set s. (of_char c :: nat) < 128)"

lemma ascii_append: "ascii (s @ t) \<longleftrightarrow> ascii s \<and> ascii t"
  by (auto simp: ascii_def)

lemma rune_count_ascii: "ascii s \<Longrightarrow> rune_count s = length s"
  unfolding rune_count_def ascii_def by (subst filter_True) auto

lemma ascii_nat_str: "ascii (nat_str 10 n)"
proof (induction n rule: less_induct)
  case (less n)
  have d: "ascii [digit_char d]" if "d < 10" for d using that by (simp add: ascii_def digit_char_def)
  show ?case
  proof (cases "n < 10")
    case True
    then show ?thesis using d by (subst nat_str.simps) simp
  next
    case False
    then show ?thesis using less.IH [of "n div 10"] d [of "n mod 10"] by (subst nat_str.simps) (simp add: ascii_append)
  qed
qed

lemma ascii_sizes: "ascii (exec_humanSize n)" "ascii (dec n)"
proof -
  have u: "ascii ''T''" "ascii ''G''" "ascii ''M''" "ascii ''K''" "ascii ''.''" by (simp_all add: ascii_def)
  have "ascii (CHR ''.'' # s)" if "ascii s" for s using u(5) ascii_append [of "''.''" s] that by simp
  then show "ascii (exec_humanSize n)" "ascii (dec n)"
    by (simp_all add: exec_humanSize_def fmt_tenths_def dec_def ascii_append ascii_nat_str u)
qed

definition row_fits :: "nat \<Rightarrow> nat \<Rightarrow> nat \<Rightarrow> string \<times> string \<times> string \<Rightarrow> bool" where
  "row_fits a b c r \<longleftrightarrow>
     (case r of (p, x, y) \<Rightarrow> length p \<le> a \<and> length x \<le> b \<and> length y \<le> c \<and> ascii x \<and> ascii y)"

lemma row_fits_mono: "row_fits a b c r \<Longrightarrow> a \<le> a' \<Longrightarrow> b \<le> b' \<Longrightarrow> c \<le> c' \<Longrightarrow> row_fits a' b' c' r"
  by (cases r) (simp add: row_fits_def)

lemma layout_rows_widths:
  "layout_rows human ls a b c rows = (a', b', c', rows') \<Longrightarrow> \<forall>r\<in>set rows. row_fits a b c r \<Longrightarrow>
   a \<le> a' \<and> b \<le> b' \<and> c \<le> c' \<and> length rows' = length rows + length ls \<and> (\<forall>r\<in>set rows'. row_fits a' b' c' r)"
proof (induction ls arbitrary: a b c rows)
  case (Cons l ls)
  obtain p x y where l: "l = (p, x, y)" by (cases l)
  let ?x = "if human then exec_humanSize x else dec x" and ?y = "if human then exec_humanSize y else dec y"
  let ?a = "max a (length p)" and ?b = "max b (length ?x)" and ?c = "max c (length ?y)"
  have m: "(if k > j then k else j) = max j k" for j k :: nat by (simp add: max_def)
  have "layout_rows human ls ?a ?b ?c (rows @ [(p, ?x, ?y)]) = (a', b', c', rows')"
    using Cons.prems(1) unfolding l layout_rows.simps Let_def m .
  moreover have "\<forall>r\<in>set rows. row_fits ?a ?b ?c r"
    using Cons.prems(2) row_fits_mono max.cobounded1 by blast
  moreover have "row_fits ?a ?b ?c (p, ?x, ?y)" by (simp add: row_fits_def ascii_sizes)
  ultimately show ?case using Cons.IH [of ?a ?b ?c "rows @ [(p, ?x, ?y)]"] by auto
qed auto

lemma layout_line_width: "row_fits a b c r \<Longrightarrow> rune_count (layout_line a b c r) = a + b + c + 4"
proof -
  assume fits: "row_fits a b c r"
  obtain p x y where r: "r = (p, x, y)" by (cases r)
  have "rune_count x = length x" "rune_count y = length y" "rune_count p \<le> length p"
    using fits rune_count_ascii rune_count_le by (auto simp: r row_fits_def)
  then show ?thesis using fits by (simp add: r row_fits_def layout_line_def pad_left_def pad_right_def)
qed

section \<open>Properties\<close>

text \<open>C40: \<open>parseOctalMode\<close> reads back every mode of twelve bits that is printed in octal, bare and
  behind each of the prefixes \<open>0\<close>, \<open>0o\<close> and \<open>0O\<close>, and never returns a mode of more than twelve
  bits, whatever it reads.\<close>

theorem octal_modes:
  "(n < 4096 \<longrightarrow> (\<forall>pre\<in>{'''', ''0'', ''0o'', ''0O''}. parseOctalMode (pre @ nat_str 8 n) = Inr (int n))) \<and>
   (\<forall>s m. parseOctalMode s = Inr m \<longrightarrow> 0 \<le> m \<and> m < 4096)"
  using parseOctalMode_plain [of n] parseOctalMode_prefixed [of n] parseOctalMode_range by simp

theorem octal_modes_witness:
  "parseOctalMode (''0o'' @ nat_str 8 493) = Inr 493 \<and> nat_str 8 493 = ''755''"
proof -
  have "nat_str 8 493 = ''755''" by code_simp
  then show ?thesis using octal_modes [of 493] by simp
qed

text \<open>The table of file layouts that \<open>ntfs compact\<close> prints is aligned: its lines, the heading
  included, one for each file, all have the same number of runes.\<close>

lemma layout_lines_aligned:
  "length (layout_lines human layout) = length layout + 1 \<and>
   (\<forall>s\<in>set (layout_lines human layout). \<forall>t\<in>set (layout_lines human layout). rune_count s = rune_count t)"
proof -
  obtain a b c rows where r: "layout_rows human layout 4 6 4 [] = (a, b, c, rows)"
    by (metis prod_cases4)
  from layout_rows_widths [OF r] have w: "4 \<le> a" "6 \<le> b" "4 \<le> c" "length rows = length layout"
    "\<forall>r\<in>set rows. row_fits a b c r" by auto
  have head: "row_fits a b c (''Path'', ''Offset'', ''Size'')" using w by (simp add: row_fits_def ascii_def)
  have ls: "layout_lines human layout =
      layout_line a b c (''Path'', ''Offset'', ''Size'') # map (layout_line a b c) rows"
  proof -
    have l: "length ''Path'' = 4" "length ''Offset'' = 6" "length ''Size'' = 4" by simp_all
    show ?thesis unfolding layout_lines_def l r by simp
  qed
  have "rune_count s = a + b + c + 4" if "s \<in> set (layout_lines human layout)" for s
    using that w(5) head layout_line_width unfolding ls by auto
  then show ?thesis using w(4) unfolding ls by simp
qed

section \<open>Images of another file system\<close>

text \<open>A command that refuses ends with an error, in the world it found or the one after the detection.\<close>

definition refuses :: "world \<Rightarrow> world \<Rightarrow> error option \<times> world \<Rightarrow> bool" where
  "refuses w w1 r \<longleftrightarrow> fst r \<noteq> None \<and> snd r \<in> {w, w1}"

named_theorems refusal

lemma refuses_error [refusal]: "refuses w w1 (Some e, w)" "refuses w w1 (Some e, w1)"
  by (simp_all add: refuses_def)

lemma refuses_if: "refuses w w1 x \<Longrightarrow> refuses w w1 y \<Longrightarrow> refuses w w1 (if b then x else y)"
  by simp

lemma refuses_with_handle [refusal]: "refuses w w1 (with_handle lib (Inl e, w1) body)"
  by (simp add: with_handle_def refusal)

text \<open>Detection fails or finds another file system than \<open>fs\<close>, and leaves the world \<open>w1\<close>.\<close>

definition other_fs :: "dmg_lib \<Rightarrow> FilesystemType \<Rightarrow> string \<Rightarrow> int \<Rightarrow> world \<Rightarrow> world \<Rightarrow> bool" where
  "other_fs dmg fs path part w w1 \<longleftrightarrow>
     (\<exists>r. DetectFilesystem dmg path part w = (r, w1) \<and> r \<noteq> Inr fs)"

text \<open>What the operations need of an opener: it opens nothing on such an image.\<close>

locale checked_opener =
  fixes dmg :: dmg_lib and fs :: FilesystemType and opn :: opener
  assumes opens_no_other: "other_fs dmg fs path part w w1 \<Longrightarrow> \<exists>e. opn path part w = (Inl e, w1)"
begin

lemma refuses_body: "other_fs dmg fs path part w w1 \<Longrightarrow> refuses w w1 (with_handle lib (opn path part w) body)"
  using opens_no_other [of path part w w1] by (auto intro: refusal)

lemma refusals:
  assumes "other_fs dmg fs path part w w1"
  shows "refuses w w1 (chmod_on opn nm lib path part m p w)" "refuses w w1 (chown_on opn nm lib path part u g p w)"
    "refuses w w1 (chtimes_on opn nm lib path part t1 t2 p w)" "refuses w w1 (link_on opn nm lib path part p q w)"
    "refuses w w1 (symlink_on opn nm lib path part p q w)" "refuses w w1 (truncate_on opn nm lib ord path part s p w)"
    "refuses w w1 (get_label_on opn lib path part w)" "refuses w w1 (set_label_on opn nm lib path part l w)"
    "refuses w w1 (stat_on opn ls lib path part p w)" "refuses w w1 (with_handle lib (opn path part w) body)"
  unfolding chmod_on_def chown_on_def chtimes_on_def link_on_def symlink_on_def truncate_on_def get_label_on_def
    set_label_on_def stat_on_def
  using refuses_body [OF assms] by (auto intro: refusal split: sum.split option.split)

end

lemma typed_open_other:
  "other_fs dmg fs path part w w1 \<Longrightarrow> \<exists>e. typed_open dmg lib fs path part w = (Inl e, w1)"
  by (auto simp: other_fs_def typed_open_def split: sum.splits)

lemma open_labeller_other:
  "other_fs dmg fs path part w w1 \<Longrightarrow> \<exists>e. open_labeller dmg lib fs path part w = (Inl e, w1)"
  using typed_open_other [of dmg fs path part w w1 lib] by (auto simp: open_labeller_def)

interpretation xfs: checked_opener dmg FSXfs "xfsOpen dmg lib" for dmg lib
  by unfold_locales (simp add: xfsOpen_def typed_open_other)

interpretation btrfs: checked_opener dmg FSBtrfs "btrfsOpen dmg lib" for dmg lib
  by unfold_locales (simp add: btrfsOpen_def typed_open_other)

interpretation ext4: checked_opener dmg FSExt4 "ext4OpenLabeller dmg lib" for dmg lib
  by unfold_locales (simp add: ext4OpenLabeller_def open_labeller_other)

interpretation fat32: checked_opener dmg FSFat32 "fat32OpenLabeller dmg lib" for dmg lib
  by unfold_locales (simp add: fat32OpenLabeller_def open_labeller_other)

interpretation exfat: checked_opener dmg FSExFAT "exfatOpenLabeller dmg lib" for dmg lib
  by unfold_locales (simp add: exfatOpenLabeller_def open_labeller_other)

interpretation ntfs: checked_opener dmg FSNTFS "ntfsOpenLabeller dmg lib" for dmg lib
  by unfold_locales (simp add: ntfsOpenLabeller_def open_labeller_other)

end
