(* ===== verification/Zfs_Commands.thy ===== *)
theory Zfs_Commands
  imports Driver_Commands
begin

text \<open>
  exec_cmd_zfs.go: the commands of zpool and zfs on an image, with the parser of the label's
  name-value list. An opened pool is a file system of the common interface (\<open>fs_lib\<close>) with the
  offset of its partition and the position of its label.
\<close>

section \<open>The pool\<close>

record zfs_lib =
  zOpen :: "string \<Rightarrow> int \<Rightarrow> world \<Rightarrow> (error + nat) \<times> world"
  zLabelOffset :: "nat \<Rightarrow> int \<Rightarrow> int"
  zPartitionOffset :: "nat \<Rightarrow> world \<Rightarrow> int"
  zFS :: fs_lib

section \<open>The name-value list of a label\<close>

definition parseNVPair :: "bytes \<Rightarrow> (string \<times> string) option" where
  "parseNVPair pair =
     (if length pair < 4 then None
      else
        (let nameLen = nat (be_val (chunk 0 4 pair));
             nameStart = 4
         in if nameStart + nameLen > length pair then None
            else
              (let nameBytes = chunk nameStart nameLen pair;
                   nameBytes = (if length nameBytes > 0 \<and> last nameBytes = 0 then butlast nameBytes else nameBytes);
                   name = bytes_str nameBytes;
                   pad = (4 - nameLen mod 4) mod 4;
                   typeOff = nameStart + nameLen + pad
               in if typeOff + 8 > length pair then None
                  else
                    (let typ = be_val (chunk typeOff 4 pair);
                         nelem = be_val (chunk (typeOff + 4) 4 pair);
                         dataOff = typeOff + 8
                     in if typ = 14 then
                          (if dataOff + 4 > length pair then None
                           else
                             (let strLen = nat (be_val (chunk dataOff 4 pair))
                              in if dataOff + 4 + strLen > length pair then None
                                 else Some (name, bytes_str (chunk (dataOff + 4) strLen pair))))
                        else if typ = 11 then
                          (if nelem \<ge> 1 \<and> dataOff + 8 \<le> length pair then
                             Some (name, dec (nat (be_val (chunk dataOff 8 pair))))
                           else None)
                        else None))))"

function nv_loop :: "bytes \<Rightarrow> nat \<Rightarrow> (string \<Rightarrow> string option) \<Rightarrow> string \<Rightarrow> string option" where
  "nv_loop b off res =
     (if off + 8 > length b then res
      else
        (let encoded = be_val (chunk off 4 b) in
         if encoded = 0 then res
         else
           (let pairLen = encoded - 8 in
            if pairLen \<le> 0 \<or> int off + 8 + pairLen > int (length b) then res
            else
              (let pair = chunk (off + 8) (nat pairLen) b;
                   res = (case parseNVPair pair of Some (name, val) \<Rightarrow> res(name \<mapsto> val) | None \<Rightarrow> res)
               in nv_loop b (off + 8 + nat pairLen) res))))"
  by pat_completeness auto
termination by (relation "measure (\<lambda>(b, off, res). length b - off)") auto

declare nv_loop.simps [simp del]

definition parseLabelNVList :: "bytes \<Rightarrow> error + (string \<Rightarrow> string option)" where
  "parseLabelNVList b =
     (if length b < 16 then Inl (Msg ''nvlist too short'') else Inr (nv_loop b 16 Map.empty))"

text \<open>The same block at the start of five commands: the pool's name in the label, or the file's.\<close>

definition pool_name :: "zfs_lib \<Rightarrow> string \<Rightarrow> nat \<Rightarrow> world \<Rightarrow> string" where
  "pool_name lib file h w =
     (let name =
        (case sys_open file w of
           Some e \<Rightarrow> ''''
         | None \<Rightarrow>
             (let labelOff = zLabelOffset lib h (zPartitionOffset lib h w);
                  nvOff = 4 * 1024;
                  (buf, rerr) = sys_read_at file w (i64 (labelOff + nvOff)) (112 * 1024)
              in if rerr = None \<or> length buf > 0 then
                   (case parseLabelNVList buf of
                      Inl e \<Rightarrow> ''''
                    | Inr m \<Rightarrow> (case m ''name'' of Some name \<Rightarrow> name | None \<Rightarrow> ''''))
                 else ''''))
      in if name = '''' then path_base file else name)"

section \<open>The space in use\<close>

text \<open>
  The two walks of the source, which add to a variable of the enclosing function, so that the
  sum up to an error stays. \<open>None\<close> is a walk that has not ended within its fuel.
\<close>

function zfs_walk :: "fs_lib \<Rightarrow> nat \<Rightarrow> world \<Rightarrow> nat \<Rightarrow> string \<Rightarrow> int \<Rightarrow> (error option \<times> int) option" and
  zfs_loop :: "fs_lib \<Rightarrow> nat \<Rightarrow> world \<Rightarrow> nat \<Rightarrow> string \<Rightarrow> dir_entry list \<Rightarrow> int \<Rightarrow> (error option \<times> int) option" where
  "zfs_walk lib h w 0 p tot = None"
| "zfs_walk lib h w (Suc fuel) p tot =
     (case fsListDir lib h p w of
        Inl e \<Rightarrow> Some (Some e, tot)
      | Inr entries \<Rightarrow> zfs_loop lib h w fuel p entries tot)"
| "zfs_loop lib h w fuel p [] tot = Some (None, tot)"
| "zfs_loop lib h w fuel p (e # es) tot =
     (let name = de_Name e;
          np = (if p = ''/'' then ''/'' @ name else path_join [p, name])
      in if de_FileType e = 4 then
           (case zfs_walk lib h w fuel np tot of
              None \<Rightarrow> None
            | Some (Some err, t) \<Rightarrow> Some (Some err, t)
            | Some (None, t) \<Rightarrow> zfs_loop lib h w fuel p es t)
         else
           (case fsStat lib h np w of
              Inl err \<Rightarrow> zfs_loop lib h w fuel p es tot
            | Inr st \<Rightarrow> zfs_loop lib h w fuel p es (u64 (tot + st_Size st))))"
  by pat_completeness auto
termination
  by (relation "measures
       [\<lambda>x. case x of Inl (l, h, w, fuel, p, t) \<Rightarrow> 2 * fuel | Inr (l, h, w, fuel, p, es, t) \<Rightarrow> 2 * fuel + 1,
        \<lambda>x. case x of Inl y \<Rightarrow> 0 | Inr (l, h, w, fuel, p, es, t) \<Rightarrow> length es]") auto

declare zfs_walk.simps [simp del] zfs_loop.simps [simp del]

definition computeUsed :: "fs_lib \<Rightarrow> nat \<Rightarrow> nat \<Rightarrow> world \<Rightarrow> (error option \<times> int) option" where
  "computeUsed lib fuel h w = zfs_walk lib h w fuel ''/'' 0"

function zfs_walk_at ::
    "fs_lib \<Rightarrow> nat \<Rightarrow> world \<Rightarrow> nat \<Rightarrow> string \<Rightarrow> string set \<Rightarrow> int \<Rightarrow> (error option \<times> string set \<times> int) option" and
  zfs_loop_at ::
    "fs_lib \<Rightarrow> nat \<Rightarrow> world \<Rightarrow> nat \<Rightarrow> string \<Rightarrow> dir_entry list \<Rightarrow> string set \<Rightarrow> int
     \<Rightarrow> (error option \<times> string set \<times> int) option" where
  "zfs_walk_at lib h w 0 p visited tot = None"
| "zfs_walk_at lib h w (Suc fuel) p visited tot =
     (if p \<in> visited then Some (None, visited, tot)
      else
        (case fsListDir lib h p w of
           Inl e \<Rightarrow> Some (Some e, insert p visited, tot)
         | Inr entries \<Rightarrow> zfs_loop_at lib h w fuel p entries (insert p visited) tot))"
| "zfs_loop_at lib h w fuel p [] visited tot = Some (None, visited, tot)"
| "zfs_loop_at lib h w fuel p (e # es) visited tot =
     (let name = de_Name e;
          np = (if p = ''/'' then ''/'' @ name else path_join [p, name])
      in if de_FileType e = 4 then
           (case zfs_walk_at lib h w fuel np visited tot of
              None \<Rightarrow> None
            | Some (Some err, v, t) \<Rightarrow> Some (Some err, v, t)
            | Some (None, v, t) \<Rightarrow> zfs_loop_at lib h w fuel p es v t)
         else
           (case fsStat lib h np w of
              Inl err \<Rightarrow> zfs_loop_at lib h w fuel p es visited tot
            | Inr st \<Rightarrow> zfs_loop_at lib h w fuel p es visited (u64 (tot + st_Size st))))"
  by pat_completeness auto
termination
  by (relation "measures
       [\<lambda>x. case x of Inl (l, h, w, fuel, p, v, t) \<Rightarrow> 2 * fuel | Inr (l, h, w, fuel, p, es, v, t) \<Rightarrow> 2 * fuel + 1,
        \<lambda>x. case x of Inl y \<Rightarrow> 0 | Inr (l, h, w, fuel, p, es, v, t) \<Rightarrow> length es]") auto

declare zfs_walk_at.simps [simp del] zfs_loop_at.simps [simp del]

definition computeUsedAt :: "fs_lib \<Rightarrow> nat \<Rightarrow> nat \<Rightarrow> string \<Rightarrow> world \<Rightarrow> (error option \<times> int) option" where
  "computeUsedAt lib fuel h startPath w =
     map_option (\<lambda>(e, v, t). (e, t)) (zfs_walk_at lib h w fuel startPath {} 0)"

text \<open>What is left of the image beside the space in use; 0 when the image cannot be examined.\<close>

definition avail_of :: "string \<Rightarrow> int \<Rightarrow> world \<Rightarrow> int" where
  "avail_of file used w =
     (case sys_stat_size file w of
        Inl e \<Rightarrow> 0
      | Inr sz \<Rightarrow> (let tot = u64 sz in if tot > used then u64 (tot - used) else 0))"

section \<open>Commands\<close>

definition ZpoolStatusFromImage :: "zfs_lib \<Rightarrow> string \<Rightarrow> int \<Rightarrow> world \<Rightarrow> error option \<times> world" where
  "ZpoolStatusFromImage lib file partIndex w =
     (case zOpen lib file partIndex w of
        (Inl e, w1) \<Rightarrow> (Some e, w1)
      | (Inr h, w1) \<Rightarrow>
          (let poolName = pool_name lib file h w1;
               nl = [CHR 0x0A];
               w2 = print_lines
                 [''pool: '' @ poolName, '' state: ONLINE'', ''  scan: none requested'', ''config:'',
                  nl @ ''    NAME'' @ tab @ ''STATE'' @ tab @ ''READ'' @ tab @ ''WRITE'' @ tab @ ''CKSUM'',
                  tab @ poolName @ tab @ ''ONLINE'' @ tab @ ''0'' @ tab @ ''0'' @ tab @ ''0'',
                  tab @ tab @ file @ tab @ ''ONLINE'' @ tab @ ''0'' @ tab @ ''0'' @ tab @ ''0'',
                  nl @ ''errors: No known data errors''] w1
           in (None, snd (fsClose (zFS lib) h w2))))"

text \<open>The errors of the walks are dropped; the sum up to them is used.\<close>

definition ZfsListFromImage ::
    "zfs_lib \<Rightarrow> nat \<Rightarrow> string \<Rightarrow> int \<Rightarrow> world \<Rightarrow> (error option \<times> world) option" where
  "ZfsListFromImage lib fuel file partIndex w =
     (case zOpen lib file partIndex w of
        (Inl e, w1) \<Rightarrow> Some (Some e, w1)
      | (Inr h, w1) \<Rightarrow>
          (let poolName = pool_name lib file h w1 in
           case computeUsed (zFS lib) fuel h w1 of
             None \<Rightarrow> None
           | Some (err, used) \<Rightarrow>
               (let avail = avail_of file used w1;
                    w2 = print_lines
                      [''NAME'' @ tab @ ''USED'' @ tab @ ''AVAIL'' @ tab @ ''REFER'' @ tab @ ''MOUNTPOINT'',
                       poolName @ tab @ exec_humanSize (nat used) @ tab @ exec_humanSize (nat avail) @ tab @
                         exec_humanSize (nat used) @ tab @ ''-''] w1
                in Some (None, snd (fsClose (zFS lib) h w2)))))"

definition dataset_path :: "string \<Rightarrow> string \<Rightarrow> string" where
  "dataset_path poolName dataset =
     (if dataset = poolName then ''/''
      else if has_prefix dataset (poolName @ ''/'') then ''/'' @ trim_prefix dataset (poolName @ ''/'')
      else if contains_str dataset ''/'' then ''/'' @ split_n2 (CHR ''/'') dataset ! 1
      else ''/'' @ dataset)"

definition ZfsGetQuotaFromImage ::
    "zfs_lib \<Rightarrow> nat \<Rightarrow> string \<Rightarrow> int \<Rightarrow> string \<Rightarrow> world \<Rightarrow> (error option \<times> world) option" where
  "ZfsGetQuotaFromImage lib fuel file partIndex dataset w =
     (case zOpen lib file partIndex w of
        (Inl e, w1) \<Rightarrow> Some (Some e, w1)
      | (Inr h, w1) \<Rightarrow>
          (let startPath = dataset_path (pool_name lib file h w1) dataset in
           case computeUsedAt (zFS lib) fuel h startPath w1 of
             None \<Rightarrow> None
           | Some (err, used) \<Rightarrow>
               (let avail = avail_of file used w1;
                    w2 = print_lines
                      [''NAME'' @ tab @ ''USED'' @ tab @ ''QUOTA'' @ tab @ ''AVAIL'',
                       dataset @ tab @ exec_humanSize (nat used) @ tab @ ''-'' @ tab @ tab @
                         exec_humanSize (nat avail)] w1
                in Some (None, snd (fsClose (zFS lib) h w2)))))"

definition ZfsSetQuotaFromImage ::
    "zfs_lib \<Rightarrow> string \<Rightarrow> int \<Rightarrow> string \<Rightarrow> string \<Rightarrow> world \<Rightarrow> error option \<times> world" where
  "ZfsSetQuotaFromImage lib file partIndex dataset quota w =
     (case zOpen lib file partIndex w of
        (Inl e, w1) \<Rightarrow> (Some e, w1)
      | (Inr h, w1) \<Rightarrow>
          (let startPath = dataset_path (pool_name lib file h w1) dataset in
           case fsStat (zFS lib) h startPath w1 of
             Inl e \<Rightarrow> (Some (Wrap ''zfs set quota: dataset not found'' e), snd (fsClose (zFS lib) h w1))
           | Inr st \<Rightarrow>
               (None, snd (fsClose (zFS lib) h (print_line (''set quota '' @ dataset @ ''='' @ quota) w1)))))"

text \<open>The loop of \<open>ZfsCreateFromImage\<close>: \<open>segs\<close> are the segments before the current one.\<close>

fun zfs_dirs_loop :: "fs_lib \<Rightarrow> nat \<Rightarrow> string list \<Rightarrow> string list \<Rightarrow> world \<Rightarrow> error option \<times> world" where
  "zfs_dirs_loop lib h segs [] w = (None, w)"
| "zfs_dirs_loop lib h segs (s # rest) w =
     (let cur = ''/'' @ join_with ''/'' (segs @ [s]) in
      case fsStat lib h cur w of
        Inr st \<Rightarrow> zfs_dirs_loop lib h (segs @ [s]) rest w
      | Inl e \<Rightarrow>
          (case fsMkDir lib h cur 493 w of
             (Some e, w1) \<Rightarrow> (Some (Wrap ''zfs create: mkdir'' e), w1)
           | (None, w1) \<Rightarrow> zfs_dirs_loop lib h (segs @ [s]) rest w1))"

definition zfs_create_dirs :: "fs_lib \<Rightarrow> nat \<Rightarrow> string \<Rightarrow> string \<Rightarrow> world \<Rightarrow> error option \<times> world" where
  "zfs_create_dirs lib h poolName dataset w =
     (if trim_space dataset = '''' then (Some (Msg ''zfs create: dataset name required''), w)
      else if contains_str dataset ''/'' \<and> split_n2 (CHR ''/'') dataset ! 0 \<noteq> poolName then
        (Some (Msg ''zfs create: pool mismatch''), w)
      else
        (let dsPath = (if contains_str dataset ''/'' then ''/'' @ split_n2 (CHR ''/'') dataset ! 1
                       else ''/'' @ dataset);
             clean = trim_func (\<lambda>c. c = CHR ''/'') dsPath
         in if clean = '''' then (Some (Msg ''zfs create: cannot create root dataset''), w)
            else zfs_dirs_loop lib h [] (split_on (CHR ''/'') clean) w))"

definition ZfsCreateFromImage ::
    "zfs_lib \<Rightarrow> string \<Rightarrow> int \<Rightarrow> string \<Rightarrow> world \<Rightarrow> error option \<times> world" where
  "ZfsCreateFromImage lib file partIndex dataset w =
     (case zOpen lib file partIndex w of
        (Inl e, w1) \<Rightarrow> (Some e, w1)
      | (Inr h, w1) \<Rightarrow>
          (case zfs_create_dirs (zFS lib) h (pool_name lib file h w1) dataset w1 of
             (Some e, w2) \<Rightarrow> (Some e, snd (fsClose (zFS lib) h w2))
           | (None, w2) \<Rightarrow>
               (None, snd (fsClose (zFS lib) h (print_line (''created dataset '' @ dataset) w2)))))"

section \<open>Writing a label\<close>

text \<open>The encoder that \<open>parseLabelNVList\<close> is meant to undo: XDR, four bytes at a time.\<close>

datatype nv_value = NvString string | NvUint nat

definition nv_pad :: "nat \<Rightarrow> nat" where
  "nv_pad n = (4 - n mod 4) mod 4"

definition nv_name :: "string \<Rightarrow> bytes" where
  "nv_name n = be_bytes 4 (int (length n)) @ str_bytes n @ replicate (nv_pad (length n)) 0"

primrec nv_data :: "nv_value \<Rightarrow> bytes" where
  "nv_data (NvString s) =
     be_bytes 4 14 @ be_bytes 4 1 @ be_bytes 4 (int (length s)) @ str_bytes s @ replicate (nv_pad (length s)) 0"
| "nv_data (NvUint v) = be_bytes 4 11 @ be_bytes 4 1 @ be_bytes 8 (int v)"

definition nv_pair :: "string \<times> nv_value \<Rightarrow> bytes" where
  "nv_pair e = nv_name (fst e) @ nv_data (snd e)"

definition nv_entry :: "string \<times> nv_value \<Rightarrow> bytes" where
  "nv_entry e =
     be_bytes 4 (8 + int (length (nv_pair e))) @ be_bytes 4 (8 + int (length (nv_pair e))) @ nv_pair e"

primrec nv_text :: "nv_value \<Rightarrow> string" where
  "nv_text (NvString s) = s"
| "nv_text (NvUint v) = dec v"

primrec nv_ok :: "nv_value \<Rightarrow> bool" where
  "nv_ok (NvString s) = (length s < 2 ^ 16)"
| "nv_ok (NvUint v) = (v < 2 ^ 64)"

definition nv_entry_ok :: "string \<times> nv_value \<Rightarrow> bool" where
  "nv_entry_ok e \<longleftrightarrow> length (fst e) < 2 ^ 16 \<and> (fst e \<noteq> [] \<longrightarrow> last (fst e) \<noteq> CHR 0x00) \<and> nv_ok (snd e)"

lemma chunk_mid: "length a = i \<Longrightarrow> length x = n \<Longrightarrow> chunk i n (a @ x @ r) = x"
  by (simp add: chunk_def)

lemma chunk_head: "length x = n \<Longrightarrow> chunk 0 n (x @ r) = x"
  by (simp add: chunk_def)

lemma chunk_skip: "length a \<le> i \<Longrightarrow> chunk i n (a @ r) = chunk (i - length a) n r"
  by (simp add: chunk_def)

lemma nv_pad_bound: "nv_pad n \<le> 3"
proof -
  have "(4 - n mod 4) mod 4 < (4::nat)" by simp
  then show ?thesis unfolding nv_pad_def by linarith
qed

lemma length_nv_name: "length (nv_name n) = 4 + length n + nv_pad (length n)"
  by (simp add: nv_name_def)

lemma byte_of_0: "byte_of c = 0 \<Longrightarrow> c = CHR 0x00"
proof -
  assume "byte_of c = 0"
  then have "str_bytes [c] = str_bytes [CHR 0x00]" by (simp add: str_bytes_def byte_of_def)
  then show ?thesis by (simp add: str_bytes_inj)
qed

lemma strip_name:
  assumes "n \<noteq> [] \<longrightarrow> last n \<noteq> CHR 0x00"
  shows "(if length (str_bytes n) > 0 \<and> last (str_bytes n) = 0 then butlast (str_bytes n) else str_bytes n) = str_bytes n"
proof -
  have "n \<noteq> [] \<Longrightarrow> last (str_bytes n) = byte_of (last n)" by (simp add: str_bytes_def last_map)
  then show ?thesis using assms byte_of_0 by (cases "n = []") auto
qed

lemma be4_small: "n < 2 ^ 32 \<Longrightarrow> be_val (be_bytes 4 (int n)) = int n"
  by (simp add: be_val_be_bytes)

lemma parse_named:
  assumes "nv_entry_ok (n, v)"
  shows "nat (be_val (chunk 0 4 (nv_name n @ d))) = length n"
    and "chunk 4 (length n) (nv_name n @ d) = str_bytes n"
    and "chunk (4 + length n + nv_pad (length n) + i) k (nv_name n @ d) = chunk i k d"
proof -
  have "length n < 2 ^ 32" using assms by (simp add: nv_entry_ok_def)
  then show "nat (be_val (chunk 0 4 (nv_name n @ d))) = length n"
    by (simp add: nv_name_def chunk_head be4_small)
  show "chunk 4 (length n) (nv_name n @ d) = str_bytes n"
    unfolding nv_name_def append_assoc by (rule chunk_mid) simp_all
  show "chunk (4 + length n + nv_pad (length n) + i) k (nv_name n @ d) = chunk i k d"
    by (subst chunk_skip) (simp_all add: length_nv_name)
qed

lemma parseNVPair_entry:
  assumes "nv_entry_ok (n, v)"
  shows "parseNVPair (nv_pair (n, v)) = Some (n, nv_text v)"
proof -
  let ?d = "nv_data v" and ?o = "4 + length n + nv_pad (length n)"
  have name: "n \<noteq> [] \<longrightarrow> last n \<noteq> CHR 0x00" using assms by (simp add: nv_entry_ok_def)
  have d8: "12 \<le> length ?d" by (cases v) simp_all
  have c: "chunk ?o 4 (nv_name n @ ?d) = chunk 0 4 ?d" "chunk (?o + 4) 4 (nv_name n @ ?d) = chunk 4 4 ?d"
      "chunk (?o + 8) k (nv_name n @ ?d) = chunk 8 k ?d" "chunk (?o + 8 + 4) k (nv_name n @ ?d) = chunk 12 k ?d" for k
  proof -
    note s = parse_named(3) [OF assms]
    have "?o + 8 + 4 = ?o + 12" by simp
    then show "chunk (?o + 8 + 4) k (nv_name n @ ?d) = chunk 12 k ?d" by (simp only: s)
    show "chunk ?o 4 (nv_name n @ ?d) = chunk 0 4 ?d" using s [of 0] by simp
  qed (rule parse_named(3) [OF assms])+
  have l: "length (nv_name n @ ?d) = ?o + length ?d" by (simp add: length_nv_name)
  have body: "parseNVPair (nv_pair (n, v)) =
      (let typ = be_val (chunk 0 4 ?d); nelem = be_val (chunk 4 4 ?d) in
       if typ = 14 then
         (if 12 > length ?d then None
          else (let strLen = nat (be_val (chunk 8 4 ?d))
                in if 12 + strLen > length ?d then None else Some (n, bytes_str (chunk 12 strLen ?d))))
       else if typ = 11 then
         (if nelem \<ge> 1 \<and> 16 \<le> length ?d then Some (n, dec (nat (be_val (chunk 8 8 ?d)))) else None)
       else None)"
    unfolding parseNVPair_def nv_pair_def fst_conv snd_conv Let_def parse_named(1,2) [OF assms] strip_name [OF name]
      bytes_str_str_bytes nv_pad_def [symmetric] c l
    using d8 by simp
  show ?thesis
  proof (cases v)
    case (NvString s)
    then have "length s < 2 ^ 32" using assms by (simp add: nv_entry_ok_def)
    then have "chunk 0 4 ?d = be_bytes 4 14" "chunk 8 4 ?d = be_bytes 4 (int (length s))"
      "chunk 12 (length s) ?d = str_bytes s" "be_val (be_bytes 4 (int (length s))) = int (length s)"
      by (simp_all add: NvString chunk_def be4_small)
    then show ?thesis unfolding body by (simp add: NvString be_val_be_bytes)
  next
    case (NvUint k)
    then have "k < 2 ^ 64" using assms by (simp add: nv_entry_ok_def)
    then have "be_val (be_bytes 8 (int k)) = int k" by (simp add: be_val_be_bytes)
    moreover have "chunk 0 4 ?d = be_bytes 4 11" "chunk 4 4 ?d = be_bytes 4 1" "chunk 8 8 ?d = be_bytes 8 (int k)"
      by (simp_all add: NvUint chunk_def)
    ultimately show ?thesis unfolding body by (simp add: NvUint be_val_be_bytes)
  qed
qed

lemma nv_loop_stop:
  "chunk off 4 b = be_bytes 4 0 \<Longrightarrow> nv_loop b off res = res"
  by (subst nv_loop.simps) (simp add: be_val_be_bytes)

lemma nv_loop_entry:
  assumes "nv_entry_ok e" and "b = pre @ nv_entry e @ post"
  shows "nv_loop b (length pre) res = nv_loop b (length (pre @ nv_entry e)) (res(fst e \<mapsto> nv_text (snd e)))"
proof -
  obtain n v where e: "e = (n, v)" by (cases e)
  let ?p = "nv_pair e" and ?L = "be_bytes 4 (8 + int (length (nv_pair e)))"
  have small: "length ?p < 2 ^ 20"
    using assms(1) nv_pad_bound [of "length n"] nv_pad_bound [of "length (case v of NvString s \<Rightarrow> s | NvUint k \<Rightarrow> [])"]
    by (cases v) (auto simp: e nv_pair_def length_nv_name nv_entry_ok_def)
  have pos: "0 < length ?p" by (simp add: nv_pair_def length_nv_name)
  have enc: "be_val ?L = 8 + int (length ?p)"
    using small be4_small [of "8 + length ?p"] by simp
  have b: "b = pre @ ?L @ ?L @ ?p @ post" using assms(2) by (simp add: nv_entry_def)
  have c1: "chunk (length pre) 4 b = ?L" unfolding b by (rule chunk_mid) simp_all
  have c2: "chunk (length pre + 8) (length ?p) b = ?p"
    using chunk_mid [of "pre @ ?L @ ?L" "length pre + 8" ?p "length ?p" post] b by simp
  have lb: "length b = length pre + 8 + length ?p + length post" unfolding b by simp
  have parse: "parseNVPair ?p = Some (n, nv_text v)" unfolding e by (rule parseNVPair_entry) (use assms(1) e in simp)
  have "nv_loop b (length pre) res = nv_loop b (length pre + 8 + length ?p) (res(n \<mapsto> nv_text v))"
    by (subst nv_loop.simps) (use lb pos in \<open>simp add: c1 c2 enc parse Let_def\<close>)
  then show ?thesis by (simp add: e nv_entry_def add.assoc)
qed

lemma nv_loop_entries:
  assumes "\<forall>e\<in>set es. nv_entry_ok e"
  shows "nv_loop (pre @ concat (map nv_entry es) @ be_bytes 4 0 @ rest) (length pre) res =
    res ++ map_of (rev (map (\<lambda>(n, v). (n, nv_text v)) es))"
  using assms
proof (induction es arbitrary: pre res)
  case Nil
  have "chunk (length pre) 4 (pre @ be_bytes 4 0 @ rest) = be_bytes 4 0" by (rule chunk_mid) simp_all
  then show ?case by (simp add: nv_loop_stop)
next
  case (Cons e es)
  let ?b = "pre @ concat (map nv_entry (e # es)) @ be_bytes 4 0 @ rest"
  have "nv_loop ?b (length pre) res = nv_loop ?b (length (pre @ nv_entry e)) (res(fst e \<mapsto> nv_text (snd e)))"
    by (rule nv_loop_entry [where post = "concat (map nv_entry es) @ be_bytes 4 0 @ rest"]) (use Cons.prems in simp_all)
  also have "\<dots> = res(fst e \<mapsto> nv_text (snd e)) ++ map_of (rev (map (\<lambda>(n, v). (n, nv_text v)) es))"
    using Cons.IH [of "pre @ nv_entry e"] Cons.prems by simp
  also have "\<dots> = res ++ map_of (rev (map (\<lambda>(n, v). (n, nv_text v)) (e # es)))"
    by (cases e) (simp add: map_add_def fun_eq_iff split: option.splits)
  finally show ?case .
qed

section \<open>The walks on a finite tree\<close>

text \<open>A pool that holds the tree \<open>t\<close>; directories are listed with the type 4, files with their size.\<close>

fun zfs_entry :: "string \<times> fs_tree \<Rightarrow> dir_entry" where
  "zfs_entry (n, FFile s) = \<lparr>de_Name = n, de_FileType = 8\<rparr>"
| "zfs_entry (n, FDir es) = \<lparr>de_Name = n, de_FileType = 4\<rparr>"

definition serves_tree :: "fs_lib \<Rightarrow> nat \<Rightarrow> world \<Rightarrow> fs_tree \<Rightarrow> bool" where
  "serves_tree lib h w t \<longleftrightarrow>
     (\<forall>cs es. tree_at t cs = Some (FDir es) \<longrightarrow> fsListDir lib h (root_path cs) w = Inr (map zfs_entry es)) \<and>
     (\<forall>cs s. tree_at t cs = Some (FFile s) \<longrightarrow> (\<exists>st. fsStat lib h (root_path cs) w = Inr st \<and> st_Size st = s))"

lemma tree_at_append:
  "tree_at t (cs @ ds) = (case tree_at t cs of None \<Rightarrow> None | Some u \<Rightarrow> tree_at u ds)"
  by (induction t cs rule: tree_at.induct) (auto split: option.splits)

lemma tree_at_child:
  assumes "wf_tree t" and "tree_at t cs = Some (FDir es)" and "(n, u) \<in> set es"
  shows "tree_at t (cs @ [n]) = Some u" and "good_comp n" and "\<forall>c\<in>set cs. good_comp c"
  using tree_at_wf [OF assms(1,2)] tree_at_good [OF assms(1,2)] assms(2,3)
  by (auto simp: tree_at_append)

lemma zfs_entry_simps [simp]:
  "de_Name (zfs_entry (n, t)) = n"
  "de_FileType (zfs_entry (n, FDir es)) = 4" "de_FileType (zfs_entry (n, FFile s)) = 8"
  by (cases t) simp_all

lemma zfs_loop_tree:
  assumes "wf_tree t" and "serves_tree lib h w t" and "tree_at t cs = Some (FDir all)" and "set es \<subseteq> set all"
    and "\<And>n ds tot. (n, FDir ds) \<in> set es \<Longrightarrow>
      zfs_walk lib h w fuel (root_path (cs @ [n])) (u64 tot) = Some (None, u64 (tot + tree_total (FDir ds)))"
  shows "zfs_loop lib h w fuel (root_path cs) (map zfs_entry es) (u64 tot) = Some (None, u64 (tot + tree_total (FDir es)))"
  using assms(4,5)
proof (induction es arbitrary: tot)
  case (Cons e es)
  obtain n u where e: "e = (n, u)" by (cases e)
  have at: "tree_at t (cs @ [n]) = Some u" "good_comp n" "\<forall>c\<in>set cs. good_comp c"
    using tree_at_child [OF assms(1,3), of n u] Cons.prems(1) e by auto
  note path = next_path [OF at(3,2)]
  have IH: "zfs_loop lib h w fuel (root_path cs) (map zfs_entry es) (u64 tot') =
      Some (None, u64 (tot' + tree_total (FDir es)))" for tot'
    using Cons.IH Cons.prems by simp
  show ?case
  proof (cases u)
    case (FFile s)
    then obtain st where "fsStat lib h (root_path (cs @ [n])) w = Inr st" "st_Size st = s"
      using assms(2) at(1) unfolding serves_tree_def by blast
    then show ?thesis using IH [of "tot + s"]
      unfolding list.map e FFile zfs_loop.simps Let_def zfs_entry_simps path
      by (simp add: u64_add add.assoc)
  next
    case (FDir ds)
    have "zfs_walk lib h w fuel (root_path (cs @ [n])) (u64 tot) = Some (None, u64 (tot + tree_total (FDir ds)))"
      using Cons.prems(2) e FDir by simp
    then show ?thesis using IH [of "tot + tree_total (FDir ds)"]
      unfolding list.map e FDir zfs_loop.simps Let_def zfs_entry_simps path
      by (simp add: u64_add add.assoc)
  qed
qed (simp add: zfs_loop.simps)

lemma zfs_walk_tree:
  assumes "wf_tree t" and "serves_tree lib h w t"
  shows "tree_at t cs = Some (FDir es) \<Longrightarrow> tree_depth (FDir es) \<le> fuel \<Longrightarrow>
    zfs_walk lib h w fuel (root_path cs) (u64 tot) = Some (None, u64 (tot + tree_total (FDir es)))"
proof (induction fuel arbitrary: cs es tot)
  case (Suc fuel)
  have "fsListDir lib h (root_path cs) w = Inr (map zfs_entry es)"
    using assms(2) Suc.prems(1) unfolding serves_tree_def by blast
  moreover have "zfs_loop lib h w fuel (root_path cs) (map zfs_entry es) (u64 tot) =
      Some (None, u64 (tot + tree_total (FDir es)))"
  proof (rule zfs_loop_tree [OF assms Suc.prems(1) subset_refl])
    fix n ds tot assume n: "(n, FDir ds) \<in> set es"
    show "zfs_walk lib h w fuel (root_path (cs @ [n])) (u64 tot) = Some (None, u64 (tot + tree_total (FDir ds)))"
      using Suc.IH [of "cs @ [n]" ds] tree_at_child(1) [OF assms(1) Suc.prems(1) n] Suc.prems(2) depth_member [OF n]
      by simp
  qed
  ultimately show ?case by (simp add: zfs_walk.simps)
qed simp

lemma zfs_loop_at_tree:
  assumes "wf_tree t" and "serves_tree lib h w t" and "tree_at t cs = Some (FDir all)" and "set es \<subseteq> set all"
    and "\<And>n ds v tot. (n, FDir ds) \<in> set es \<Longrightarrow> v \<inter> below (cs @ [n]) = {} \<Longrightarrow>
      \<exists>v1. zfs_walk_at lib h w fuel (root_path (cs @ [n])) v (u64 tot) =
        Some (None, v1, u64 (tot + tree_total (FDir ds))) \<and> v1 \<subseteq> v \<union> below (cs @ [n])"
    and "distinct (map fst es)" and "\<forall>(n, u)\<in>set es. v \<inter> below (cs @ [n]) = {}"
  shows "\<exists>v1. zfs_loop_at lib h w fuel (root_path cs) (map zfs_entry es) v (u64 tot) =
      Some (None, v1, u64 (tot + tree_total (FDir es))) \<and> v1 \<subseteq> v \<union> below cs"
  using assms(4-)
proof (induction es arbitrary: v tot)
  case Nil
  then show ?case by (simp add: zfs_loop_at.simps)
next
  case (Cons e es)
  obtain n u where e: "e = (n, u)" by (cases e)
  have at: "tree_at t (cs @ [n]) = Some u" "good_comp n" "\<forall>c\<in>set cs. good_comp c"
    using tree_at_child [OF assms(1,3), of n u] Cons.prems(1) e by auto
  note path = next_path [OF at(3,2)]
  have free: "v \<inter> below (cs @ [n]) = {}" using Cons.prems(4) e by simp
  have others: "good_comp m" "v \<inter> below (cs @ [m]) = {}" "m \<noteq> n" if "(m, x) \<in> set es" for m x
  proof -
    have "(m, x) \<in> set all" using Cons.prems(1) that by auto
    then show "good_comp m" by (rule tree_at_child(2) [OF assms(1,3)])
    show "v \<inter> below (cs @ [m]) = {}" using Cons.prems(4) that by auto
    show "m \<noteq> n" using Cons.prems(3) that e by force
  qed
  have IH: "\<exists>v2. zfs_loop_at lib h w fuel (root_path cs) (map zfs_entry es) v1 (u64 tot') =
      Some (None, v2, u64 (tot' + tree_total (FDir es))) \<and> v2 \<subseteq> v1 \<union> below cs"
    if "v1 \<subseteq> v \<union> below (cs @ [n])" for v1 tot'
  proof (rule Cons.IH)
    show "\<forall>(m, x)\<in>set es. v1 \<inter> below (cs @ [m]) = {}"
      using others below_disjoint [OF at(3,2)] that by fast
  qed (use Cons.prems in auto)
  show ?case
  proof (cases u)
    case (FFile s)
    then obtain st where "fsStat lib h (root_path (cs @ [n])) w = Inr st" "st_Size st = s"
      using assms(2) at(1) unfolding serves_tree_def by blast
    then show ?thesis using IH [of v "tot + s"]
      unfolding list.map e FFile zfs_loop_at.simps Let_def zfs_entry_simps path
      by (simp add: u64_add add.assoc)
  next
    case (FDir ds)
    then obtain v1 where v1: "zfs_walk_at lib h w fuel (root_path (cs @ [n])) v (u64 tot) =
        Some (None, v1, u64 (tot + tree_total (FDir ds)))" "v1 \<subseteq> v \<union> below (cs @ [n])"
      using Cons.prems(2) [OF _ free] e by (metis list.set_intros(1))
    obtain v2 where v2: "zfs_loop_at lib h w fuel (root_path cs) (map zfs_entry es) v1 (u64 (tot + tree_total (FDir ds))) =
        Some (None, v2, u64 (tot + tree_total (FDir ds) + tree_total (FDir es)))" "v2 \<subseteq> v1 \<union> below cs"
      using IH [OF v1(2)] by blast
    have "v2 \<subseteq> v \<union> below cs" using v1(2) v2(2) below_step [OF at(2)] by fast
    then show ?thesis using v1(1) v2(1)
      unfolding list.map e FDir zfs_loop_at.simps Let_def zfs_entry_simps path
      by (simp add: add.assoc)
  qed
qed

lemma zfs_walk_at_tree:
  assumes "wf_tree t" and "serves_tree lib h w t"
  shows "tree_at t cs = Some (FDir es) \<Longrightarrow> tree_depth (FDir es) \<le> fuel \<Longrightarrow> v \<inter> below cs = {} \<Longrightarrow>
    \<exists>v1. zfs_walk_at lib h w fuel (root_path cs) v (u64 tot) =
      Some (None, v1, u64 (tot + tree_total (FDir es))) \<and> v1 \<subseteq> v \<union> below cs"
proof (induction fuel arbitrary: cs es v tot)
  case (Suc fuel)
  have good: "\<forall>c\<in>set cs. good_comp c" by (rule tree_at_good [OF assms(1) Suc.prems(1)])
  have ls: "fsListDir lib h (root_path cs) w = Inr (map zfs_entry es)"
    using assms(2) Suc.prems(1) unfolding serves_tree_def by blast
  have "\<exists>v1. zfs_loop_at lib h w fuel (root_path cs) (map zfs_entry es) (insert (root_path cs) v) (u64 tot) =
      Some (None, v1, u64 (tot + tree_total (FDir es))) \<and> v1 \<subseteq> insert (root_path cs) v \<union> below cs"
  proof (rule zfs_loop_at_tree [OF assms Suc.prems(1) subset_refl])
    show "distinct (map fst es)" using tree_at_wf [OF assms(1) Suc.prems(1)] by simp
    show "\<forall>(n, u)\<in>set es. insert (root_path cs) v \<inter> below (cs @ [n]) = {}"
      using tree_at_child(2) [OF assms(1) Suc.prems(1)] below_strict [OF good] Suc.prems(3) below_step by fast
    fix n ds u tot assume n: "(n, FDir ds) \<in> set es" and u: "u \<inter> below (cs @ [n]) = {}"
    show "\<exists>v1. zfs_walk_at lib h w fuel (root_path (cs @ [n])) u (u64 tot) =
        Some (None, v1, u64 (tot + tree_total (FDir ds))) \<and> v1 \<subseteq> u \<union> below (cs @ [n])"
      by (rule Suc.IH [OF tree_at_child(1) [OF assms(1) Suc.prems(1) n] _ u])
        (use Suc.prems(2) depth_member [OF n] in simp)
  qed
  moreover have "root_path cs \<notin> v" using Suc.prems(3) below_self [of cs] by blast
  ultimately show ?case using below_self [of cs] by (simp add: zfs_walk_at.simps ls insert_absorb)
qed simp

lemma computeUsed_tree:
  assumes "wf_tree (FDir es)" and "serves_tree lib h w (FDir es)" and "tree_depth (FDir es) \<le> fuel"
  shows "computeUsed lib fuel h w = Some (None, u64 (tree_total (FDir es)))"
  using zfs_walk_tree [OF assms(1,2), of "[]" es fuel 0] assms(3) by (simp add: computeUsed_def u64_def)

lemma computeUsedAt_tree:
  assumes "wf_tree t" and "serves_tree lib h w t" and "tree_at t cs = Some (FDir es)" and "tree_depth (FDir es) \<le> fuel"
  shows "computeUsedAt lib fuel h (root_path cs) w = Some (None, u64 (tree_total (FDir es)))"
  using zfs_walk_at_tree [OF assms(1,2,3,4), of "{}" 0] by (auto simp: computeUsedAt_def u64_def)

text \<open>
  Off trees: where the driver lists a directory itself as its first entry, the walk without a set of
  visited paths goes on whatever its fuel is.
\<close>

lemma zfs_walk_dot_diverges:
  assumes "\<forall>p\<in>{''/'', ''/.''}. \<exists>e es. fsListDir lib h p w = Inr (e # es) \<and> de_Name e = ''.'' \<and> de_FileType e = 4"
  shows "computeUsed lib fuel h w = None"
proof -
  have j: "path_join [''/.'', ''.''] = ''/''" by code_simp
  have "p \<in> {''/'', ''/.''} \<Longrightarrow> zfs_walk lib h w fuel p tot = None" for p tot
  proof (induction fuel arbitrary: p tot)
    case (Suc fuel)
    obtain e es where e: "fsListDir lib h p w = Inr (e # es)" "de_Name e = ''.''" "de_FileType e = 4"
      using assms Suc.prems by blast
    have "(if p = ''/'' then ''/'' @ ''.'' else path_join [p, ''.'']) \<in> {''/'', ''/.''}" using Suc.prems j by auto
    then show ?case using Suc.IH [of "if p = ''/'' then ''/'' @ ''.'' else path_join [p, ''.'']" tot] e
      by (simp add: zfs_walk.simps zfs_loop.simps Let_def split del: if_split)
  qed (simp add: zfs_walk.simps)
  then show ?thesis by (simp add: computeUsed_def)
qed

section \<open>Creating data sets\<close>

lemma zfs_dirs_loop_eq:
  assumes drv: "dir_driver lib h ex" and good: "\<forall>c\<in>set (ds @ cs). good_comp c" and cur: "ex w (root_path ds)"
  shows "zfs_dirs_loop lib h ds cs w = ensure_loop lib h (root_path ds) cs w"
  using good cur
proof (induction cs arbitrary: ds w)
  case (Cons c cs)
  let ?p = "root_path (ds @ [c])"
  have ds: "\<forall>c\<in>set ds. good_comp c" and c: "good_comp c" using Cons.prems(1) by auto
  have j: "path_join [root_path ds, c] = ?p" by (rule path_join_root_path [OF ds c])
  have pd: "path_dir ?p = root_path ds" by (rule path_dir_root_path [OF ds c])
  have p: "''/'' @ join_with ''/'' (ds @ [c]) = ?p" by (simp add: root_path_def)
  have IH: "ex v ?p \<Longrightarrow> zfs_dirs_loop lib h (ds @ [c]) cs v = ensure_loop lib h ?p cs v" for v
    by (rule Cons.IH) (use Cons.prems(1) in simp_all)
  show ?case
  proof (cases "ex w ?p")
    case True
    then obtain st where "fsStat lib h ?p w = Inr st" using drv unfolding dir_driver_def by blast
    then show ?thesis using IH [OF True] unfolding zfs_dirs_loop.simps ensure_loop.simps Let_def p j by simp
  next
    case False
    then obtain e where e: "fsStat lib h ?p w = Inl e" using drv unfolding dir_driver_def by (metis obj_sumE)
    obtain r v where mk: "fsMkDir lib h ?p 493 w = (r, v)" by force
    then have "r = None" "ex v ?p" using drv False Cons.prems(2) unfolding dir_driver_def pd [symmetric] by blast+
    then show ?thesis using e mk IH [of v] unfolding zfs_dirs_loop.simps ensure_loop.simps Let_def p j by simp
  qed
qed simp

text \<open>What the command needs of the strings: a data set's name splits into its pool and its path.\<close>

lemma trim_func_eq_Nil: "trim_func P s = [] \<longleftrightarrow> (\<forall>c\<in>set s. P c)"
  by (auto simp: trim_func_def dropWhile_eq_Nil_conv dest: set_dropWhileD)
    (metis (full_types) set_dropWhileD takeWhile_dropWhile_id Un_iff set_append set_takeWhileD)

lemma contains_slash: "contains_str s ''/'' \<longleftrightarrow> CHR ''/'' \<in> set s"
  by (induction s) (auto simp: has_prefix_def)

lemma split_n2_first: "c \<notin> set p \<Longrightarrow> split_n2 c (p @ c # s) = [p, s]"
  by (induction p) (auto simp: split_n2_def)

lemma trim_slashes:
  assumes "cs \<noteq> []" and "\<forall>c\<in>set cs. good_comp c"
  shows "trim_func (\<lambda>c. c = CHR ''/'') (CHR ''/'' # join_with ''/'' cs) = join_with ''/'' cs"
proof -
  let ?j = "join_with ''/'' cs"
  have h: "?j \<noteq> [] \<and> hd ?j \<noteq> CHR ''/''"
    using assms by (cases cs; cases "tl cs"; cases "hd cs") (auto simp: good_comp_def)
  obtain ds d where ds: "cs = ds @ [d]" using assms(1) by (metis rev_exhaust)
  then have d: "good_comp d" using assms(2) by simp
  have "last ?j = last d"
  proof (cases "ds = []")
    case False
    then show ?thesis using d by (simp add: ds join_with_snoc good_comp_def)
  qed (simp add: ds)
  moreover have "last d \<noteq> CHR ''/''" using d last_in_set [of d] unfolding good_comp_def by metis
  ultimately have l: "last ?j \<noteq> CHR ''/''" by simp
  have "dropWhile (\<lambda>c. c = CHR ''/'') (CHR ''/'' # ?j) = ?j"
    using h by (cases ?j) auto
  moreover have "dropWhile (\<lambda>c. c = CHR ''/'') (rev ?j) = rev ?j"
    using h l by (cases "rev ?j") (auto simp: hd_rev [symmetric])
  ultimately show ?thesis by (simp add: trim_func_def)
qed

lemma zfs_create_dirs_path:
  assumes "cs \<noteq> []" and "\<forall>c\<in>set cs. good_comp c" and "CHR ''/'' \<notin> set p"
  shows "zfs_create_dirs lib h poolName (p @ ''/'' @ join_with ''/'' cs) w =
    (if p = poolName then zfs_dirs_loop lib h [] cs w else (Some (Msg ''zfs create: pool mismatch''), w))"
proof -
  define d where "d = p @ ''/'' @ join_with ''/'' cs"
  have "trim_space d \<noteq> []" by (simp add: d_def trim_space_def trim_func_eq_Nil is_space_def)
  moreover have "contains_str d ''/''" by (simp add: d_def contains_slash)
  moreover have "split_n2 (CHR ''/'') d = [p, join_with ''/'' cs]"
    using split_n2_first [OF assms(3)] by (simp add: d_def)
  moreover have "join_with ''/'' cs \<noteq> []"
    using assms(1,2) by (cases cs; cases "tl cs"; cases "hd cs") (auto simp: good_comp_def)
  moreover have "split_on (CHR ''/'') (join_with ''/'' cs) = cs"
    by (rule split_join [OF assms(1)]) (use assms(2) in \<open>auto simp: good_comp_def\<close>)
  ultimately show ?thesis unfolding d_def [symmetric]
    using trim_slashes [OF assms(1,2)] by (simp add: zfs_create_dirs_def)
qed

section \<open>Properties\<close>

text \<open>C35: Whatever name-value list of strings and 64-bit numbers is written after a header of 16
  bytes in XDR form and closed with a zero word, \<open>parseLabelNVList\<close> reads back every name with
  its value, numbers in decimal, a later entry overriding an earlier one of the same name, and
  whatever follows the zero word is ignored.\<close>

theorem parse_written_label:
  assumes "length hdr = 16" and "\<forall>e\<in>set es. nv_entry_ok e"
  shows "parseLabelNVList (hdr @ concat (map nv_entry es) @ be_bytes 4 0 @ rest) =
    Inr (map_of (rev (map (\<lambda>(n, v). (n, nv_text v)) es)))"
  using nv_loop_entries [OF assms(2), of hdr rest Map.empty] assms(1) by (simp add: parseLabelNVList_def)

theorem parse_written_label_witness:
  "\<exists>m. parseLabelNVList ((replicate 16 1 :: bytes) @ concat (map nv_entry [(''version'', NvUint 5000), (''name'', NvString ''tank'')])
      @ be_bytes 4 0 @ [1, 2, 3]) = Inr m \<and> m ''name'' = Some ''tank'' \<and> m ''version'' = Some ''5000'' \<and> m ''guid'' = None"
proof -
  let ?es = "[(''version'', NvUint 5000), (''name'', NvString ''tank'')]"
  have ok: "\<forall>e\<in>set ?es. nv_entry_ok e" by (simp add: nv_entry_ok_def)
  have "dec 5000 = ''5000''" by (simp add: dec_def nat_str.simps digit_char_def char_of_def bit_0)
  moreover have "length (replicate 16 1 :: bytes) = 16" by simp
  ultimately show ?thesis unfolding parse_written_label [OF \<open>length (replicate 16 1 :: bytes) = 16\<close> ok] by simp
qed

text \<open>C34: On a pool that holds a finite tree, both walks of the source end as soon as their fuel
  reaches the depth of the directory they start from, without an error, and they give the same
  value for the root: the sum modulo \<open>2 ^ 64\<close> of the sizes of all files below. The set of visited
  paths, which only the second walk keeps, changes nothing on a tree.\<close>

theorem zfs_walks_end_on_trees:
  assumes "wf_tree t" and "serves_tree lib h w t" and "tree_at t cs = Some (FDir es)" and "tree_depth (FDir es) \<le> fuel"
  shows "computeUsedAt lib fuel h (root_path cs) w = Some (None, u64 (tree_total (FDir es))) \<and>
    (cs = [] \<longrightarrow> computeUsed lib fuel h w = computeUsedAt lib fuel h (root_path cs) w)"
proof -
  have at: "computeUsedAt lib fuel h (root_path cs) w = Some (None, u64 (tree_total (FDir es)))"
    by (rule computeUsedAt_tree [OF assms])
  have "computeUsed lib fuel h w = Some (None, u64 (tree_total (FDir es)))" if "cs = []"
  proof -
    have "t = FDir es" using assms(3) that by simp
    then show ?thesis using computeUsed_tree [of es lib h w fuel] assms by blast
  qed
  then show ?thesis unfolding at by blast
qed

definition tree_pool :: "fs_tree \<Rightarrow> fs_lib" where
  "tree_pool t = tree_driver
     \<lparr>fsListDir := (\<lambda>h p w. case tree_at t (filter (\<lambda>c. c \<noteq> []) (split_on (CHR ''/'') p)) of
        Some (FDir es) \<Rightarrow> Inr (map zfs_entry es) | _ \<Rightarrow> Inl (Lib ''not a directory'')),
      fsStat := (\<lambda>h p w. case tree_at t (filter (\<lambda>c. c \<noteq> []) (split_on (CHR ''/'') p)) of
        Some (FFile s) \<Rightarrow> Inr \<lparr>st_Mode = 0, st_Size = s, st_Inode = 0\<rparr> | _ \<Rightarrow> Inl (Lib ''not a file''))\<rparr>"

lemma tree_pool_serves:
  assumes "wf_tree t"
  shows "serves_tree (tree_pool t) h w t"
proof -
  have "filter (\<lambda>c. c \<noteq> []) (split_on (CHR ''/'') (root_path cs)) = cs" if "tree_at t cs = Some u" for cs u
  proof -
    have good: "\<forall>c\<in>set cs. good_comp c" by (rule tree_at_good [OF assms that])
    then have "filter (\<lambda>c. c \<noteq> []) (if cs = [] then [[]] else cs) = cs"
      by (auto simp: good_comp_def filter_id_conv)
    then show ?thesis by (simp add: split_root_path [OF good])
  qed
  then show ?thesis by (simp add: serves_tree_def tree_pool_def)
qed

theorem zfs_walks_end_on_trees_witness:
  "computeUsed (tree_pool demo_tree) 3 1 demo_world = Some (None, 4120)"
proof -
  have wf: "wf_tree demo_tree" by (simp add: demo_tree_def good_comp_def)
  have "tree_at demo_tree [] = Some (FDir [(''etc'', FDir [(''hosts'', FFile 120), (''x'', FDir [])]), (''boot'', FFile 4000)])"
    by (simp add: demo_tree_def)
  from zfs_walks_end_on_trees [OF wf tree_pool_serves [OF wf] this, of 3 1 demo_world]
  show ?thesis by (simp add: u64_def)
qed

text \<open>C36: \<open>zfs create p/c1/.../cn\<close> on an opened pool whose driver keeps the directory contract: when
  \<open>p\<close> is the name of the pool the command succeeds, confirms the data set on the standard output,
  and exactly the missing directories among \<open>/c1\<close>, ..., \<open>/c1/.../cn\<close> have been made; for any other
  \<open>p\<close> it fails, and the pool is closed without a directory made.\<close>

theorem zfs_create_makes_ancestors:
  assumes "zOpen lib path part w = (Inr h, w1)" and "dir_driver (zFS lib) h ex" and "ex w1 ''/''"
    and "cs \<noteq> []" and "\<forall>c\<in>set cs. good_comp c" and "CHR ''/'' \<notin> set p" and "ds = p @ ''/'' @ join_with ''/'' cs"
  shows "if p = pool_name lib path h w1
    then \<exists>w2. ZfsCreateFromImage lib path part ds w =
        (None, snd (fsClose (zFS lib) h (print_line (''created dataset '' @ ds) w2))) \<and>
      (\<forall>q. ex w2 q \<longleftrightarrow> ex w1 q \<or> (\<exists>n \<le> length cs. q = root_path (take n cs)))
    else ZfsCreateFromImage lib path part ds w =
      (Some (Msg ''zfs create: pool mismatch''), snd (fsClose (zFS lib) h w1))"
proof -
  have root: "root_path [] = ''/''" by (simp add: root_path_def)
  have "zfs_dirs_loop (zFS lib) h [] cs w1 = ensure_loop (zFS lib) h (root_path []) cs w1"
    by (rule zfs_dirs_loop_eq [OF assms(2)]) (use assms(3,5) root in simp_all)
  moreover obtain w2 where "ensure_loop (zFS lib) h (root_path []) cs w1 = (None, w2)"
      "\<forall>q. ex w2 q \<longleftrightarrow> ex w1 q \<or> (\<exists>n \<le> length cs. q = root_path (take n cs))"
    using ensure_loop_creates [OF assms(2), of "[]" cs w1] assms(3,5) root by auto
  moreover have "zfs_create_dirs (zFS lib) h (pool_name lib path h w1) ds w1 =
      (if p = pool_name lib path h w1 then zfs_dirs_loop (zFS lib) h [] cs w1
       else (Some (Msg ''zfs create: pool mismatch''), w1))"
    unfolding assms(7) by (rule zfs_create_dirs_path [OF assms(4,5,6)])
  ultimately show ?thesis by (auto simp: ZfsCreateFromImage_def assms(1))
qed

definition demo_pool :: zfs_lib where
  "demo_pool = \<lparr>zOpen = (\<lambda>p i w. (Inr 1, w)), zLabelOffset = (\<lambda>h off. off), zPartitionOffset = (\<lambda>h w. 0),
     zFS = tree_driver\<rparr>"

theorem zfs_create_makes_ancestors_witness:
  "fst (ZfsCreateFromImage demo_pool ''/img/tank'' 0 ''tank/home/ann'' demo_world) = None"
proof -
  have o: "zOpen demo_pool ''/img/tank'' 0 demo_world = (Inr 1, demo_world)" by (simp add: demo_pool_def)
  have d: "dir_driver (zFS demo_pool) 1 tree_has" by (simp add: demo_pool_def tree_driver_contract)
  have n: "pool_name demo_pool ''/img/tank'' 1 demo_world = ''tank''"
    by (simp add: pool_name_def sys_open_def demo_world_def path_base_def)
  have r: "tree_has demo_world ''/''" by (simp add: tree_has_def)
  have g: "\<forall>c\<in>set [''home'', ''ann'']. good_comp c" by (simp add: good_comp_def)
  have s: "''tank/home/ann'' = ''tank'' @ ''/'' @ join_with ''/'' [''home'', ''ann'']" by simp
  have p: "CHR ''/'' \<notin> set ''tank''" by simp
  obtain w2 where "ZfsCreateFromImage demo_pool ''/img/tank'' 0 ''tank/home/ann'' demo_world =
      (None, snd (fsClose (zFS demo_pool) 1 (print_line (''created dataset '' @ ''tank/home/ann'') w2)))"
    using zfs_create_makes_ancestors [OF o d r list.distinct(2) g p s] unfolding n by auto
  then show ?thesis by (simp only: fst_conv)
qed

end
