(* ===== verification/Exec_Dispatch.thy ===== *)
theory Exec_Dispatch
  imports Zfs_Commands Part_Print
begin

text \<open>
  exec_handlers.go: the command string of \<open>diskimage exec\<close>, its dispatch and the handlers that read
  the arguments of each command. Everything the handlers call is in the theories before; here the
  arguments are checked and passed on.
\<close>

section \<open>What the package holds\<close>

text \<open>
  The package variables (\<open>listFunc\<close>, \<open>testEntries\<close>, \<open>OpenZFS\<close>, \<open>openUEFIStoreFunc\<close>) and the libraries.
  \<open>xe_order\<close> is the order in which \<open>parseSize\<close> finds the keys of its map, \<open>xe_fuel\<close> bounds the depth of
  the directory walks.
\<close>

record exec_env =
  xe_dmg :: dmg_lib
  xe_fs :: fs_lib
  xe_drv :: drv_lib
  xe_zfs :: zfs_lib
  xe_uefi :: uefi_lib
  xe_list :: lister
  xe_entries :: "ListEntry list option"
  xe_order :: "string list"
  xe_fuel :: nat

definition SetListFunc :: "lister option \<Rightarrow> exec_env \<Rightarrow> exec_env" where
  "SetListFunc f env =
     (case f of
        None \<Rightarrow> env\<lparr>xe_list := List (xe_dmg env) (xe_fs env)\<rparr>
      | Some l \<Rightarrow> env\<lparr>xe_list := l\<rparr>)"

definition ResetListFunc :: "exec_env \<Rightarrow> exec_env" where
  "ResetListFunc env = SetListFunc None env"

definition SetOpenZFS ::
    "(string \<Rightarrow> int \<Rightarrow> world \<Rightarrow> (error + nat) \<times> world) option \<Rightarrow> exec_env
     \<Rightarrow> (string \<Rightarrow> int \<Rightarrow> world \<Rightarrow> (error + nat) \<times> world) \<times> exec_env" where
  "SetOpenZFS f env =
     (zOpen (xe_zfs env),
      (case f of None \<Rightarrow> env | Some opn \<Rightarrow> env\<lparr>xe_zfs := (xe_zfs env)\<lparr>zOpen := opn\<rparr>\<rparr>))"

definition SetOpenUEFIStoreFunc ::
    "(string \<Rightarrow> world \<Rightarrow> (error + nat) \<times> world) option \<Rightarrow> exec_env
     \<Rightarrow> (string \<Rightarrow> world \<Rightarrow> (error + nat) \<times> world) \<times> exec_env" where
  "SetOpenUEFIStoreFunc f env =
     (uefiOpen (xe_uefi env),
      (case f of None \<Rightarrow> env | Some opn \<Rightarrow> env\<lparr>xe_uefi := (xe_uefi env)\<lparr>uefiOpen := opn\<rparr>\<rparr>))"

section \<open>Results\<close>

text \<open>
  A command ends with the bytes it writes after its lines (\<open>cat\<close> alone writes any), with an error, or
  with a panic; \<open>None\<close> is a walk that has not ended within its fuel.
\<close>

type_synonym exec_result = "(bytes outcome \<times> world) option"

definition ended :: "error option \<times> world \<Rightarrow> exec_result" where
  "ended r = Some (case fst r of None \<Rightarrow> Ok [] | Some e \<Rightarrow> Err e, snd r)"

definition failed :: "string \<Rightarrow> world \<Rightarrow> error option \<times> world" where
  "failed s w = (Some (Msg s), w)"

section \<open>Handlers of the file systems\<close>

text \<open>The label branch, the same in six handlers.\<close>

definition label_branch ::
    "string \<Rightarrow> (world \<Rightarrow> error option \<times> world) \<Rightarrow> (string \<Rightarrow> world \<Rightarrow> error option \<times> world) \<Rightarrow> string list
     \<Rightarrow> world \<Rightarrow> error option \<times> world" where
  "label_branch fs get set_to argv w =
     (if length argv < 3 \<or> argv ! 2 = ''get'' then get w
      else if argv ! 2 = ''set'' then
        (if length argv < 4 then failed (''usage: '' @ fs @ '' label set <new-label>'') w
         else set_to (argv ! 3) w)
      else failed (''usage: '' @ fs @ '' label [get | set <new-label>]'') w)"

text \<open>The handlers with this branch alone differ in the name and in the two functions.\<close>

definition label_handler ::
    "string \<Rightarrow> (world \<Rightarrow> error option \<times> world) \<Rightarrow> (string \<Rightarrow> world \<Rightarrow> error option \<times> world) \<Rightarrow> string list
     \<Rightarrow> string \<Rightarrow> world \<Rightarrow> error option \<times> world" where
  "label_handler fs get set_to argv file w =
     (if length argv < 2 then failed (fs @ '': missing subcommand (label)'') w
      else if file = '''' then failed (''--file is required for '' @ fs @ '' '' @ argv ! 1) w
      else if argv ! 1 = ''label'' then label_branch fs get set_to argv w
      else failed (''unsupported '' @ fs @ '' subcommand '' @ go_quote (argv ! 1) @ '' (expected label)'') w)"

definition handleExfat :: "exec_env \<Rightarrow> string list \<Rightarrow> string \<Rightarrow> int \<Rightarrow> world \<Rightarrow> error option \<times> world" where
  "handleExfat env argv file partIndex =
     label_handler ''exfat'' (ExfatGetLabelOnImage (xe_dmg env) (xe_drv env) file partIndex)
       (ExfatSetLabelOnImage (xe_dmg env) (xe_drv env) file partIndex) argv file"

definition handleFat32 :: "exec_env \<Rightarrow> string list \<Rightarrow> string \<Rightarrow> int \<Rightarrow> world \<Rightarrow> error option \<times> world" where
  "handleFat32 env argv file partIndex =
     label_handler ''fat32'' (Fat32GetLabelOnImage (xe_dmg env) (xe_drv env) file partIndex)
       (Fat32SetLabelOnImage (xe_dmg env) (xe_drv env) file partIndex) argv file"

definition handleExt4 :: "exec_env \<Rightarrow> string list \<Rightarrow> string \<Rightarrow> int \<Rightarrow> world \<Rightarrow> error option \<times> world" where
  "handleExt4 env argv file partIndex =
     label_handler ''ext4'' (Ext4GetLabelOnImage (xe_dmg env) (xe_drv env) file partIndex)
       (Ext4SetLabelOnImage (xe_dmg env) (xe_drv env) file partIndex) argv file"

text \<open>\<open>DetectFilesystem\<close> before a command, as \<open>ntfs compact\<close>, \<open>zpool\<close>, \<open>zfs\<close> and \<open>xfs grow\<close> do.\<close>

definition checked ::
    "exec_env \<Rightarrow> string \<Rightarrow> FilesystemType \<Rightarrow> string \<Rightarrow> int \<Rightarrow> (world \<Rightarrow> 'a) \<Rightarrow> (error option \<times> world \<Rightarrow> 'a)
     \<Rightarrow> world \<Rightarrow> 'a" where
  "checked env cmd fs file partIndex run stop w =
     (case DetectFilesystem (xe_dmg env) file partIndex w of
        (Inl e, w1) \<Rightarrow> stop (Some (Wrap (''detect filesystem for '' @ cmd) e), w1)
      | (Inr fsType, w1) \<Rightarrow>
          if fsType \<noteq> fs then stop (failed (cmd @ '' requires an image of '' @ fs @ '' (detected: '' @ fsType @ '')'') w1)
          else run w1)"

text \<open>The flags of \<open>ntfs compact\<close>.\<close>

fun compact_flags :: "string list \<Rightarrow> bool \<times> bool \<Rightarrow> bool \<times> bool" where
  "compact_flags [] f = f"
| "compact_flags (a # as) (human, listFiles) =
     (if has_prefix a ''--'' then
        compact_flags as (human \<or> a = ''--human'', listFiles \<or> a = ''--list-files'')
      else if has_prefix a ''-'' then
        compact_flags as (human \<or> CHR ''h'' \<in> set (drop 1 a), listFiles \<or> CHR ''l'' \<in> set (drop 1 a))
      else compact_flags as (human, listFiles))"

definition handleNtfs :: "exec_env \<Rightarrow> string list \<Rightarrow> string \<Rightarrow> int \<Rightarrow> world \<Rightarrow> error option \<times> world" where
  "handleNtfs env argv file partIndex w =
     (if length argv \<ge> 2 \<and> argv ! 1 = ''label'' then
        (if file = '''' then failed ''--file is required for ntfs label'' w
         else label_branch ''ntfs'' (NtfsGetLabelOnImage (xe_dmg env) (xe_drv env) file partIndex)
                (NtfsSetLabelOnImage (xe_dmg env) (xe_drv env) file partIndex) argv w)
      else if length argv \<ge> 2 \<and> argv ! 1 = ''compact'' then
        (if file = '''' then failed ''--file is required for ntfs compact on image'' w
         else checked env ''ntfs compact'' FSNTFS file partIndex
                (let (human, listFiles) = compact_flags (drop 2 argv) (False, False)
                 in NtfsCompactFromImage (xe_drv env) file partIndex human listFiles) id w)
      else failed ''unsupported ntfs subcommand'' w)"

definition handleZpool :: "exec_env \<Rightarrow> string list \<Rightarrow> string \<Rightarrow> int \<Rightarrow> world \<Rightarrow> error option \<times> world" where
  "handleZpool env argv file partIndex w =
     (if length argv \<ge> 2 \<and> argv ! 1 = ''status'' then
        (if file = '''' then failed ''--file is required for zpool status on image'' w
         else checked env ''zpool status'' FSZfs file partIndex
                (ZpoolStatusFromImage (xe_zfs env) file partIndex) id w)
      else failed ''unsupported zpool subcommand'' w)"

text \<open>A subcommand with at least \<open>n\<close> words, or its usage.\<close>

definition need :: "nat \<Rightarrow> string \<Rightarrow> string list \<Rightarrow> (world \<Rightarrow> error option \<times> world) \<Rightarrow> world \<Rightarrow> error option \<times> world" where
  "need n usage argv run w = (if length argv < n then failed (''usage: '' @ usage) w else run w)"

definition handleBtrfs :: "exec_env \<Rightarrow> string list \<Rightarrow> string \<Rightarrow> int \<Rightarrow> world \<Rightarrow> error option \<times> world" where
  "handleBtrfs env argv file partIndex w =
     (if length argv < 2 then
        failed ''btrfs: missing subcommand (chmod|chown|chtimes|link|symlink|setxattr|removexattr)'' w
      else if file = '''' then failed (''--file is required for btrfs '' @ argv ! 1) w
      else
        (let dmg = xe_dmg env; lib = xe_drv env; sub = argv ! 1
         in if sub = ''chmod'' then
              need 4 ''btrfs chmod <mode> <path>'' argv (BtrfsChmodOnImage dmg lib file partIndex (argv ! 2) (argv ! 3)) w
            else if sub = ''chown'' then
              need 5 ''btrfs chown <uid> <gid> <path>'' argv
                (BtrfsChownOnImage dmg lib file partIndex (argv ! 2) (argv ! 3) (argv ! 4)) w
            else if sub = ''chtimes'' then
              need 5 ''btrfs chtimes <atime-unixsec> <mtime-unixsec> <path>'' argv
                (BtrfsChtimesOnImage dmg lib file partIndex (argv ! 2) (argv ! 3) (argv ! 4)) w
            else if sub = ''link'' then
              need 4 ''btrfs link <oldPath> <newPath>'' argv (BtrfsLinkOnImage dmg lib file partIndex (argv ! 2) (argv ! 3)) w
            else if sub = ''symlink'' then
              need 4 ''btrfs symlink <target> <linkPath>'' argv
                (BtrfsSymlinkOnImage dmg lib file partIndex (argv ! 2) (argv ! 3)) w
            else if sub = ''setxattr'' then
              need 5 ''btrfs setxattr <path> <name> <value>'' argv
                (BtrfsSetXattrOnImage dmg lib file partIndex (argv ! 2) (argv ! 3) (argv ! 4)) w
            else if sub = ''removexattr'' then
              need 4 ''btrfs removexattr <path> <name>'' argv
                (BtrfsRemoveXattrOnImage dmg lib file partIndex (argv ! 2) (argv ! 3)) w
            else if sub = ''truncate'' then
              need 4 ''btrfs truncate <size> <path>'' argv
                (BtrfsTruncateOnImage dmg lib (xe_order env) file partIndex (argv ! 2) (argv ! 3)) w
            else if sub = ''extended-stat'' \<or> sub = ''stat'' then
              need 3 ''btrfs extended-stat <path>'' argv (BtrfsExtendedStatOnImage dmg lib file partIndex (argv ! 2)) w
            else if sub = ''label'' then
              label_branch ''btrfs'' (BtrfsGetLabelOnImage dmg lib file partIndex)
                (BtrfsSetLabelOnImage dmg lib file partIndex) argv w
            else failed (''unsupported btrfs subcommand '' @ go_quote sub) w))"

text \<open>The size argument of \<open>xfs grow\<close>: \<open>--size=S\<close>, \<open>--size S\<close>, \<open>-sS\<close>, \<open>-s S\<close> or a bare \<open>S\<close>.\<close>

fun grow_size :: "string list \<Rightarrow> string \<Rightarrow> string" where
  "grow_size [] sizeStr = sizeStr"
| "grow_size (a # as) sizeStr =
     (if has_prefix a ''--'' then
        (if has_prefix a ''--size='' then grow_size as (split_n2 (CHR ''='') a ! 1)
         else if a = ''--size'' \<and> as \<noteq> [] then grow_size (tl as) (hd as)
         else grow_size as sizeStr)
      else if has_prefix a ''-'' then
        (if length a > 2 \<and> a ! 1 = CHR ''s'' then grow_size as (drop 2 a)
         else if a = ''-s'' \<and> as \<noteq> [] then grow_size (tl as) (hd as)
         else grow_size as sizeStr)
      else grow_size as (if sizeStr = '''' then a else sizeStr))"

definition handleXfs :: "exec_env \<Rightarrow> string list \<Rightarrow> string \<Rightarrow> int \<Rightarrow> world \<Rightarrow> error option \<times> world" where
  "handleXfs env argv file partIndex w =
     (if length argv < 2 then
        failed ''xfs: missing subcommand (grow|chmod|chown|chtimes|link|symlink|truncate|extended-stat|label)'' w
      else if file = '''' then failed (''--file is required for xfs '' @ argv ! 1) w
      else
        (let dmg = xe_dmg env; lib = xe_drv env; sub = argv ! 1
         in if sub = ''chmod'' then
              need 4 ''xfs chmod <mode> <path>'' argv (XfsChmodOnImage dmg lib file partIndex (argv ! 2) (argv ! 3)) w
            else if sub = ''chown'' then
              need 5 ''xfs chown <uid> <gid> <path>'' argv
                (XfsChownOnImage dmg lib file partIndex (argv ! 2) (argv ! 3) (argv ! 4)) w
            else if sub = ''chtimes'' then
              need 5 ''xfs chtimes <atime-unixsec> <mtime-unixsec> <path>'' argv
                (XfsChtimesOnImage dmg lib file partIndex (argv ! 2) (argv ! 3) (argv ! 4)) w
            else if sub = ''link'' then
              need 4 ''xfs link <oldPath> <newPath>'' argv (XfsLinkOnImage dmg lib file partIndex (argv ! 2) (argv ! 3)) w
            else if sub = ''symlink'' then
              need 4 ''xfs symlink <target> <linkPath>'' argv
                (XfsSymlinkOnImage dmg lib file partIndex (argv ! 2) (argv ! 3)) w
            else if sub = ''truncate'' then
              need 4 ''xfs truncate <size> <path>'' argv
                (XfsTruncateOnImage dmg lib (xe_order env) file partIndex (argv ! 2) (argv ! 3)) w
            else if sub = ''extended-stat'' \<or> sub = ''stat'' then
              need 3 ''xfs extended-stat <path>'' argv (XfsExtendedStatOnImage dmg lib file partIndex (argv ! 2)) w
            else if sub = ''label'' then
              label_branch ''xfs'' (XfsGetLabelOnImage dmg lib file partIndex)
                (XfsSetLabelOnImage dmg lib file partIndex) argv w
            else if sub = ''grow'' then
              checked env ''xfs grow'' FSXfs file partIndex
                (\<lambda>w1. let sizeStr = grow_size (drop 2 argv) '''' in
                   if sizeStr = '''' then failed ''xfs grow requires a --size argument'' w1
                   else XfsGrowFromImage lib (xe_order env) file partIndex sizeStr w1) id w
            else failed ''unsupported xfs subcommand'' w))"

text \<open>The arguments of \<open>zfs set\<close>: \<open>quota=V DATASET\<close> or \<open>quota DATASET V\<close>.\<close>

definition zfs_set_args :: "string list \<Rightarrow> error + string \<times> string" where
  "zfs_set_args argv =
     (if length argv < 3 then Inl (Msg ''zfs set requires arguments'')
      else if contains_str (argv ! 2) ''='' then
        (let parts = split_n2 (CHR ''='') (argv ! 2)
         in if parts ! 0 \<noteq> ''quota'' then Inl (Msg (''unsupported zfs property: '' @ parts ! 0))
            else if length argv < 4 then Inl (Msg (''zfs set '' @ argv ! 2 @ '' requires a dataset''))
            else Inr (argv ! 3, parts ! 1))
      else if argv ! 2 \<noteq> ''quota'' then Inl (Msg (''unsupported zfs property: '' @ argv ! 2))
      else if length argv < 5 then Inl (Msg ''zfs set quota requires a dataset and value'')
      else Inr (argv ! 3, argv ! 4))"

definition handleZfs :: "exec_env \<Rightarrow> string list \<Rightarrow> string \<Rightarrow> int \<Rightarrow> world \<Rightarrow> (error option \<times> world) option" where
  "handleZfs env argv file partIndex w =
     (let lib = xe_zfs env; sub = argv ! 1
      in if length argv \<ge> 2 \<and> sub \<in> {''list'', ''create'', ''get'', ''set''} then
           (if file = '''' then Some (failed (''--file is required for zfs '' @ sub @ '' on image'') w)
            else checked env (''zfs '' @ sub) FSZfs file partIndex
              (\<lambda>w1.
                 if sub = ''list'' then ZfsListFromImage lib (xe_fuel env) file partIndex w1
                 else if sub = ''create'' then
                   Some (if length argv < 3 then failed ''zfs create requires a dataset name'' w1
                         else ZfsCreateFromImage lib file partIndex (argv ! 2) w1)
                 else if sub = ''get'' then
                   (if length argv < 4 \<or> argv ! 2 \<noteq> ''quota'' then
                      Some (failed ''zfs get quota requires a dataset name'' w1)
                    else ZfsGetQuotaFromImage lib (xe_fuel env) file partIndex (argv ! 3) w1)
                 else
                   Some (case zfs_set_args argv of
                           Inl e \<Rightarrow> (Some e, w1)
                         | Inr (dataset, quota) \<Rightarrow> ZfsSetQuotaFromImage lib file partIndex dataset quota w1))
              Some w)
         else Some (failed ''unsupported zfs subcommand'' w))"

section \<open>The other handlers\<close>

definition handlePart :: "string list \<Rightarrow> string \<Rightarrow> world \<Rightarrow> unit outcome \<times> world" where
  "handlePart argv file w =
     (if length argv \<ge> 2 \<and> argv ! 1 = ''print'' then
        (if file = '''' then (Err (Msg ''--file is required for part print''), w)
         else PartPrintFromImage file w)
      else (Err (Msg ''unsupported part subcommand''), w))"

definition handleDF ::
    "exec_env \<Rightarrow> string list \<Rightarrow> string \<Rightarrow> string \<Rightarrow> int \<Rightarrow> world \<Rightarrow> (error option \<times> world) option" where
  "handleDF env argv file filesystemArg partIndex w =
     (let human = (''-h'' \<in> set (drop 1 argv))
      in if file = '''' then Some (failed ''--file is required for df'' w)
         else DFFromImage (xe_list env) (xe_fuel env) file filesystemArg partIndex human w)"

text \<open>The arguments of \<open>du\<close>: \<open>-h\<close>, \<open>-s\<close> (always on) and the last word that is not a flag.\<close>

fun du_args :: "string list \<Rightarrow> bool \<times> string \<Rightarrow> bool \<times> string" where
  "du_args [] f = f"
| "du_args (a # as) (human, pathArg) =
     (if has_prefix a ''-'' then du_args as (human \<or> CHR ''h'' \<in> set (drop 1 a), pathArg)
      else du_args as (human, a))"

definition handleDU ::
    "exec_env \<Rightarrow> string list \<Rightarrow> string \<Rightarrow> string \<Rightarrow> int \<Rightarrow> world \<Rightarrow> (error option \<times> world) option" where
  "handleDU env argv file filesystemArg partIndex w =
     (let (human, pathArg) = du_args (drop 1 argv) (False, ''/'')
      in if file = '''' then Some (failed ''--file is required for du'' w)
         else DUSummaryFromImage (xe_list env) (xe_fuel env) file filesystemArg partIndex pathArg human w)"

definition handleCat ::
    "exec_env \<Rightarrow> string list \<Rightarrow> string \<Rightarrow> string \<Rightarrow> int \<Rightarrow> world \<Rightarrow> bytes outcome \<times> world" where
  "handleCat env argv file filesystemArg partIndex w =
     (if file = '''' then (Err (Msg ''--file is required for cat''), w)
      else if length argv < 2 then (Err (Msg ''cat requires a file path argument''), w)
      else
        (case ReadFile (xe_dmg env) (xe_fs env)
                \<lparr>fo_Path = file, fo_Filesystem = to_lower filesystemArg, fo_PartIndex = partIndex,
                 fo_FilePath = argv ! 1, fo_UnlockKeys = []\<rparr> w of
           (Inl e, w1) \<Rightarrow> (Err e, w1)
         | (Inr data, w1) \<Rightarrow> (Ok data, w1)))"

section \<open>The dispatch\<close>

definition execDispatch ::
    "exec_env \<Rightarrow> string list \<Rightarrow> string \<Rightarrow> string \<Rightarrow> int \<Rightarrow> string \<Rightarrow> world \<Rightarrow> exec_result" where
  "execDispatch env argv file filesystemArg partIndex dirPath w =
     (if argv = [] then Some (Panic, w)
      else if argv ! 0 = ''ls'' then
        ended (handleLS (xe_entries env) (xe_list env) argv file filesystemArg partIndex dirPath w)
      else if argv ! 0 = ''cat'' then Some (handleCat env argv file filesystemArg partIndex w)
      else if argv ! 0 = ''uefi'' then ended (handleUefi (xe_uefi env) argv file w)
      else if argv ! 0 = ''zpool'' then ended (handleZpool env argv file partIndex w)
      else if argv ! 0 = ''zfs'' then Option.bind (handleZfs env argv file partIndex w) ended
      else if argv ! 0 = ''ntfs'' then ended (handleNtfs env argv file partIndex w)
      else if argv ! 0 = ''xfs'' then ended (handleXfs env argv file partIndex w)
      else if argv ! 0 = ''btrfs'' then ended (handleBtrfs env argv file partIndex w)
      else if argv ! 0 = ''ext4'' then ended (handleExt4 env argv file partIndex w)
      else if argv ! 0 = ''fat32'' then ended (handleFat32 env argv file partIndex w)
      else if argv ! 0 = ''exfat'' then ended (handleExfat env argv file partIndex w)
      else if argv ! 0 = ''part'' then
        (case handlePart argv file w of
           (Ok u, w1) \<Rightarrow> Some (Ok [], w1) | (Err e, w1) \<Rightarrow> Some (Err e, w1) | (Panic, w1) \<Rightarrow> Some (Panic, w1))
      else if argv ! 0 = ''df'' then Option.bind (handleDF env argv file filesystemArg partIndex w) ended
      else if argv ! 0 = ''du'' then Option.bind (handleDU env argv file filesystemArg partIndex w) ended
      else ended (failed (''unsupported command: '' @ go_quote (argv ! 0)) w))"

definition execRunE :: "exec_env \<Rightarrow> string \<Rightarrow> string \<Rightarrow> string \<Rightarrow> int \<Rightarrow> string \<Rightarrow> world \<Rightarrow> exec_result" where
  "execRunE env arg file filesystemArg partIndex dirPath w =
     (let argv = Go_Strings.fields arg
      in if argv = [] then ended (failed ''no command provided'' w)
         else execDispatch env argv file filesystemArg partIndex dirPath w)"

section \<open>Refusals\<close>

lemma refuses_failed [refusal]: "refuses w w1 (failed s w)" "refuses w w1 (failed s w1)"
  by (simp_all add: failed_def refusal)

lemma refuses_need [refusal]: "refuses w w1 (run w) \<Longrightarrow> refuses w w1 (need n s argv run w)"
  by (simp add: need_def refusal)

lemma refuses_label [refusal]:
  "refuses w w1 (get w) \<Longrightarrow> (\<And>l. refuses w w1 (set_to l w)) \<Longrightarrow> refuses w w1 (label_branch fs get set_to argv w)"
  by (simp add: label_branch_def refusal)

lemma refuses_label_handler:
  "refuses w w1 (get w) \<Longrightarrow> (\<And>l. refuses w w1 (set_to l w)) \<Longrightarrow>
    refuses w w1 (label_handler fs get set_to argv path w)"
  by (simp add: label_handler_def refusal)

lemma ended_refusal: "refuses w w1 r \<Longrightarrow> \<exists>e w'. ended r = Some (Err e, w') \<and> w' \<in> {w, w1}"
  by (cases r; cases "fst r") (auto simp: refuses_def ended_def)

lemma checked_other:
  "other_fs (xe_dmg env) fs path part w w1 \<Longrightarrow>
    \<exists>r. checked env cmd fs path part run stop w = stop r \<and> refuses w w1 r"
proof -
  assume "other_fs (xe_dmg env) fs path part w w1"
  then obtain r where r: "DetectFilesystem (xe_dmg env) path part w = (r, w1)" "r \<noteq> Inr fs"
    unfolding other_fs_def by blast
  show ?thesis
  proof (cases r)
    case (Inl e)
    then show ?thesis unfolding checked_def r(1) by (auto intro: refusal)
  next
    case (Inr t)
    then have "t \<noteq> fs" using r(2) by simp
    then show ?thesis unfolding checked_def r(1) Inr sum.case prod.case if_P [OF \<open>t \<noteq> fs\<close>]
      by (blast intro: refusal)
  qed
qed

lemma label_handlers_other:
  "other_fs (xe_dmg env) FSExFAT path part w w1 \<Longrightarrow> refuses w w1 (handleExfat env argv path part w)"
  "other_fs (xe_dmg env) FSFat32 path part w w1 \<Longrightarrow> refuses w w1 (handleFat32 env argv path part w)"
  "other_fs (xe_dmg env) FSExt4 path part w w1 \<Longrightarrow> refuses w w1 (handleExt4 env argv path part w)"
  unfolding handleExfat_def handleFat32_def handleExt4_def ExfatGetLabelOnImage_def ExfatSetLabelOnImage_def
    Fat32GetLabelOnImage_def Fat32SetLabelOnImage_def Ext4GetLabelOnImage_def Ext4SetLabelOnImage_def
  by (intro refuses_label_handler exfat.refusals fat32.refusals ext4.refusals; assumption)+

lemma checked_other_id:
  "other_fs (xe_dmg env) fs path part w w1 \<Longrightarrow> refuses w w1 (checked env cmd fs path part run id w)"
  using checked_other [of env fs path part w w1 cmd run id] by auto

lemma handleXfs_other:
  "other_fs (xe_dmg env) FSXfs path part w w1 \<Longrightarrow> refuses w w1 (handleXfs env argv path part w)"
  unfolding handleXfs_def Let_def XfsChmodOnImage_def XfsChownOnImage_def XfsChtimesOnImage_def XfsLinkOnImage_def
    XfsSymlinkOnImage_def XfsTruncateOnImage_def XfsGetLabelOnImage_def XfsSetLabelOnImage_def XfsExtendedStatOnImage_def
  by (intro refuses_if refuses_failed refuses_need refuses_label xfs.refusals checked_other_id)

lemma handleBtrfs_other:
  "other_fs (xe_dmg env) FSBtrfs path part w w1 \<Longrightarrow> refuses w w1 (handleBtrfs env argv path part w)"
  unfolding handleBtrfs_def Let_def BtrfsChmodOnImage_def BtrfsChownOnImage_def BtrfsChtimesOnImage_def
    BtrfsLinkOnImage_def BtrfsSymlinkOnImage_def BtrfsTruncateOnImage_def BtrfsGetLabelOnImage_def
    BtrfsSetLabelOnImage_def BtrfsExtendedStatOnImage_def BtrfsSetXattrOnImage_def BtrfsRemoveXattrOnImage_def
  by (intro refuses_if refuses_failed refuses_need refuses_label btrfs.refusals)

lemma handleNtfs_other:
  "other_fs (xe_dmg env) FSNTFS path part w w1 \<Longrightarrow> refuses w w1 (handleNtfs env argv path part w)"
  unfolding handleNtfs_def NtfsGetLabelOnImage_def NtfsSetLabelOnImage_def
  by (intro refuses_if refuses_failed refuses_label ntfs.refusals checked_other_id)

lemma handleZpool_other:
  "other_fs (xe_dmg env) FSZfs path part w w1 \<Longrightarrow> refuses w w1 (handleZpool env argv path part w)"
  unfolding handleZpool_def by (intro refuses_if refuses_failed checked_other_id)

lemma handleZfs_other:
  assumes "other_fs (xe_dmg env) FSZfs path part w w1"
  shows "\<exists>r. handleZfs env argv path part w = Some r \<and> refuses w w1 r"
proof -
  have "\<exists>r. checked env cmd FSZfs path part run Some w = Some r \<and> refuses w w1 r" for cmd run
    using checked_other [OF assms, of cmd run Some] by blast
  moreover have "\<exists>r. Some (failed s w) = Some r \<and> refuses w w1 r" for s
    by (rule exI [of _ "failed s w"]) (simp add: refusal)
  moreover have "\<exists>r. x = Some r \<and> refuses w w1 r \<Longrightarrow> \<exists>r. y = Some r \<and> refuses w w1 r \<Longrightarrow>
      \<exists>r. (if b then x else y) = Some r \<and> refuses w w1 r" for x y b
    by simp
  note some_if = this
  ultimately show ?thesis unfolding handleZfs_def Let_def by (intro some_if)
qed

section \<open>Without an image\<close>

lemma need_file:
  "\<exists>e. handleLS te l argv '''' fs part dir w = (Some e, w)"
  "\<exists>e. handleCat env argv '''' fs part w = (Err e, w)"
  "\<exists>e. handleUefi u argv '''' w = (Some e, w)"
  "\<exists>e. handleZpool env argv '''' part w = (Some e, w)"
  "\<exists>e. handleZfs env argv '''' part w = Some (Some e, w)"
  "\<exists>e. handleNtfs env argv '''' part w = (Some e, w)"
  "\<exists>e. handleXfs env argv '''' part w = (Some e, w)"
  "\<exists>e. handleBtrfs env argv '''' part w = (Some e, w)"
  "\<exists>e. handleExt4 env argv '''' part w = (Some e, w)"
  "\<exists>e. handleFat32 env argv '''' part w = (Some e, w)"
  "\<exists>e. handleExfat env argv '''' part w = (Some e, w)"
  "\<exists>e. handlePart argv '''' w = (Err e, w)"
  "\<exists>e. handleDF env argv '''' fs part w = Some (Some e, w)"
  "\<exists>e. handleDU env argv '''' fs part w = Some (Some e, w)"
  by (simp_all add: handleLS_def lsExecute_def handleCat_def handleUefi_def handleZpool_def handleZfs_def Let_def
      handleNtfs_def handleXfs_def handleBtrfs_def handleExt4_def handleFat32_def handleExfat_def label_handler_def
      handlePart_def handleDF_def handleDU_def failed_def split: prod.split)

lemma exec_if:
  "\<exists>e. x = Some (Err e, w) \<Longrightarrow> \<exists>e. y = Some (Err e, w) \<Longrightarrow> \<exists>e. (if b then x else y) = Some (Err e, w)"
  by simp

lemma ended_error: "\<exists>e. r = (Some e, w) \<Longrightarrow> \<exists>e. ended r = Some (Err e, w)"
  by (auto simp: ended_def)

text \<open>Without \<open>--file\<close> no command of \<open>exec\<close> does anything: whatever the words of the command are,
  supported or not, the dispatch ends with an error, has printed nothing and has touched no file.\<close>

lemma dispatch_needs_a_file:
  assumes "argv \<noteq> []"
  shows "\<exists>e. execDispatch env argv '''' fsArg part dir w = Some (Err e, w)"
proof -
  have unsup: "\<exists>e. ended (failed s w) = Some (Err e, w)" for s by (simp add: ended_def failed_def)
  have opt: "\<exists>e. o1 = Some (Some e, w) \<Longrightarrow> \<exists>e. Option.bind o1 ended = Some (Err e, w)" for o1
    by (auto simp: ended_def)
  have prt: "\<exists>e. r = (Err e, w) \<Longrightarrow> \<exists>e. (case r of (Ok u, w1) \<Rightarrow> Some (Ok [], w1) | (Err e, w1) \<Rightarrow> Some (Err e, w1)
      | (Panic, w1) \<Rightarrow> Some (Panic, w1)) = Some (Err e, w)" for r :: "unit outcome \<times> world"
    by auto
  have cat: "\<exists>e. Some (handleCat env argv '''' fsArg part w) = Some (Err e, w)" using need_file(2) by simp
  note branches = need_file(1,3,4,6,7,8,9,10,11) [THEN ended_error] need_file(5,13,14) [THEN opt]
    need_file(12) [THEN prt] cat unsup
  show ?thesis unfolding execDispatch_def if_not_P [OF assms] by (intro branches exec_if)
qed

definition idle_drv :: drv_lib where
  "idle_drv =
     \<lparr>drvOpen = (\<lambda>fs p i w. (Inr 1, w)), drvClose = (\<lambda>h w. (None, w)), drvChmod = (\<lambda>h p m w. (None, w)),
      drvChown = (\<lambda>h p u g w. (None, w)), drvChtimes = (\<lambda>h p a m w. (None, w)), drvLink = (\<lambda>h p q w. (None, w)),
      drvSymlink = (\<lambda>h p q w. (None, w)), drvSetXattr = (\<lambda>h p n d w. (None, w)),
      drvRemoveXattr = (\<lambda>h p n w. (None, w)), drvTruncate = (\<lambda>h p s w. (None, w)),
      drvExtendedStat = (\<lambda>h p w. Inl (Lib ''stat'')), drvIsLabeller = (\<lambda>h w. True), drvLabel = (\<lambda>h w. ''root''),
      drvSetLabel = (\<lambda>h l w. (None, w)), drvGrowTo = (\<lambda>h s w. (None, w)),
      drvFragmentationStats = (\<lambda>h w. \<lparr>fr_Files = 0, fr_Used = 0, fr_FreeExtents = 0, fr_TotalFree = 0, fr_LargestFree = 0\<rparr>),
      drvLayout = (\<lambda>h w. []), drvCompact = (\<lambda>h w. (None, w))\<rparr>"

definition demo_env :: exec_env where
  "demo_env = \<lparr>xe_dmg = idle_dmg, xe_fs = tree_driver, xe_drv = idle_drv, xe_zfs = demo_pool, xe_uefi = one_var_store,
     xe_list = List idle_dmg tree_driver, xe_entries = None, xe_order = map fst suffixes, xe_fuel = 8\<rparr>"

section \<open>On an image of another file system\<close>

text \<open>The file system that the commands of one driver work on.\<close>

definition command_fs :: "string \<Rightarrow> FilesystemType option" where
  "command_fs = map_of
     [(''xfs'', FSXfs), (''btrfs'', FSBtrfs), (''ext4'', FSExt4), (''fat32'', FSFat32), (''exfat'', FSExFAT),
      (''ntfs'', FSNTFS), (''zpool'', FSZfs), (''zfs'', FSZfs)]"

lemma dispatch_drivers:
  "execDispatch env (''xfs'' # as) path fa part dir w = ended (handleXfs env (''xfs'' # as) path part w)"
  "execDispatch env (''btrfs'' # as) path fa part dir w = ended (handleBtrfs env (''btrfs'' # as) path part w)"
  "execDispatch env (''ext4'' # as) path fa part dir w = ended (handleExt4 env (''ext4'' # as) path part w)"
  "execDispatch env (''fat32'' # as) path fa part dir w = ended (handleFat32 env (''fat32'' # as) path part w)"
  "execDispatch env (''exfat'' # as) path fa part dir w = ended (handleExfat env (''exfat'' # as) path part w)"
  "execDispatch env (''ntfs'' # as) path fa part dir w = ended (handleNtfs env (''ntfs'' # as) path part w)"
  "execDispatch env (''zpool'' # as) path fa part dir w = ended (handleZpool env (''zpool'' # as) path part w)"
  "execDispatch env (''zfs'' # as) path fa part dir w = Option.bind (handleZfs env (''zfs'' # as) path part w) ended"
  by (simp_all add: execDispatch_def)

lemma command_fs_cases:
  assumes "command_fs c = Some fs"
  obtains "c = ''xfs''" "fs = FSXfs" | "c = ''btrfs''" "fs = FSBtrfs" | "c = ''ext4''" "fs = FSExt4"
  | "c = ''fat32''" "fs = FSFat32" | "c = ''exfat''" "fs = FSExFAT" | "c = ''ntfs''" "fs = FSNTFS"
  | "c = ''zpool''" "fs = FSZfs" | "c = ''zfs''" "fs = FSZfs"
  using assms unfolding command_fs_def by (simp only: map_of.simps fst_conv snd_conv fun_upd_apply split: if_splits) auto

text \<open>C33: The commands of one driver (\<open>xfs\<close>, \<open>btrfs\<close>, \<open>ext4\<close>, \<open>fat32\<close>, \<open>exfat\<close>, \<open>ntfs\<close>, \<open>zpool\<close>, \<open>zfs\<close>)
  never run on an image on which \<open>DetectFilesystem\<close> fails or finds another file system: with any
  arguments they end with an error, and nothing is printed or written beyond what the detection
  itself did.\<close>

theorem driver_commands_check_type:
  assumes "argv \<noteq> []" and "command_fs (argv ! 0) = Some fs"
    and "DetectFilesystem (xe_dmg env) path part w = (r, w1)" and "r \<noteq> Inr fs"
  shows "\<exists>e w'. execDispatch env argv path fsArg part dir w = Some (Err e, w') \<and> (w' = w \<or> w' = w1)"
proof -
  have o: "other_fs (xe_dmg env) fs path part w w1" using assms(3,4) unfolding other_fs_def by blast
  obtain c as where c: "argv = c # as" "argv ! 0 = c" using assms(1) by (cases argv) auto
  have "\<exists>x. execDispatch env (c # as) path fsArg part dir w = ended x \<and> refuses w w1 x"
    using assms(2) unfolding c(2)
  proof (cases rule: command_fs_cases)
    case 8
    then obtain x where "handleZfs env (''zfs'' # as) path part w = Some x" "refuses w w1 x"
      using handleZfs_other o by blast
    then show ?thesis unfolding 8 dispatch_drivers by (intro exI [of _ x]) simp
  qed (use o in \<open>auto simp only: dispatch_drivers intro!: exI conjI refl handleXfs_other handleBtrfs_other
         label_handlers_other handleNtfs_other handleZpool_other\<close>)
  then obtain x where "execDispatch env argv path fsArg part dir w = ended x" "refuses w w1 x" using c(1) by blast
  then show ?thesis using ended_refusal by (metis insertE singletonD)
qed

theorem driver_commands_check_type_witness:
  "\<exists>e w'. execDispatch demo_env [''btrfs'', ''symlink'', ''a'', ''/b''] ''disk.img'' '''' 0 ''/'' demo_world = Some (Err e, w') \<and>
     w' = demo_world"
proof -
  have f: "command_fs ([''btrfs'', ''symlink'', ''a'', ''/b''] ! 0) = Some FSBtrfs" by (simp add: command_fs_def)
  have d: "DetectFilesystem (xe_dmg demo_env) ''disk.img'' 0 demo_world =
      (Inl (Wrap ''detect filesystem'' (Sys ''open'')), demo_world)"
    by (simp add: DetectFilesystem_def demo_env_def idle_dmg_def sys_open_def demo_world_def)
  from driver_commands_check_type [OF _ f d] show ?thesis by simp
qed

section \<open>The words of the command\<close>

definition word_ok :: "string \<Rightarrow> bool" where
  "word_ok a \<longleftrightarrow> a \<noteq> [] \<and> (\<forall>c\<in>set a. \<not> is_space c)"

lemma fields_acc_blank: "\<forall>c\<in>set s. is_space c \<Longrightarrow> fields_acc [] s = []"
  by (induction s) auto

lemma fields_acc_lead: "\<forall>c\<in>set p. is_space c \<Longrightarrow> fields_acc [] (p @ s) = fields_acc [] s"
  by (induction p) auto

lemma fields_acc_word:
  "\<forall>c\<in>set a. \<not> is_space c \<Longrightarrow> fields_acc acc (a @ s) = fields_acc (rev a @ acc) s"
  by (induction a arbitrary: acc) auto

lemma fields_acc_step:
  assumes "word_ok a" and "is_space c" and "\<forall>c\<in>set sep. is_space c"
  shows "fields_acc [] (a @ (c # sep) @ s) = a # fields_acc [] s"
  using assms fields_acc_word [of a "[]" "(c # sep) @ s"] fields_acc_lead [OF assms(3), of s]
  by (simp add: word_ok_def)

lemma fields_acc_join:
  assumes "is_space c" and "\<forall>c\<in>set sep. is_space c" and "\<forall>c\<in>set s. is_space c"
  shows "as \<noteq> [] \<Longrightarrow> \<forall>a\<in>set as. word_ok a \<Longrightarrow> fields_acc [] (join_with (c # sep) as @ s) = as"
proof (induction as)
  case (Cons x xs)
  then have x: "word_ok x" by simp
  show ?case
  proof (cases xs)
    case (Cons y ys)
    then show ?thesis using fields_acc_step [OF x assms(1,2), of "join_with (c # sep) xs @ s"] Cons.IH Cons.prems by simp
  next
    case Nil
    show ?thesis
    proof (cases s)
      case (Cons d r)
      then show ?thesis using fields_acc_step [OF x, of d "[]" r] fields_acc_blank [of r] assms(3) Nil by simp
    qed (use Nil x fields_acc_word [of x "[]" "[]"] in \<open>simp add: word_ok_def\<close>)
  qed
qed simp



section \<open>Panics\<close>

lemma ended_no_panic: "ended r \<noteq> Some (Panic, v)"
  by (cases "fst r") (simp_all add: ended_def)

lemma bind_ended_no_panic: "Option.bind x ended \<noteq> Some (Panic, v)"
  by (cases x) (simp_all add: ended_no_panic)

lemma part_print_panic: "PartPrintFromImage path w = (Panic, v) \<Longrightarrow> v = w"
  by (auto simp: PartPrintFromImage_def Let_def split: option.splits outcome.splits if_splits sum.splits)


definition short_gpt_world :: world where
  "short_gpt_world = demo_world\<lparr>files := [''p.img'' \<mapsto> \<lparr>isize = 2048,
     icont = (\<lambda>i. if i = 592 then 1 else if 512 \<le> i \<and> i < 520 then str_bytes ''EFI PART'' ! (i - 512) else 0)\<rparr>]\<rparr>"


section \<open>The size of xfs grow\<close>

text \<open>The five spellings of the size of \<open>xfs grow\<close> agree: for a size that is not empty and does not
  begin with a dash, \<open>--size=S\<close>, \<open>--size S\<close>, \<open>-sS\<close>, \<open>-s S\<close> and a bare \<open>S\<close> give \<open>S\<close>, and a named
  size wins over a bare word on either side of it.\<close>

lemma grow_size_spellings:
  assumes "s \<noteq> []" and "hd s \<noteq> CHR ''-''" and "bare \<noteq> []" and "hd bare \<noteq> CHR ''-''"
  shows "grow_size [s] '''' = s \<and>
    (\<forall>named \<in> {[''--size='' @ s], [''--size'', s], [''-s'' @ s], [''-s'', s]}.
      grow_size named '''' = s \<and> grow_size (bare # named) '''' = s \<and> grow_size (named @ [bare]) '''' = s)"
proof -
  have no: "\<not> has_prefix x ''--''" "\<not> has_prefix x ''-''" if "x \<noteq> []" "hd x \<noteq> CHR ''-''" for x
    using that by (cases x; auto simp: has_prefix_def)+
  have eq: "split_n2 (CHR ''='') (''--size='' @ s) = [''--size'', s]"
    using split_n2_first [of "CHR ''=''" "''--size''" s] by simp
  have pre: "has_prefix (''--size='' @ s) ''--''" "has_prefix (''--size='' @ s) ''--size=''" "\<not> has_prefix (''-s'' @ s) ''--''"
    "has_prefix (''-s'' @ s) ''-''" "has_prefix ''--size'' ''--''" "\<not> has_prefix ''--size'' ''--size=''"
    "\<not> has_prefix ''-s'' ''--''" "has_prefix ''-s'' ''-''"
    by (simp_all add: has_prefix_def)
  show ?thesis using assms no [OF assms(1,2)] no [OF assms(3,4)] eq pre by (simp add: Let_def)
qed

end
