(* ===== verification/Lifecycle.thy ===== *)
theory Lifecycle
  imports Exec_Dispatch
begin

text \<open>
  Several commands on one image: what \<open>diskimage create\<close>, \<open>grow\<close> and \<open>exec\<close> do one after the other, over
  the same world.
\<close>

section \<open>Growing an image\<close>

text \<open>An image that begins with another one.\<close>

definition img_extends :: "image \<Rightarrow> image \<Rightarrow> bool" where
  "img_extends im im' \<longleftrightarrow> isize im \<le> isize im' \<and> (\<forall>i < isize im. icont im' i = icont im i)"

lemma img_extends_truncate: "isize im \<le> n \<Longrightarrow> img_extends im (img_truncate n im)"
  by (simp add: img_extends_def img_truncate_def)

lemma img_extends_read:
  assumes "img_extends im im'" and "img_read im off n = (b, None)"
  shows "img_read im' off n = (b, None)"
proof -
  have off: "0 \<le> off" and n: "n \<le> isize im - nat off" and b: "b = img_bytes im (nat off) n"
    using assms(2) by (auto simp: img_read_def Let_def min_def split: if_splits)
  have "n \<le> isize im' - nat off"
    using n assms(1) diff_le_mono [of "isize im" "isize im'" "nat off"] by (auto simp: img_extends_def)
  moreover have "img_bytes im' (nat off) n = img_bytes im (nat off) n"
    using n assms(1) by (intro nth_equalityI) (auto simp: img_extends_def)
  ultimately show ?thesis using off b by (simp add: img_read_def Let_def min_def)
qed

lemma img_extends_read_is:
  assumes "img_extends im im'" and "0 \<le> off" and "nat off + n \<le> isize im"
  shows "read_is (img_read im') off n P = read_is (img_read im) off n P"
proof -
  have "img_read im off n = (img_bytes im (nat off) n, None)"
    using img_read_inside [OF assms(3)] assms(2) by simp
  then show ?thesis using img_extends_read [OF assms(1)] by (simp add: read_is_def)
qed

lemma gpt_search_extends:
  assumes "img_extends im im'"
  shows "gpt_search (img_read im) p t e n i = Inr off \<Longrightarrow> gpt_search (img_read im') p t e n i = Inr off"
proof (induction "nat (n - i)" arbitrary: i rule: less_induct)
  case less
  let ?o = "i64 (t + i64 (i * e))"
  obtain buf where i: "i < n" and buf: "img_read im ?o (nat e) = (buf, None)"
    using less.prems unfolding gpt_search.simps [of "img_read im" p t e n i]
    by (auto split: if_splits prod.splits option.splits)
  note buf' = img_extends_read [OF assms buf]
  have "gpt_search (img_read im) p t e n (i + 1) = Inr off \<Longrightarrow> gpt_search (img_read im') p t e n (i + 1) = Inr off"
    by (rule less.hyps) (use i in simp_all)
  then show ?case
    using less.prems i unfolding gpt_search.simps [of "img_read im" p t e n i] gpt_search.simps [of "img_read im'" p t e n i]
    by (auto simp: buf buf' split: if_splits)
qed

lemma detectPartOffset_extends:
  assumes "img_extends im im'" and "detectPartOffset (img_read im) p = Inr off" and "1024 \<le> isize im"
  shows "detectPartOffset (img_read im') p = Inr off"
proof -
  have in_range: "img_read im' o' n = img_read im o' n" if "0 \<le> o'" "nat o' + n \<le> isize im" for o' n
  proof -
    have "img_read im o' n = (img_bytes im (nat o') n, None)"
      using img_read_inside [OF that(2)] that(1) by simp
    then show ?thesis using img_extends_read [OF assms(1)] by simp
  qed
  have r: "img_read im' 512 92 = img_read im 512 92" "img_read im' 446 64 = img_read im 446 64"
    using assms(3) by (simp_all add: in_range)
  have s: "read_is (img_read im') 512 8 P = read_is (img_read im) 512 8 P"
    "read_is (img_read im') 510 2 P = read_is (img_read im) 510 2 P" for P
    using assms(3) img_extends_read_is [OF assms(1)] by simp_all
  have g: "detectGPTOffset (img_read im') p = Inr off" if "detectGPTOffset (img_read im) p = Inr off"
    using that gpt_search_extends [OF assms(1)]
    by (auto simp: detectGPTOffset_def r Let_def split: prod.splits option.splits if_splits)
  show ?thesis using assms(2) g unfolding detectPartOffset_def s detectMBROffset_def r by (simp split: if_splits)
qed

lemma growCmd_ok:
  assumes "growCmd order path sizeStr w = (None, w1)" and "files w path = Some im"
  shows "\<exists>n. grow_parseSize order sizeStr = Inr n \<and> files w1 = (files w)(path \<mapsto> img_truncate (nat n) im) \<and>
    fault w1 = fault w"
  using assms
  by (auto simp: growCmd_def Grow_def sys_truncate_def print_line_def split: sum.splits if_splits option.splits prod.splits)

section \<open>Properties\<close>

text \<open>C12: \<open>diskimage grow\<close> keeps the file systems of an image: a partition (or the whole image, at
  offset 0) whose first 256 KiB lie in the image is found at the same offset with the same file
  system after the image has been grown, on a host without faults.\<close>

theorem grow_keeps_filesystem:
  assumes "files w path = Some im" and "quiet w" and "\<not> isUDIF dmg path w" and "\<not> isUDIF dmg path w1"
    and "DetectFilesystem dmg path p w = (Inr fs, w)" and "detectPartOffset (img_read im) p = Inr (int off)"
    and "off + 262144 \<le> isize im" and "off < 2 ^ 62"
    and "growCmd order path sizeStr w = (None, w1)" and "grow_parseSize order sizeStr = Inr n"
    and "int (isize im) \<le> n"
  shows "DetectFilesystem dmg path p w1 = (Inr fs, w1) \<and>
    (\<exists>im'. files w1 path = Some im' \<and> int (isize im') = n \<and> detectPartOffset (img_read im') p = Inr (int off))"
proof -
  let ?im = "img_truncate (nat n) im"
  have w1: "files w1 path = Some ?im" "quiet w1"
    using growCmd_ok [OF assms(9,1)] assms(2,10) by (auto simp: quiet_def)
  have ext: "img_extends im ?im" by (rule img_extends_truncate) (use assms(11) in simp)
  then have off: "detectPartOffset (img_read ?im) p = Inr (int off)"
    using detectPartOffset_extends assms(6,7) by simp
  have "find_magic ?im off = find_magic im off"
    by (rule find_magic_cong) (use assms(7) ext in \<open>auto simp: img_extends_def\<close>)
  moreover have "find_magic im off = Some fs"
    using detect_image [OF assms(1-3,6,8)] assms(5) by (auto split: option.splits)
  ultimately show ?thesis using detect_image [OF w1 assms(4) off assms(8)] w1(1) off assms(11) by simp
qed

section \<open>Creating and listing\<close>

lemma rawCmd_ok:
  assumes "rawCmd dmg lib order path sizeStr part fsys label w = (None, w1)" and "create_parseSize order sizeStr = Inr sz"
  shows "\<exists>opts v. Create dmg lib opts w = (None, v) \<and> files w1 = files v \<and> fault w1 = fault v \<and>
    co_Path opts = path \<and> co_SizeBytes opts = sz \<and> co_Format opts = FormatRaw \<and> co_Partition opts = to_lower part \<and>
    co_Filesystem opts = to_lower fsys"
proof -
  let ?o = "\<lparr>co_Path = path, co_SizeBytes = sz, co_Format = FormatRaw, co_Partition = to_lower part,
    co_Filesystem = to_lower fsys, co_Label = label, co_DmgUDIFFormat = '''', co_DmgPassphrase = []\<rparr>"
  obtain e v where c: "Create dmg lib ?o w = (e, v)" by force
  then have "e = None" "files w1 = files v" "fault w1 = fault v"
    using assms by (cases e; auto simp: rawCmd_def runCreate_def Let_def print_line_def)+
  then show ?thesis using c by (intro exI [of _ ?o] exI [of _ v]) simp
qed

lemma laid_out_signature:
  assumes "gpt_laid_out n t d g im" and "2082 \<le> n"
  shows "img_read im 512 8 = (str_bytes ''EFI PART'', None)"
proof -
  have len: "length d = 16" and size: "n * 512 \<le> isize im"
    and R: "img_bytes im 512 512 = buildHeader d 2048 (int n - 34) (checksum_ieee (gpt_entries t g 2048 (int n - 34))) 1 (int n - 1) 2"
    using assms(1) by (simp_all add: gpt_laid_out_def Let_def)
  have "img_bytes im 512 8 = chunk 0 8 (img_bytes im 512 92)" by (simp add: chunk_img_bytes)
  also have "\<dots> = str_bytes ''EFI PART''"
    unfolding header_on_disk [OF R] using len by (simp add: chunk_chunk buildHeader_fields)
  finally show ?thesis using img_read_inside [of 512 8 im] size assms(2) by simp
qed

lemma print_laid_out:
  assumes "gpt_laid_out n t d g im" and "2082 \<le> n" and "int n * 512 < 2 ^ 63" and "t \<noteq> replicate 16 0"
    and "files w path = Some im" and "quiet w"
  shows "PartPrintFromImage path w = (Ok (), w\<lparr>stdout := stdout w @ [part_header, join_with tab
      [''0'', ''2048'', exec_humanSize ((n - 2081) * 512), hex_encode t]]\<rparr>)"
proof -
  have rd: "sys_read_at path w = img_read im"
    using assms(5,6) by (intro sys_read_at_img) (auto simp: quiet_def)
  define k where "k = (n - 2081) * 512"
  have k: "(int n - 2081) * 512 = int k" using assms(2) by (simp add: k_def)
  have "int k < 2 ^ 64" unfolding k [symmetric] using assms(2,3) by simp
  then have u: "nat (u64 (int k)) = k" by (simp add: u64_def)
  have i: "itoa 0 = ''0''" "itoa (1048576 sdiv partSectorSize) = ''2048''"
    by (simp_all add: sdiv_pos itoa_def nat_str.simps digit_char_def char_of_def bit_0)
  define e where "e = \<lparr>pe_Index = 0, pe_Start = 1048576, pe_Size = (int n - 2081) * 512, pe_Type = hex_encode t\<rparr>"
  have line: "part_line e = join_with tab [''0'', ''2048'', exec_humanSize ((n - 2081) * 512), hex_encode t]"
    unfolding e_def part_line_def partitionEntry.select_convs i k u k_def [symmetric] by (simp add: tab_def)
  have o: "sys_open path w = None" using assms(5,6) by (simp add: sys_open_def quiet_def)
  show ?thesis
    using parseGPT_laid_out [OF assms(1-4)] laid_out_signature [OF assms(1,2)] o
    unfolding PartPrintFromImage_def rd Let_def e_def [symmetric]
    by (simp add: print_parts_def print_line_def line del: join_with.simps)
qed

text \<open>C9: \<open>diskimage create\<close> followed by \<open>diskimage exec "part print"\<close>: after a raw image with a GPT has
  been created, the listing is the heading and one line, a partition from sector 2048 to the
  last sector before the backup table, with the type of its file system; no file changes.\<close>

theorem create_then_part_print:
  assumes "rawCmd dmg lib order path sizeStr ''gpt'' fsys label w = (None, w1)"
    and "create_parseSize order sizeStr = Inr sz" and "sz < 2 ^ 63" and "path \<noteq> ''''"
    and "format_contract lib" and "quiet w" and "to_lower fsys \<notin> {'''', FSHfsPlus}"
  shows "execRunE env ''part print'' path fa part dir w1 =
    Some (Ok [], w1\<lparr>stdout := stdout w1 @ [part_header, join_with tab
      [''0'', ''2048'', exec_humanSize ((nat sz div 512 - 2081) * 512), hex_encode (gptPartTypeGUID (to_lower fsys))]]\<rparr>)"
proof -
  have low: "to_lower ''gpt'' = PartGPT" by code_simp
  obtain opts v where o: "Create dmg lib opts w = (None, v)" "co_Path opts = path" "co_SizeBytes opts = sz"
      "co_Format opts = FormatRaw" "co_Partition opts = PartGPT" "co_Filesystem opts = to_lower fsys"
      and w1: "files w1 = files v" "fault w1 = fault v"
    using rawCmd_ok [OF assms(1,2)] unfolding low by blast
  have fs: "co_Filesystem opts \<noteq> FSHfsPlus" "co_Filesystem (create_defaults opts) = to_lower fsys"
    using assms(7) o(6) by (auto simp: create_defaults_choices)
  obtain d g im where im: "files v = (files w)(path \<mapsto> im)" "int (isize im) = sz"
      "gpt_laid_out (nat sz div 512) (gptPartTypeGUID (to_lower fsys)) d g im" "2082 \<le> nat sz div 512"
      "fault v = fault w"
    using Create_gpt_image [OF o(1) _ o(5) _ assms(5,6) fs(1)] assms(3) unfolding fs(2) o(2,3,4) by blast
  have "quiet w1" using assms(6) im(5) w1(2) by (simp add: quiet_def)
  moreover have "int (nat sz div 512) * 512 < 2 ^ 63" using im(2) assms(3) by linarith
  ultimately have p: "PartPrintFromImage path w1 = (Ok (), w1\<lparr>stdout := stdout w1 @ [part_header, join_with tab
      [''0'', ''2048'', exec_humanSize ((nat sz div 512 - 2081) * 512), hex_encode (gptPartTypeGUID (to_lower fsys))]]\<rparr>)"
    using print_laid_out [OF im(3,4)] gpt_type_nonzero im(1) w1(1) by simp
  have "Go_Strings.fields ''part print'' = [''part'', ''print'']" by code_simp
  then show ?thesis using assms(4) by (simp add: execRunE_def execDispatch_def handlePart_def p del: join_with.simps)
qed

lemma demo_order: "map_order sorted_suffixes"
  by (auto simp: map_order_def sorted_suffixes_def suffixes_def)

theorem create_then_part_print_witness:
  "\<exists>w1. rawCmd idle_dmg xfs_lib sorted_suffixes ''disk.img'' (create_humanSize 4194304) ''gpt'' ''xfs'' '''' demo_world = (None, w1) \<and>
     execRunE demo_env ''part print'' ''disk.img'' '''' 0 ''/'' w1 =
       Some (Ok [], w1\<lparr>stdout := stdout w1 @ [part_header, join_with tab
         [''0'', ''2048'', exec_humanSize 3128832, hex_encode (gptPartTypeGUID FSXfs)]]\<rparr>)"
proof -
  have sz: "create_parseSize sorted_suffixes (create_humanSize 4194304) = Inr 4194304"
    by (rule create_size.parse_printed [OF demo_order]) simp_all
  have low: "to_lower ''xfs'' = FSXfs" "to_lower ''gpt'' = PartGPT" by code_simp+
  let ?o = "demo_options PartGPT FSXfs\<lparr>co_Format := FormatRaw\<rparr>"
  have "\<exists>w'. Create idle_dmg xfs_lib ?o demo_world = (None, w')"
    by (rule Create_returns [OF quiet_demo_world _ xfs_lib_contract, where S = 4194304
          and psz = "alignDown 3128832 4096"])
      (auto simp: demo_options_def demo_world_def plain_driver_def formats_def xfs_lib_def alignDown_def smod_pos)
  then obtain v where v: "Create idle_dmg xfs_lib ?o demo_world = (None, v)" by blast
  then obtain w1 where w1: "rawCmd idle_dmg xfs_lib sorted_suffixes ''disk.img'' (create_humanSize 4194304) ''gpt'' ''xfs'' ''''
      demo_world = (None, w1)"
    by (simp add: rawCmd_def runCreate_def sz low demo_options_def)
  have "to_lower ''xfs'' \<notin> {'''', FSHfsPlus}" unfolding low by simp
  from create_then_part_print [OF w1 sz _ _ xfs_lib_contract quiet_demo_world this] w1
  show ?thesis by (simp add: low)
qed

definition xfs_world :: world where
  "xfs_world = demo_world\<lparr>files := [''disk.img'' \<mapsto> xfs_image 262144]\<rparr>"

theorem grow_keeps_filesystem_witness:
  "\<exists>w1. growCmd sorted_suffixes ''disk.img'' (create_humanSize 524288) xfs_world = (None, w1) \<and>
     DetectFilesystem idle_dmg ''disk.img'' 0 w1 = (Inr FSXfs, w1)"
proof -
  have sz: "grow_parseSize sorted_suffixes (create_humanSize 524288) = Inr 524288"
    by (rule grow_size.parse_printed [OF demo_order]) simp_all
  have f: "files xfs_world ''disk.img'' = Some (xfs_image 262144)" and q: "quiet xfs_world"
    by (simp_all add: xfs_world_def quiet_def demo_world_def)
  have u: "\<not> isUDIF idle_dmg ''disk.img'' w" for w by (simp add: idle_dmg_def)
  have off: "detectPartOffset (img_read (xfs_image 262144)) 0 = Inr (int 0)"
    by (simp add: detectPartOffset_def read_is_def img_read_def img_bytes_def xfs_image_def bytes_str_def upt_rec_numeral char_of_def)
  have det: "DetectFilesystem idle_dmg ''disk.img'' 0 xfs_world = (Inr FSXfs, xfs_world)"
    using detect_image [OF f q u off] find_magic_xfs_image by simp
  obtain w1 where w1: "growCmd sorted_suffixes ''disk.img'' (create_humanSize 524288) xfs_world = (None, w1)"
    using f q by (simp add: growCmd_def sz Grow_def sys_open_def sys_truncate_def quiet_def)
  have "isize (xfs_image 262144) = 262144" by (simp add: xfs_image_def)
  then show ?thesis using grow_keeps_filesystem [OF f q u u det off _ _ w1 sz] w1 by simp
qed

end
